(* ===== verification/Prelude.thy ===== *)
theory Prelude
  imports Complex_Main "HOL-Library.AList" "HOL-Library.Char_ord" "HOL-Library.List_Lexorder"
    "HOL-Library.Multiset"
begin

text \<open>
  Shared vocabulary of the development: the theorem collections the component theories fill,
  Python's dictionaries as association lists that keep insertion order, Python's stable sorts,
  the results of operations that may raise, and the character predicates that several
  components use. A Python \<open>str\<close> is a HOL \<open>string\<close>; each character stands for the code
  point of the same number, so the text modelled is the text whose code points lie below 256.
\<close>

named_theorems py_simps \<open>unfolding rules of the Python vocabulary\<close>
named_theorems frame_simps \<open>what an operation leaves unchanged\<close>
named_theorems step_intros \<open>preservation rules of the state machines\<close>

section \<open>Dictionaries\<close>

text \<open>
  A Python dictionary keeps its insertion order; an assignment to an existing key keeps the
  position of the key, a new key goes to the end. This is exactly what \<open>AList.update\<close> does.
\<close>

type_synonym 'v pydict = "(string \<times> 'v) list"

definition dict_get :: "('k \<times> 'v) list \<Rightarrow> 'k \<Rightarrow> 'v option" where
  [py_simps]: "dict_get d k = map_of d k"

definition dict_set :: "'k \<Rightarrow> 'v \<Rightarrow> ('k \<times> 'v) list \<Rightarrow> ('k \<times> 'v) list" where
  "dict_set k v d = AList.update k v d"

definition dict_pop :: "'k \<Rightarrow> ('k \<times> 'v) list \<Rightarrow> ('k \<times> 'v) list" where
  "dict_pop k d = filter (\<lambda>kv. fst kv \<noteq> k) d"

definition dict_values :: "('k \<times> 'v) list \<Rightarrow> 'v list" where
  "dict_values d = map snd d"

definition dict_has :: "'k \<Rightarrow> ('k \<times> 'v) list \<Rightarrow> bool" where
  [py_simps]: "dict_has k d = (map_of d k \<noteq> None)"

fun dict_update :: "('k \<times> 'v) list \<Rightarrow> ('k \<times> 'v) list \<Rightarrow> ('k \<times> 'v) list" where
  "dict_update d [] = d"
| "dict_update d ((k, v) # kvs) = dict_update (dict_set k v d) kvs"

text \<open>Keys that are distinct: the representation invariant of every dictionary.\<close>

definition dict_ok :: "('k \<times> 'v) list \<Rightarrow> bool" where
  "dict_ok d \<longleftrightarrow> distinct (map fst d)"

lemma dict_get_set [simp]: "dict_get (dict_set k v d) k' = (if k' = k then Some v else dict_get d k')"
  by (simp add: dict_get_def dict_set_def update_conv')

lemma dict_get_pop [simp]: "dict_get (dict_pop k d) k' = (if k' = k then None else dict_get d k')"
  by (induction d) (auto simp: dict_get_def dict_pop_def)

lemma dict_has_iff: "dict_has k d \<longleftrightarrow> dict_get d k \<noteq> None"
  by (simp add: dict_has_def dict_get_def)

lemma dict_get_Nil [simp]: "dict_get [] k = None"
  by (simp add: dict_get_def)

lemma dict_get_Cons: "dict_get ((k, v) # d) k' = (if k = k' then Some v else dict_get d k')"
  by (simp add: dict_get_def)

lemma dict_ok_Nil [simp, intro]: "dict_ok []"
  by (simp add: dict_ok_def)

lemma dict_ok_set [simp, intro]: "dict_ok d \<Longrightarrow> dict_ok (dict_set k v d)"
  by (simp add: dict_ok_def dict_set_def distinct_update)

lemma dict_ok_pop [simp, intro]: "dict_ok d \<Longrightarrow> dict_ok (dict_pop k d)"
  by (induction d) (auto simp: dict_ok_def dict_pop_def)

lemma dict_ok_update [simp, intro]: "dict_ok d \<Longrightarrow> dict_ok (dict_update d kvs)"
  by (induction d kvs rule: dict_update.induct) auto

lemma dict_get_update:
  "dict_ok kvs \<Longrightarrow>
    dict_get (dict_update d kvs) k = (case dict_get kvs k of None \<Rightarrow> dict_get d k | Some v \<Rightarrow> Some v)"
proof (induction d kvs rule: dict_update.induct)
  case (1 d)
  then show ?case by simp
next
  case (2 d k' v kvs)
  then have "dict_ok kvs" and "dict_get kvs k' = None"
    by (auto simp: dict_ok_def dict_get_def map_of_eq_None_iff)
  with 2 show ?case by (auto simp: dict_get_Cons split: option.splits)
qed

lemma dict_values_mem:
  "dict_get d k = Some v \<Longrightarrow> v \<in> set (dict_values d)"
  by (force simp: dict_get_def dict_values_def dest: map_of_SomeD)

lemma dict_values_memD:
  "dict_ok d \<Longrightarrow> v \<in> set (dict_values d) \<Longrightarrow> \<exists>k. dict_get d k = Some v"
  by (force simp: dict_get_def dict_values_def dict_ok_def)

lemma dict_values_set_mem:
  "v' \<in> set (dict_values (dict_set k v d)) \<Longrightarrow> v' = v \<or> v' \<in> set (dict_values d)"
  by (induction d) (auto simp: dict_set_def dict_values_def split: if_splits)

lemma dict_set_absent: "dict_get d k = None \<Longrightarrow> dict_set k v d = d @ [(k, v)]"
  by (simp add: dict_get_def dict_set_def map_of_eq_None_iff update_nonempty)
    (induction d; auto)

lemma dict_get_append:
  "dict_get (d @ e) k = (case dict_get d k of None \<Rightarrow> dict_get e k | Some v \<Rightarrow> Some v)"
  by (simp add: dict_get_def map_add_def split: option.splits)

text \<open>\<open>{k: f(v) for k, v in d.items()}\<close>.\<close>

definition map_values :: "('v \<Rightarrow> 'w) \<Rightarrow> ('k \<times> 'v) list \<Rightarrow> ('k \<times> 'w) list" where
  "map_values f d = map (\<lambda>kv. (fst kv, f (snd kv))) d"

lemma map_values_cong [fundef_cong]:
  "d = e \<Longrightarrow> (\<And>kv. kv \<in> set e \<Longrightarrow> f (snd kv) = g (snd kv)) \<Longrightarrow> map_values f d = map_values g e"
  by (simp add: map_values_def)

lemma map_values_comp [simp]: "map_values f (map_values g d) = map_values (\<lambda>v. f (g v)) d"
  by (simp add: map_values_def o_def)

lemma map_values_id [simp]: "map_values (\<lambda>v. v) d = d"
  by (simp add: map_values_def)

lemma fst_map_values [simp]: "map fst (map_values f d) = map fst d"
  by (simp add: map_values_def o_def)

lemma dict_ok_map_values [simp]: "dict_ok (map_values f d) \<longleftrightarrow> dict_ok d"
  by (simp add: dict_ok_def)

lemma dict_get_map_values [simp]: "dict_get (map_values f d) k = map_option f (dict_get d k)"
  by (induction d) (auto simp: map_values_def dict_get_def)

lemma length_map_values [simp]: "length (map_values f d) = length d"
  by (simp add: map_values_def)

section \<open>Tables\<close>

text \<open>
  A dictionary used as a table: every row satisfies \<open>P\<close> under its key; and one table evolves
  into another when every row survives, related to its old content by \<open>R\<close>.
\<close>

definition dict_all :: "('k \<Rightarrow> 'v \<Rightarrow> bool) \<Rightarrow> ('k \<times> 'v) list \<Rightarrow> bool" where
  "dict_all P d \<longleftrightarrow> dict_ok d \<and> (\<forall>k v. dict_get d k = Some v \<longrightarrow> P k v)"

definition dict_evolves :: "('v \<Rightarrow> 'v \<Rightarrow> bool) \<Rightarrow> ('k \<times> 'v) list \<Rightarrow> ('k \<times> 'v) list \<Rightarrow> bool" where
  "dict_evolves R d e \<longleftrightarrow> (\<forall>k v. dict_get d k = Some v \<longrightarrow> (\<exists>w. dict_get e k = Some w \<and> R v w))"

lemma dict_all_Nil [simp]: "dict_all P []"
  by (simp add: dict_all_def)

lemma dict_all_set [intro]: "dict_all P d \<Longrightarrow> P k v \<Longrightarrow> dict_all P (dict_set k v d)"
  by (auto simp: dict_all_def)

lemma dict_allD: "dict_all P d \<Longrightarrow> dict_get d k = Some v \<Longrightarrow> P k v"
  by (auto simp: dict_all_def)

lemma dict_all_okD: "dict_all P d \<Longrightarrow> dict_ok d"
  by (simp add: dict_all_def)

lemma dict_all_mono: "dict_all P d \<Longrightarrow> (\<And>k v. P k v \<Longrightarrow> Q k v) \<Longrightarrow> dict_all Q d"
  by (auto simp: dict_all_def)

lemma dict_all_values: "dict_all P d \<Longrightarrow> v \<in> set (dict_values d) \<Longrightarrow> \<exists>k. dict_get d k = Some v \<and> P k v"
  using dict_values_memD by (fastforce simp: dict_all_def)

lemma dict_get_mem: "dict_ok d \<Longrightarrow> dict_get d k = Some v \<longleftrightarrow> (k, v) \<in> set d"
  by (simp add: dict_ok_def dict_get_def)

text \<open>Rows stored under a key they contain: the values of the table in any order.\<close>

lemma keyed_values:
  assumes "dict_all P d" and key: "\<And>k v. P k v \<Longrightarrow> key v = k"
  shows "distinct (map key (dict_values d))"
    and "v \<in> set (dict_values d) \<Longrightarrow> dict_get d (key v) = Some v"
proof -
  have row: "key (snd kv) = fst kv" "dict_get d (fst kv) = Some (snd kv)" if "kv \<in> set d" for kv
    using that assms dict_get_mem [of d "fst kv" "snd kv"] by (auto simp: dict_all_def)
  then have "map key (dict_values d) = map fst d" by (simp add: dict_values_def)
  then show "distinct (map key (dict_values d))"
    using assms by (simp add: dict_all_def dict_ok_def)
  assume "v \<in> set (dict_values d)"
  then obtain kv where "kv \<in> set d" "v = snd kv" by (auto simp: dict_values_def)
  with row show "dict_get d (key v) = Some v" by simp
qed

lemma distinct_map_sort_key: "distinct (map f xs) \<Longrightarrow> distinct (map f (sort_key g xs))"
  by (metis mset_map mset_sort mset_eq_imp_distinct_iff)

lemma dict_evolves_refl [intro]: "(\<And>v. R v v) \<Longrightarrow> dict_evolves R d d"
  by (auto simp: dict_evolves_def)

lemma dict_evolves_trans:
  "transp R \<Longrightarrow> dict_evolves R d e \<Longrightarrow> dict_evolves R e f \<Longrightarrow> dict_evolves R d f"
  unfolding dict_evolves_def by (meson transpE)

lemma dict_evolves_set:
  assumes "\<And>v. R v v" and "\<And>w. dict_get d k = Some w \<Longrightarrow> R w v"
  shows "dict_evolves R d (dict_set k v d)"
  using assms by (auto simp: dict_evolves_def)

lemma dict_evolvesD:
  "dict_evolves R d e \<Longrightarrow> dict_get d k = Some v \<Longrightarrow> \<exists>w. dict_get e k = Some w \<and> R v w"
  by (auto simp: dict_evolves_def)

section \<open>Sorting\<close>

lemma sort_key_id: "sorted (map f xs) \<Longrightarrow> sort_key f xs = xs"
proof (induction xs)
  case (Cons x xs)
  then have "sort_key f xs = xs" and "\<forall>y \<in> set xs. f x \<le> f y" by auto
  then show ?case by (simp add: insort_is_Cons)
qed simp

lemma sort_key_idem [simp]: "sort_key f (sort_key f xs) = sort_key f xs"
  by (rule sort_key_id) simp

lemma sort_key_map_commute:
  assumes "\<And>x. x \<in> set xs \<Longrightarrow> f (h x) = g x"
  shows "sort_key f (map h xs) = map h (sort_key g xs)"
proof -
  have ins: "insort_key f (h x) (map h ys) = map h (insort_key g x ys)"
    if "f (h x) = g x" "\<And>y. y \<in> set ys \<Longrightarrow> f (h y) = g y" for x ys
    using that by (induction ys) auto
  from assms show ?thesis by (induction xs) (auto intro!: ins)
qed

lemma sort_key_map_values:
  "sort_key fst (map_values f d) = map_values f (sort_key fst d)"
  unfolding map_values_def by (rule sort_key_map_commute) simp

lemma sort_key_map_of_eq:
  fixes d e :: "('k::linorder \<times> 'v) list"
  assumes "dict_ok d" and "dict_ok e" and "\<And>k. dict_get d k = dict_get e k"
  shows "sort_key fst d = sort_key fst e"
proof (rule map_sorted_distinct_set_unique [of fst])
  have "set d = set e"
    using assms by (auto simp: dict_ok_def dict_get_def) (metis map_of_eq_Some_iff)+
  then show "set (sort_key fst d) = set (sort_key fst e)" by simp
  have "inj_on fst (set d)" and "inj_on fst (set e)"
    using assms by (auto simp: dict_ok_def distinct_map)
  then show "inj_on fst (set (sort_key fst d) \<union> set (sort_key fst e))"
    using \<open>set d = set e\<close> by simp
  show "distinct (map fst (sort_key fst d))" "distinct (map fst (sort_key fst e))"
    using assms by (auto simp: dict_ok_def distinct_map)
qed auto

lemma dict_ok_sort_key [simp]: "dict_ok (sort_key f d) \<longleftrightarrow> dict_ok d"
  unfolding dict_ok_def by (metis mset_map mset_sort mset_eq_imp_distinct_iff)

lemma dict_get_sort_key [simp]: "dict_ok d \<Longrightarrow> dict_get (sort_key f d) k = dict_get d k"
proof -
  assume ok: "dict_ok d"
  then have "distinct (map fst (sort_key f d))" using dict_ok_sort_key [of f d] by (simp only: dict_ok_def)
  with ok have "map_of (sort_key f d) = map_of d"
    by (subst map_of_inject_set) (auto simp: dict_ok_def)
  then show ?thesis by (simp add: dict_get_def)
qed

text \<open>
  \<open>sorted(xs, key=f)\<close> is the stable \<open>sort_key f xs\<close>; with \<open>reverse=True\<close> Python keeps
  the original order of equal elements, so it sorts the reversed list and reverses the result.
\<close>

definition py_sorted_rev :: "('a \<Rightarrow> 'b::linorder) \<Rightarrow> 'a list \<Rightarrow> 'a list" where
  "py_sorted_rev f xs = rev (sort_key f (rev xs))"

lemma set_py_sorted_rev [simp]: "set (py_sorted_rev f xs) = set xs"
  by (simp add: py_sorted_rev_def)

text \<open>\<open>xs[offset : offset + limit]\<close> for a list.\<close>

definition py_page :: "nat \<Rightarrow> nat \<Rightarrow> 'a list \<Rightarrow> 'a list" where
  "py_page offset limit xs = take limit (drop offset xs)"

lemma length_py_page: "length (py_page offset limit xs) \<le> limit"
  by (simp add: py_page_def)

lemma set_py_page: "set (py_page offset limit xs) \<subseteq> set xs"
  unfolding py_page_def by (meson set_drop_subset set_take_subset subset_trans)

text \<open>\<open>next((x for x in xs if p(x)), None)\<close>: \<open>find p xs\<close>; the lemmas the clients use.\<close>

lemma find_SomeD: "find p xs = Some x \<Longrightarrow> x \<in> set xs \<and> p x"
  by (induction xs) (auto split: if_splits)

lemma find_NoneD: "find p xs = None \<Longrightarrow> x \<in> set xs \<Longrightarrow> \<not> p x"
  by (simp add: find_None_iff)

section \<open>Text\<close>

definition code_point :: "char \<Rightarrow> nat" where
  [py_simps]: "code_point c = of_char c"

text \<open>The control characters the validators of the code reject: below 32, and 127.\<close>

definition control_char :: "char \<Rightarrow> bool" where
  [py_simps]: "control_char c \<longleftrightarrow> code_point c < 32 \<or> code_point c = 127"

text \<open>\<open>len(s.encode("utf-8"))\<close>: one byte below 128, two bytes from 128 to 255.\<close>

definition utf8_length :: "string \<Rightarrow> nat" where
  "utf8_length s = sum_list (map (\<lambda>c. if code_point c < 128 then 1 else 2) s)"

lemma utf8_length_Nil [simp]: "utf8_length [] = 0"
  by (simp add: utf8_length_def)

lemma utf8_length_append [simp]: "utf8_length (s @ t) = utf8_length s + utf8_length t"
  by (simp add: utf8_length_def)

definition lower_hex_digit :: "char \<Rightarrow> bool" where
  "lower_hex_digit c \<longleftrightarrow>
     (48 \<le> code_point c \<and> code_point c \<le> 57) \<or> (97 \<le> code_point c \<and> code_point c \<le> 102)"

text \<open>\<open>str.isspace\<close> on the code points below 256; \<open>str.strip\<close> removes them at both ends.\<close>

definition is_space :: "char \<Rightarrow> bool" where
  "is_space c \<longleftrightarrow>
     (9 \<le> code_point c \<and> code_point c \<le> 13) \<or> (28 \<le> code_point c \<and> code_point c \<le> 32)
     \<or> code_point c = 133 \<or> code_point c = 160"

definition py_strip :: "string \<Rightarrow> string" where
  "py_strip s = rev (dropWhile is_space (rev (dropWhile is_space s)))"

text \<open>
  \<open>str.upper\<close> and \<open>str.lower\<close>: the ASCII letters, the paired Latin-1 letters and the sharp s; the micro
  sign and the y with diaeresis, whose capitals lie above 255, keep their place.
\<close>

definition upper_char :: "char \<Rightarrow> char" where
  "upper_char c =
    (let n = code_point c in
     if (97 \<le> n \<and> n \<le> 122) \<or> (224 \<le> n \<and> n \<le> 254 \<and> n \<noteq> 247) then char_of (n - 32) else c)"

definition lower_char :: "char \<Rightarrow> char" where
  "lower_char c = (let n = code_point c in
     if (65 \<le> n \<and> n \<le> 90) \<or> (192 \<le> n \<and> n \<le> 222 \<and> n \<noteq> 215) then char_of (n + 32) else c)"

definition py_lower :: "string \<Rightarrow> string" where
  "py_lower s = map lower_char s"

definition py_upper :: "string \<Rightarrow> string" where
  "py_upper s = concat (map (\<lambda>c. if code_point c = 223 then ''SS'' else [upper_char c]) s)"

text \<open>
  \<open>str.casefold\<close> on the code points below 256, except that the micro sign keeps its place: its
  folding, a Greek letter, is the folding of no other of these characters.
\<close>

definition casefold_char :: "char \<Rightarrow> string" where
  "casefold_char c =
    (let n = code_point c in
     if (65 \<le> n \<and> n \<le> 90) \<or> (192 \<le> n \<and> n \<le> 222 \<and> n \<noteq> 215) then [char_of (n + 32)]
     else if n = 223 then ''ss'' else [c])"

definition py_casefold :: "string \<Rightarrow> string" where
  "py_casefold s = concat (map casefold_char s)"

text \<open>\<open>str.split(separator)\<close> for one character.\<close>

fun split_on :: "char \<Rightarrow> string \<Rightarrow> string list" where
  "split_on sep [] = [[]]"
| "split_on sep (c # cs) =
    (if c = sep then [] # split_on sep cs
     else (case split_on sep cs of [] \<Rightarrow> [[c]] | s # ss \<Rightarrow> (c # s) # ss))"

definition starts_with :: "string \<Rightarrow> string \<Rightarrow> bool" where
  "starts_with p s \<longleftrightarrow> take (length p) s = p"

definition ends_with :: "string \<Rightarrow> string \<Rightarrow> bool" where
  "ends_with p s \<longleftrightarrow> starts_with (rev p) (rev s)"

text \<open>\<open>sep in s\<close> for strings.\<close>

fun is_infix :: "string \<Rightarrow> string \<Rightarrow> bool" where
  "is_infix p [] \<longleftrightarrow> p = []"
| "is_infix p (c # s) \<longleftrightarrow> starts_with p (c # s) \<or> is_infix p s"

text \<open>\<open>s.replace(c, t)\<close> for a single character \<open>c\<close>.\<close>

definition replace_char :: "char \<Rightarrow> string \<Rightarrow> string \<Rightarrow> string" where
  "replace_char c t s = concat (map (\<lambda>x. if x = c then t else [x]) s)"

section \<open>Results\<close>

text \<open>
  An operation that may raise returns \<open>error + 'a\<close>, \<open>Inl\<close> for the exception. A method of an
  object returns, with its result, the state it leaves: a Python exception does not undo the
  assignments made before it.
\<close>

datatype py_error =
    ValueError string
  | TypeError string
  | KeyError string
  | RuntimeError string
  | TimeoutError string
  | AttributeError string
  | AssertionError

definition is_ok :: "'e + 'a \<Rightarrow> bool" where
  [simp]: "is_ok r \<longleftrightarrow> (\<exists>x. r = Inr x)"

definition ebind :: "'e + 'a \<Rightarrow> ('a \<Rightarrow> 'e + 'b) \<Rightarrow> 'e + 'b" where
  "ebind r f = (case r of Inl e \<Rightarrow> Inl e | Inr x \<Rightarrow> f x)"

lemma ebind_simps [simp]: "ebind (Inl e) f = Inl e" "ebind (Inr x) f = f x"
  by (simp_all add: ebind_def)

lemma ebind_Inr_iff: "ebind r f = Inr y \<longleftrightarrow> (\<exists>x. r = Inr x \<and> f x = Inr y)"
  by (cases r) auto

lemma is_ok_simps: "is_ok (Inr x)" "\<not> is_ok (Inl e)"
  by auto

lemma not_islD: "\<not> isl r \<Longrightarrow> \<exists>x. r = Inr x"
  by (cases r) auto

section \<open>Transition systems\<close>

text \<open>
  What an inductive invariant and a monotone relation give over all runs of a component. The
  components interpret these contracts on their own step relation.
\<close>

locale transition_system =
  fixes initial :: "'s \<Rightarrow> bool"
    and step :: "'s \<Rightarrow> 's \<Rightarrow> bool"
begin

definition reachable :: "'s \<Rightarrow> bool" where
  "reachable s \<longleftrightarrow> (\<exists>i. initial i \<and> step\<^sup>*\<^sup>* i s)"

lemma reachable_initial: "initial s \<Longrightarrow> reachable s"
  by (auto simp: reachable_def)

lemma reachable_step: "reachable s \<Longrightarrow> step s t \<Longrightarrow> reachable t"
  unfolding reachable_def by (meson rtranclp.rtrancl_into_rtrancl)

lemma reachable_steps: "reachable s \<Longrightarrow> step\<^sup>*\<^sup>* s t \<Longrightarrow> reachable t"
  unfolding reachable_def by (meson rtranclp_trans)

end

locale inductive_invariant = transition_system initial step
  for initial :: "'s \<Rightarrow> bool" and step :: "'s \<Rightarrow> 's \<Rightarrow> bool" +
  fixes inv :: "'s \<Rightarrow> bool"
  assumes inv_initial: "initial s \<Longrightarrow> inv s"
    and inv_step: "inv s \<Longrightarrow> step s t \<Longrightarrow> inv t"
begin

lemma inv_steps: "step\<^sup>*\<^sup>* s t \<Longrightarrow> inv s \<Longrightarrow> inv t"
  by (induction rule: rtranclp_induct) (auto intro: inv_step)

lemma inv_reachable: "reachable s \<Longrightarrow> inv s"
  unfolding reachable_def using inv_initial inv_steps by blast

end

locale monotone_history = inductive_invariant initial step inv
  for initial :: "'s \<Rightarrow> bool" and step :: "'s \<Rightarrow> 's \<Rightarrow> bool" and inv :: "'s \<Rightarrow> bool" +
  fixes keeps :: "'s \<Rightarrow> 's \<Rightarrow> bool"
  assumes keeps_refl: "keeps s s"
    and keeps_trans: "keeps s t \<Longrightarrow> keeps t u \<Longrightarrow> keeps s u"
    and keeps_step: "inv s \<Longrightarrow> step s t \<Longrightarrow> keeps s t"
begin

lemma keeps_steps: "step\<^sup>*\<^sup>* s t \<Longrightarrow> inv s \<Longrightarrow> keeps s t"
proof (induction rule: rtranclp_induct)
  case base
  show ?case by (rule keeps_refl)
next
  case (step t u)
  then have "inv t" by (blast intro: inv_steps)
  with step show ?case by (blast intro: keeps_trans keeps_step)
qed

lemma keeps_reachable: "reachable s \<Longrightarrow> step\<^sup>*\<^sup>* s t \<Longrightarrow> keeps s t"
  by (blast intro: keeps_steps inv_reachable)

end

text \<open>
  A detailed step that is a run of abstract steps inherits their invariant and their history.
\<close>

locale refined_history = monotone_history initial step inv keeps
  for initial :: "'s \<Rightarrow> bool" and step :: "'s \<Rightarrow> 's \<Rightarrow> bool" and inv :: "'s \<Rightarrow> bool"
    and keeps :: "'s \<Rightarrow> 's \<Rightarrow> bool" +
  fixes detailed :: "'s \<Rightarrow> 's \<Rightarrow> bool"
  assumes refines: "inv s \<Longrightarrow> detailed s t \<Longrightarrow> step\<^sup>*\<^sup>* s t"

sublocale refined_history \<subseteq> detail: monotone_history initial detailed inv keeps
  by unfold_locales (auto intro: inv_initial keeps_refl keeps_trans keeps_steps inv_steps dest: refines)

end
