(* ===== verification/Json.thy ===== *)
theory Json
  imports Prelude
begin

text \<open>
  The JSON values every component exchanges, Python's equality on them, the two bounded
  validators (the recursive one of \<^verbatim>\<open>app/models/base.py\<close> and the iterative one of
  \<^verbatim>\<open>cloud_service/models.py\<close>), the canonical serialisation and the identifier check of
  \<^verbatim>\<open>app/storage/serialization.py\<close>.
  A float is a rational or one of the three special values (the two signed zeros are one
  value). An object is an association list in insertion order.
\<close>

section \<open>Values\<close>

datatype pyfloat = Finite rat | PosInf | NegInf | NotANumber

datatype json =
    JNull
  | JBool bool
  | JInt int
  | JFloat pyfloat
  | JStr string
  | JArr "json list"
  | JObj "(string \<times> json) list"

type_synonym jobj = "(string \<times> json) list"

text \<open>\<open>d.get(k)\<close>: \<open>None\<close> for a missing key, as for a key that is null.\<close>

definition jget :: "string \<Rightarrow> jobj \<Rightarrow> json" where
  "jget k d = (case dict_get d k of None \<Rightarrow> JNull | Some v \<Rightarrow> v)"

text \<open>\<open>d.get(k, default)\<close>: the default stands for a missing key only.\<close>

definition jget_default :: "json \<Rightarrow> string \<Rightarrow> jobj \<Rightarrow> json" where
  "jget_default dflt k d = (case dict_get d k of None \<Rightarrow> dflt | Some v \<Rightarrow> v)"

definition is_jobj :: "json \<Rightarrow> bool" where
  "is_jobj v = (case v of JObj _ \<Rightarrow> True | _ \<Rightarrow> False)"

fun as_jobj :: "json \<Rightarrow> jobj option" where
  "as_jobj (JObj d) = Some d"
| "as_jobj _ = None"

fun as_jstr :: "json \<Rightarrow> string option" where
  "as_jstr (JStr s) = Some s"
| "as_jstr _ = None"

fun as_jarr :: "json \<Rightarrow> json list option" where
  "as_jarr (JArr xs) = Some xs"
| "as_jarr _ = None"

text \<open>Truth of a value in a Boolean context.\<close>

fun truthy :: "json \<Rightarrow> bool" where
  "truthy JNull = False"
| "truthy (JBool b) = b"
| "truthy (JInt i) = (i \<noteq> 0)"
| "truthy (JFloat x) = (x \<noteq> Finite 0)"
| "truthy (JStr s) = (s \<noteq> [])"
| "truthy (JArr xs) = (xs \<noteq> [])"
| "truthy (JObj d) = (d \<noteq> [])"

text \<open>\<open>type(v).__name__\<close>.\<close>

fun json_type :: "json \<Rightarrow> string" where
  "json_type JNull = ''NoneType''"
| "json_type (JBool _) = ''bool''"
| "json_type (JInt _) = ''int''"
| "json_type (JFloat _) = ''float''"
| "json_type (JStr _) = ''str''"
| "json_type (JArr _) = ''list''"
| "json_type (JObj _) = ''dict''"

lemma as_jobj_Some [simp]: "as_jobj v = Some d \<longleftrightarrow> v = JObj d"
  by (cases v) auto

lemma as_jstr_Some [simp]: "as_jstr v = Some s \<longleftrightarrow> v = JStr s"
  by (cases v) auto

lemma as_jarr_Some [simp]: "as_jarr v = Some xs \<longleftrightarrow> v = JArr xs"
  by (cases v) auto

section \<open>Equality\<close>

text \<open>
  Python's \<open>==\<close>: Booleans, integers and floats compare by numeric value (so \<open>1 == True\<close>
  and \<open>1 == 1.0\<close>), lists elementwise, dictionaries by key without regard to order.
\<close>

fun numeric :: "json \<Rightarrow> pyfloat option" where
  "numeric (JBool b) = Some (Finite (if b then 1 else 0))"
| "numeric (JInt i) = Some (Finite (of_int i))"
| "numeric (JFloat x) = Some x"
| "numeric _ = None"

fun float_eq :: "pyfloat \<Rightarrow> pyfloat \<Rightarrow> bool" where
  "float_eq NotANumber _ = False"
| "float_eq _ NotANumber = False"
| "float_eq x y = (x = y)"

fun py_eq :: "json \<Rightarrow> json \<Rightarrow> bool"
  and py_eq_list :: "json list \<Rightarrow> json list \<Rightarrow> bool"
  and py_eq_dict :: "jobj \<Rightarrow> jobj \<Rightarrow> bool" where
  "py_eq JNull w = (w = JNull)"
| "py_eq (JBool b) w =
     (case numeric w of None \<Rightarrow> False | Some y \<Rightarrow> float_eq (Finite (if b then 1 else 0)) y)"
| "py_eq (JInt i) w = (case numeric w of None \<Rightarrow> False | Some y \<Rightarrow> float_eq (Finite (of_int i)) y)"
| "py_eq (JFloat x) w = (case numeric w of None \<Rightarrow> False | Some y \<Rightarrow> float_eq x y)"
| "py_eq (JStr s) w = (w = JStr s)"
| "py_eq (JArr xs) w = (case w of JArr ys \<Rightarrow> py_eq_list xs ys | _ \<Rightarrow> False)"
| "py_eq (JObj d) w =
     (case w of JObj e \<Rightarrow> length d = length e \<and> py_eq_dict d e | _ \<Rightarrow> False)"
| "py_eq_list [] ys = (ys = [])"
| "py_eq_list (x # xs) ys =
     (case ys of [] \<Rightarrow> False | y # ys' \<Rightarrow> py_eq x y \<and> py_eq_list xs ys')"
| "py_eq_dict [] e = True"
| "py_eq_dict (kv # d) e =
     (case kv of (k, v) \<Rightarrow>
       (case dict_get e k of None \<Rightarrow> False | Some u \<Rightarrow> py_eq v u) \<and> py_eq_dict d e)"

lemma py_eq_JStr [simp]: "py_eq v (JStr s) \<longleftrightarrow> v = JStr s"
  by (cases v) auto

lemma py_eq_JNull [simp]: "py_eq v JNull \<longleftrightarrow> v = JNull"
  by (cases v) auto

lemma py_eq_dict_iff:
  "py_eq_dict d e \<longleftrightarrow>
    (\<forall>(k, v) \<in> set d. \<exists>u. dict_get e k = Some u \<and> py_eq v u)"
  by (induction d) (auto split: option.splits)

lemma py_eq_list_iff: "py_eq_list xs ys \<longleftrightarrow> list_all2 py_eq xs ys"
  by (induction xs arbitrary: ys) (auto split: list.splits simp: list_all2_Cons1)

lemma json_induct [case_names JNull JBool JInt JFloat JStr JArr JObj]:
  assumes "P JNull" and "\<And>b. P (JBool b)" and "\<And>i. P (JInt i)" and "\<And>x. P (JFloat x)"
    and "\<And>s. P (JStr s)"
    and "\<And>xs. (\<And>x. x \<in> set xs \<Longrightarrow> P x) \<Longrightarrow> P (JArr xs)"
    and "\<And>d. (\<And>k v. (k, v) \<in> set d \<Longrightarrow> P v) \<Longrightarrow> P (JObj d)"
  shows "P v"
proof (induction v)
  case (JObj d)
  have "P v" if "(k, v) \<in> set d" for k v
    using JObj [OF that, of v] by simp
  then show ?case by (rule assms(7))
qed (use assms in auto)

section \<open>Measures of a value\<close>

fun json_nodes :: "json \<Rightarrow> nat" where
  "json_nodes (JArr xs) = Suc (sum_list (map json_nodes xs))"
| "json_nodes (JObj d) = Suc (sum_list (map (\<lambda>kv. json_nodes (snd kv)) d))"
| "json_nodes _ = 1"

text \<open>\<open>json_all P n v\<close>: every node of \<open>v\<close> satisfies \<open>P\<close> of its depth, counted from \<open>n\<close>.\<close>

fun json_all :: "(nat \<Rightarrow> json \<Rightarrow> bool) \<Rightarrow> nat \<Rightarrow> json \<Rightarrow> bool" where
  "json_all P n (JArr xs) = (P n (JArr xs) \<and> (\<forall>x \<in> set xs. json_all P (Suc n) x))"
| "json_all P n (JObj d) = (P n (JObj d) \<and> (\<forall>kv \<in> set d. json_all P (Suc n) (snd kv)))"
| "json_all P n v = P n v"

text \<open>What an in-memory dictionary always satisfies: distinct keys at every level.\<close>

fun json_wf :: "json \<Rightarrow> bool" where
  "json_wf (JArr xs) = (\<forall>x \<in> set xs. json_wf x)"
| "json_wf (JObj d) = (dict_ok d \<and> (\<forall>kv \<in> set d. json_wf (snd kv)))"
| "json_wf _ = True"

text \<open>No NaN and no infinity: what \<open>json.dumps(..., allow_nan=False)\<close> accepts.\<close>

fun json_finite :: "json \<Rightarrow> bool" where
  "json_finite (JFloat x) = (case x of Finite _ \<Rightarrow> True | _ \<Rightarrow> False)"
| "json_finite (JArr xs) = (\<forall>x \<in> set xs. json_finite x)"
| "json_finite (JObj d) = (\<forall>kv \<in> set d. json_finite (snd kv))"
| "json_finite _ = True"

lemma json_nodes_pos [simp]: "0 < json_nodes v"
  by (cases v) auto

lemma json_wf_get: "json_wf (JObj d) \<Longrightarrow> dict_get d k = Some v \<Longrightarrow> json_wf v"
  by (force simp: dict_get_def dest: map_of_SomeD)

lemma py_eq_refl [simp]: "json_wf v \<Longrightarrow> json_finite v \<Longrightarrow> py_eq v v"
proof (induction v rule: json_induct)
  case (JArr xs)
  then show ?case by (auto simp: py_eq_list_iff list_all2_same)
next
  case (JObj d)
  then show ?case by (fastforce simp: py_eq_dict_iff dict_get_def dict_ok_def)
next
  case (JFloat x)
  then show ?case by (cases x) auto
qed auto

section \<open>Bounded validation, recursive (models/base.py)\<close>

text \<open>
  \<open>walk\<close> counts the nodes in a variable of the enclosing call, here passed and returned.
  The set \<open>active\<close> of object identities detects a value that contains itself; a HOL value
  is finite, so that branch has no counterpart.
\<close>

definition key_ok :: "string \<Rightarrow> bool" where
  "key_ok k \<longleftrightarrow> k \<noteq> [] \<and> length k \<le> 256"

function (sequential) bj_walk :: "nat \<Rightarrow> nat \<Rightarrow> json \<Rightarrow> nat \<Rightarrow> nat \<Rightarrow> py_error + (json \<times> nat)"
  and bj_list :: "nat \<Rightarrow> nat \<Rightarrow> json list \<Rightarrow> nat \<Rightarrow> nat \<Rightarrow> py_error + (json list \<times> nat)"
  and bj_dict :: "nat \<Rightarrow> nat \<Rightarrow> jobj \<Rightarrow> nat \<Rightarrow> jobj \<Rightarrow> nat \<Rightarrow> py_error + (jobj \<times> nat)" where
  "bj_walk md mn item depth nodes =
    (let nodes = Suc nodes in
     if mn < nodes then Inl (ValueError ''structured value exceeds node limit'')
     else if md < depth then Inl (ValueError ''structured value exceeds depth limit'')
     else case item of
       JFloat x \<Rightarrow> (case x of Finite _ \<Rightarrow> Inr (item, nodes)
                    | _ \<Rightarrow> Inl (ValueError ''non-finite numbers are not valid''))
     | JArr xs \<Rightarrow>
         (case bj_list md mn xs (Suc depth) nodes of
            Inl e \<Rightarrow> Inl e | Inr (ys, n) \<Rightarrow> Inr (JArr ys, n))
     | JObj d \<Rightarrow>
         (case bj_dict md mn d (Suc depth) [] nodes of
            Inl e \<Rightarrow> Inl e | Inr (e, n) \<Rightarrow> Inr (JObj e, n))
     | _ \<Rightarrow> Inr (item, nodes))"
| "bj_list md mn [] depth nodes = Inr ([], nodes)"
| "bj_list md mn (x # xs) depth nodes =
    (case bj_walk md mn x depth nodes of
       Inl e \<Rightarrow> Inl e
     | Inr (y, n) \<Rightarrow>
         (case bj_list md mn xs depth n of
            Inl e \<Rightarrow> Inl e | Inr (ys, n') \<Rightarrow> Inr (y # ys, n')))"
| "bj_dict md mn [] depth acc nodes = Inr (acc, nodes)"
| "bj_dict md mn (kv # d) depth acc nodes =
    (case kv of (k, v) \<Rightarrow>
       if \<not> key_ok k
       then Inl (ValueError ''structured object keys must be non-empty strings'')
       else (case bj_walk md mn v depth nodes of
               Inl e \<Rightarrow> Inl e
             | Inr (w, n) \<Rightarrow> bj_dict md mn d depth (dict_set k w acc) n))"
  by pat_completeness auto
termination
  by (relation "measure (\<lambda>x. case x of
        Inl (_, _, v, _, _) \<Rightarrow> size v
      | Inr (Inl (_, _, xs, _, _)) \<Rightarrow> size_list size xs
      | Inr (Inr (_, _, d, _, _, _)) \<Rightarrow> size_list (size_prod (\<lambda>_. 0) size) d)") auto

definition bounded_json :: "nat \<Rightarrow> nat \<Rightarrow> json \<Rightarrow> py_error + json" where
  "bounded_json max_depth max_nodes value =
     (case bj_walk max_depth max_nodes value 0 0 of Inl e \<Rightarrow> Inl e | Inr (v, _) \<Rightarrow> Inr v)"

text \<open>What the validator promises, read off the value.\<close>

definition node_ok :: "nat \<Rightarrow> nat \<Rightarrow> json \<Rightarrow> bool" where
  "node_ok md depth v \<longleftrightarrow> depth \<le> md \<and>
     (case v of JFloat x \<Rightarrow> (\<exists>q. x = Finite q)
      | JObj d \<Rightarrow> (\<forall>kv \<in> set d. key_ok (fst kv)) | _ \<Rightarrow> True)"

lemma node_ok_simps [simp]:
  "node_ok md n (JArr xs) \<longleftrightarrow> n \<le> md"
  "node_ok md n (JObj d) \<longleftrightarrow> n \<le> md \<and> (\<forall>kv \<in> set d. key_ok (fst kv))"
  "node_ok md n (JFloat x) \<longleftrightarrow> n \<le> md \<and> (\<exists>q. x = Finite q)"
  "node_ok md n JNull \<longleftrightarrow> n \<le> md" "node_ok md n (JBool b) \<longleftrightarrow> n \<le> md"
  "node_ok md n (JInt i) \<longleftrightarrow> n \<le> md" "node_ok md n (JStr s) \<longleftrightarrow> n \<le> md"
  by (auto simp: node_ok_def)


lemma bj_Inr_iff:
  "bj_walk md mn (JArr xs) dep nodes = Inr (w, n) \<longleftrightarrow> Suc nodes \<le> mn \<and> dep \<le> md \<and>
     (\<exists>ys. bj_list md mn xs (Suc dep) (Suc nodes) = Inr (ys, n) \<and> w = JArr ys)"
  "bj_walk md mn (JObj d) dep nodes = Inr (w, n) \<longleftrightarrow> Suc nodes \<le> mn \<and> dep \<le> md \<and>
     (\<exists>e. bj_dict md mn d (Suc dep) [] (Suc nodes) = Inr (e, n) \<and> w = JObj e)"
  "bj_list md mn (x # xs) dep nodes = Inr (ys, n) \<longleftrightarrow>
     (\<exists>y m zs. bj_walk md mn x dep nodes = Inr (y, m) \<and> bj_list md mn xs dep m = Inr (zs, n) \<and> ys = y # zs)"
  "bj_dict md mn ((k, v) # d) dep acc nodes = Inr (e, n) \<longleftrightarrow> key_ok k \<and>
     (\<exists>u m. bj_walk md mn v dep nodes = Inr (u, m) \<and>
       bj_dict md mn d dep (dict_set k u acc) m = Inr (e, n))"
  by (simp_all add: bj_walk.simps [of md mn "JArr xs"] bj_walk.simps [of md mn "JObj d"] Suc_le_eq
        not_less less_Suc_eq_le split: sum.split prod.split) auto

declare bj_walk.simps [simp del] bj_list.simps(2) [simp del] bj_dict.simps(2) [simp del]

definition bj_exact :: "nat \<Rightarrow> nat \<Rightarrow> json \<Rightarrow> bool" where
  "bj_exact md mn v \<longleftrightarrow> (\<forall>dep nodes w n. bj_walk md mn v dep nodes = Inr (w, n) \<longleftrightarrow>
     w = v \<and> n = nodes + json_nodes v \<and> n \<le> mn \<and> json_all (node_ok md) dep v)"

lemma bj_list_eq:
  assumes "\<And>x. x \<in> set xs \<Longrightarrow> bj_exact md mn x" and "nodes \<le> mn"
  shows "bj_list md mn xs dep nodes = Inr (ys, n) \<longleftrightarrow>
    ys = xs \<and> n = nodes + sum_list (map json_nodes xs) \<and> n \<le> mn \<and>
    (\<forall>x \<in> set xs. json_all (node_ok md) dep x)"
  using assms
proof (induction xs arbitrary: nodes ys n)
  case Nil
  then show ?case by auto
next
  case (Cons x xs)
  then have x: "bj_walk md mn x dep nodes = Inr (y, m) \<longleftrightarrow>
      y = x \<and> m = nodes + json_nodes x \<and> m \<le> mn \<and> json_all (node_ok md) dep x" for y m
    by (simp add: bj_exact_def)
  show ?case
  proof (cases "nodes + json_nodes x \<le> mn")
    case True
    show ?thesis
      unfolding bj_Inr_iff x using Cons.IH [OF Cons.prems(1) True] by auto
  qed (auto simp: bj_Inr_iff x)
qed

lemma bj_dict_eq:
  assumes "\<And>k v. (k, v) \<in> set d \<Longrightarrow> bj_exact md mn v" and "dict_ok (acc @ d)" and "nodes \<le> mn"
  shows "bj_dict md mn d dep acc nodes = Inr (e, n) \<longleftrightarrow>
    e = acc @ d \<and> n = nodes + sum_list (map (\<lambda>kv. json_nodes (snd kv)) d) \<and> n \<le> mn \<and>
    (\<forall>kv \<in> set d. key_ok (fst kv) \<and> json_all (node_ok md) dep (snd kv))"
  using assms
proof (induction d arbitrary: acc nodes e n)
  case Nil
  then show ?case by auto
next
  case (Cons kv d)
  obtain k v where kv: "kv = (k, v)" by (cases kv)
  from Cons.prems(1) [of k v] kv have v: "bj_walk md mn v dep nodes = Inr (y, m) \<longleftrightarrow>
      y = v \<and> m = nodes + json_nodes v \<and> m \<le> mn \<and> json_all (node_ok md) dep v" for y m
    by (simp add: bj_exact_def)
  have acc: "dict_set k v acc = acc @ [(k, v)]"
    using Cons.prems kv
    by (intro dict_set_absent) (auto simp: dict_get_def dict_ok_def map_of_eq_None_iff)
  show ?case
  proof (cases "nodes + json_nodes v \<le> mn")
    case True
    have "dict_ok ((acc @ [(k, v)]) @ d)"
      using Cons.prems kv by (auto simp: dict_ok_def)
    moreover have "\<And>k v. (k, v) \<in> set d \<Longrightarrow> bj_exact md mn v"
      using Cons.prems(1) by (metis list.set_intros(2))
    ultimately show ?thesis
      unfolding kv bj_Inr_iff v using Cons.IH [of "acc @ [(k, v)]" "nodes + json_nodes v"] True
      by (auto simp: acc)
  qed (auto simp: bj_Inr_iff v kv)
qed

lemma bj_walk_exact: "json_wf v \<Longrightarrow> bj_exact md mn v"
proof (induction v rule: json_induct)
  case (JArr xs)
  then show ?case
    by (auto simp: bj_exact_def [of _ _ "JArr xs"] bj_Inr_iff bj_list_eq)
next
  case (JObj d)
  then have "\<And>k v. (k, v) \<in> set d \<Longrightarrow> bj_exact md mn v" by auto
  with JObj.prems show ?case
    by (auto simp: bj_exact_def [of _ _ "JObj d"] bj_Inr_iff bj_dict_eq; fastforce)
next
  case (JFloat x)
  then show ?case by (cases x) (auto simp: bj_exact_def bj_walk.simps)
qed (auto simp: bj_exact_def bj_walk.simps)

lemma bounded_json_iff:
  assumes "json_wf v"
  shows "bounded_json md mn v = Inr w \<longleftrightarrow>
    w = v \<and> json_nodes v \<le> mn \<and> json_all (node_ok md) 0 v"
proof -
  have "bounded_json md mn v = Inr w \<longleftrightarrow> (\<exists>n. bj_walk md mn v 0 0 = Inr (w, n))"
    by (auto simp: bounded_json_def split: sum.splits)
  then show ?thesis by (auto simp: bj_walk_exact [OF assms, of md mn, unfolded bj_exact_def])
qed

section \<open>Bounded validation, iterative (cloud\_service/models.py)\<close>

text \<open>
  The loop keeps a Python list as its stack and pops its last element; here the head of the
  list is the top, so extending the stack puts the reversed children in front. The value
  itself is returned, not a copy. The empty key is accepted here.
\<close>

definition max_json_string :: nat where
  "max_json_string = 1000000"

definition limits_exceeded :: py_error where
  "limits_exceeded = ValueError ''JSON value exceeds structural limits''"

function (sequential) cbj_loop ::
    "nat \<Rightarrow> nat \<Rightarrow> (json \<times> nat) list \<Rightarrow> nat \<Rightarrow> py_error + unit" where
  "cbj_loop md mn [] nodes = Inr ()"
| "cbj_loop md mn ((item, depth) # stack) nodes =
    (if mn < Suc nodes \<or> md < depth then Inl limits_exceeded
     else case item of
       JStr s \<Rightarrow>
         if max_json_string < length s then Inl (ValueError ''JSON string exceeds size limit'')
         else cbj_loop md mn stack (Suc nodes)
     | JFloat x \<Rightarrow>
         (case x of Finite _ \<Rightarrow> cbj_loop md mn stack (Suc nodes)
          | _ \<Rightarrow> Inl (ValueError ''JSON numbers must be finite''))
     | JArr xs \<Rightarrow> cbj_loop md mn (rev (map (\<lambda>x. (x, Suc depth)) xs) @ stack) (Suc nodes)
     | JObj d \<Rightarrow>
         if \<exists>kv \<in> set d. 256 < length (fst kv)
         then Inl (ValueError ''JSON object contains an invalid key'')
         else cbj_loop md mn (rev (map (\<lambda>kv. (snd kv, Suc depth)) d) @ stack) (Suc nodes)
     | _ \<Rightarrow> cbj_loop md mn stack (Suc nodes))"
  by pat_completeness auto
termination
  by (relation "measure (\<lambda>(_, _, stack, _). sum_list (map (json_nodes \<circ> fst) stack))")
    (auto simp: o_def rev_map [symmetric])

declare cbj_loop.simps(2) [simp del]

definition cloud_bounded_json :: "nat \<Rightarrow> nat \<Rightarrow> json \<Rightarrow> py_error + json" where
  "cloud_bounded_json max_depth max_nodes value =
     (case cbj_loop max_depth max_nodes [(value, 0)] 0 of Inl e \<Rightarrow> Inl e | Inr _ \<Rightarrow> Inr value)"

fun cloud_node_ok :: "nat \<Rightarrow> nat \<Rightarrow> json \<Rightarrow> bool" where
  "cloud_node_ok md n (JStr s) = (n \<le> md \<and> length s \<le> max_json_string)"
| "cloud_node_ok md n (JFloat x) = (n \<le> md \<and> (\<exists>q. x = Finite q))"
| "cloud_node_ok md n (JObj d) = (n \<le> md \<and> (\<forall>kv \<in> set d. length (fst kv) \<le> 256))"
| "cloud_node_ok md n _ = (n \<le> md)"

lemma cbj_loop_iff:
  "nodes \<le> mn \<Longrightarrow> cbj_loop md mn stack nodes = Inr () \<longleftrightarrow>
     nodes + sum_list (map (json_nodes \<circ> fst) stack) \<le> mn \<and>
     (\<forall>(v, n) \<in> set stack. json_all (cloud_node_ok md) n v)"
proof (induction md mn stack nodes rule: cbj_loop.induct)
  case (1 md mn nodes)
  then show ?case by simp
next
  case (2 md mn item depth stack nodes)
  note unfold = cbj_loop.simps(2)
  have pos: "0 < json_nodes item" by simp
  show ?case
  proof (cases "mn < Suc nodes \<or> md < depth")
    case True
    then have "cbj_loop md mn ((item, depth) # stack) nodes \<noteq> Inr ()" by (simp add: unfold)
    moreover from True pos
    have "mn < nodes + json_nodes item \<or> \<not> json_all (cloud_node_ok md) depth item"
      by (cases item) auto
    ultimately show ?thesis by auto
  next
    case False
    show ?thesis
    proof (cases item)
      case (JArr xs)
      with False 2 show ?thesis
        by (simp add: unfold o_def rev_map [symmetric] ball_Un)
    next
      case (JObj d)
      with False 2 show ?thesis
        by (simp add: unfold o_def rev_map [symmetric] ball_Un not_less) (auto; fastforce)
    next
      case (JFloat x)
      with False 2 show ?thesis by (cases x) (auto simp: unfold)
    qed (use False 2 in \<open>auto simp: unfold\<close>)
  qed
qed

lemma cloud_bounded_json_iff:
  "cloud_bounded_json md mn v = Inr w \<longleftrightarrow>
     w = v \<and> json_nodes v \<le> mn \<and> json_all (cloud_node_ok md) 0 v"
  using cbj_loop_iff [of 0 mn md "[(v, 0)]"]
  by (auto simp: cloud_bounded_json_def split: sum.splits)

end
