(* ===== verification/Serialization.thy ===== *)
theory Serialization
  imports Json
begin

text \<open>
  The helpers of \<^verbatim>\<open>app/storage/serialization.py\<close>: the canonical JSON text, the identifier
  check, and the run-time services the model takes as parameters: SHA-256 of a text, the
  shortest decimal form of a float, the ISO-8601 parser and printer of the standard library.
\<close>

section \<open>Run-time parameters\<close>

text \<open>
  \<open>rt_sha256 s\<close> is \<open>hashlib.sha256(s.encode("utf-8")).hexdigest()\<close>; \<open>rt_float_repr\<close> is
  \<open>float.__repr__\<close> of a finite float; \<open>rt_fromisoformat\<close> is \<open>datetime.fromisoformat\<close>:
  \<open>None\<close> for a \<open>ValueError\<close>, \<open>Some None\<close> for a naive time, \<open>Some (Some t)\<close> for an aware
  one, \<open>t\<close> being microseconds since the epoch; \<open>rt_isoformat\<close> is \<open>datetime.isoformat\<close> of a UTC
  time. All theorems hold for every choice of the four unless they say otherwise.
\<close>

record runtime =
  rt_sha256 :: "string \<Rightarrow> string"
  rt_float_repr :: "rat \<Rightarrow> string"
  rt_fromisoformat :: "string \<Rightarrow> int option option"
  rt_isoformat :: "int \<Rightarrow> string"

text \<open>\<open>timedelta(seconds=n)\<close> in microseconds.\<close>

definition seconds :: "int \<Rightarrow> int" where
  [simp]: "seconds n = n * 1000000"

section \<open>Decimal text\<close>

fun show_nat :: "nat \<Rightarrow> string" where
  "show_nat n = (if n < 10 then [char_of (48 + n)] else show_nat (n div 10) @ [char_of (48 + n mod 10)])"

declare show_nat.simps [simp del]

definition show_int :: "int \<Rightarrow> string" where
  "show_int i = (if i < 0 then CHR ''-'' # show_nat (nat (- i)) else show_nat (nat i))"

section \<open>Canonical JSON\<close>

definition hex_digit :: "nat \<Rightarrow> char" where
  "hex_digit n = (if n < 10 then char_of (48 + n) else char_of (87 + n))"

text \<open>The escapes of the encoder with \<open>ensure_ascii=False\<close>.\<close>

definition json_escape_char :: "char \<Rightarrow> string" where
  "json_escape_char c =
    (let n = code_point c in
     if n = 34 then [CHR 0x5C, CHR 0x22]
     else if n = 92 then [CHR 0x5C, CHR 0x5C]
     else if n = 10 then [CHR 0x5C, CHR ''n'']
     else if n = 13 then [CHR 0x5C, CHR ''r'']
     else if n = 9 then [CHR 0x5C, CHR ''t'']
     else if n = 12 then [CHR 0x5C, CHR ''f'']
     else if n = 8 then [CHR 0x5C, CHR ''b'']
     else if n < 32 then [CHR 0x5C, CHR ''u'', CHR ''0'', CHR ''0'', hex_digit (n div 16), hex_digit (n mod 16)]
     else [c])"

definition json_quote :: "string \<Rightarrow> string" where
  "json_quote s = CHR 0x22 # concat (map json_escape_char s) @ [CHR 0x22]"

fun join_with :: "string \<Rightarrow> string list \<Rightarrow> string" where
  "join_with sep [] = []"
| "join_with sep [s] = s"
| "join_with sep (s # t # ss) = s @ sep @ join_with sep (t # ss)"

text \<open>
  \<open>json.dumps(v, sort_keys=True, separators=(",", ":"), ensure_ascii=False)\<close>: the members
  of an object are written in the order of their keys.
\<close>

definition dumps_members :: "(string \<times> string) list \<Rightarrow> string" where
  "dumps_members kvs = CHR 0x7B # join_with '','' (map (\<lambda>(k, t). json_quote k @ CHR '':'' # t)
     (sort_key fst kvs)) @ [CHR 0x7D]"

fun dumps :: "runtime \<Rightarrow> json \<Rightarrow> string" where
  "dumps rt JNull = ''null''"
| "dumps rt (JBool b) = (if b then ''true'' else ''false'')"
| "dumps rt (JInt i) = show_int i"
| "dumps rt (JFloat x) = (case x of Finite q \<Rightarrow> rt_float_repr rt q | _ \<Rightarrow> ''NaN'')"
| "dumps rt (JStr s) = json_quote s"
| "dumps rt (JArr xs) = CHR ''['' # join_with '','' (map (dumps rt) xs) @ '']''"
| "dumps rt (JObj d) = dumps_members (map_values (dumps rt) d)"

text \<open>\<open>allow_nan=False\<close>: a special float anywhere in the value raises \<open>ValueError\<close>.\<close>

definition canonical_json :: "runtime \<Rightarrow> json \<Rightarrow> py_error + string" where
  "canonical_json rt v =
     (if json_finite v then Inr (dumps rt v)
      else Inl (ValueError ''Out of range float values are not JSON compliant''))"

text \<open>The text of an object depends on what its keys map to, not on their order.\<close>

lemma dumps_obj_cong:
  assumes "dict_ok d" and "dict_ok e"
    and "\<And>k. map_option (dumps rt) (dict_get d k) = map_option (dumps rt) (dict_get e k)"
  shows "dumps rt (JObj d) = dumps rt (JObj e)"
  using sort_key_map_of_eq [of "map_values (dumps rt) d" "map_values (dumps rt) e"] assms
  by (simp add: dumps_members_def)

section \<open>\<open>repr\<close> and \<open>str\<close> of a JSON value\<close>

text \<open>
  What an f-string writes for a value that may not be a string. \<open>repr\<close> of a string prefers the
  single quote, and writes a code point it does not print with an escape.
\<close>

definition repr_char :: "nat \<Rightarrow> char \<Rightarrow> string" where
  "repr_char quote c =
    (let n = code_point c in
     if n = quote \<or> n = 92 then [CHR 0x5C, c]
     else if n = 10 then [CHR 0x5C, CHR ''n'']
     else if n = 13 then [CHR 0x5C, CHR ''r'']
     else if n = 9 then [CHR 0x5C, CHR ''t'']
     else if n < 32 \<or> (127 \<le> n \<and> n \<le> 160) \<or> n = 173
       then [CHR 0x5C, CHR ''x'', hex_digit (n div 16), hex_digit (n mod 16)]
     else [c])"

definition repr_str :: "string \<Rightarrow> string" where
  "repr_str s =
    (let quote = (if CHR 0x27 \<in> set s \<and> CHR 0x22 \<notin> set s then 0x22 else 0x27) in
     char_of quote # concat (map (repr_char quote) s) @ [char_of quote])"

fun py_repr :: "runtime \<Rightarrow> json \<Rightarrow> string" where
  "py_repr rt JNull = ''None''"
| "py_repr rt (JBool b) = (if b then ''True'' else ''False'')"
| "py_repr rt (JInt i) = show_int i"
| "py_repr rt (JFloat x) = (case x of Finite q \<Rightarrow> rt_float_repr rt q | PosInf \<Rightarrow> ''inf''
     | NegInf \<Rightarrow> ''-inf'' | NotANumber \<Rightarrow> ''nan'')"
| "py_repr rt (JStr s) = repr_str s"
| "py_repr rt (JArr xs) = CHR ''['' # join_with '', '' (map (py_repr rt) xs) @ '']''"
| "py_repr rt (JObj d) = CHR 0x7B #
     join_with '', '' (map (\<lambda>(k, t). repr_str k @ '': '' @ t) (map_values (py_repr rt) d)) @ [CHR 0x7D]"

definition py_str :: "runtime \<Rightarrow> json \<Rightarrow> string" where
  "py_str rt v = (case v of JStr s \<Rightarrow> s | _ \<Rightarrow> py_repr rt v)"

lemma py_str_JStr [simp]: "py_str rt (JStr s) = s"
  by (simp add: py_str_def)

section \<open>Identifiers\<close>

text \<open>\<open>clean_identifier(value, field, max_length)\<close>; \<open>value\<close> may be any object.\<close>

definition clean_identifier :: "string \<Rightarrow> nat \<Rightarrow> json \<Rightarrow> py_error + string" where
  "clean_identifier field max_length value =
     (case value of
        JStr s \<Rightarrow>
          (let candidate = py_strip s in
           if candidate = [] then Inl (ValueError (field @ '' must not be empty''))
           else if max_length < length candidate
             then Inl (ValueError (field @ '' is longer than '' @ show_nat max_length @ '' characters''))
           else if \<exists>c \<in> set candidate. control_char c
             then Inl (ValueError (field @ '' contains control characters''))
           else Inr candidate)
      | _ \<Rightarrow> Inl (TypeError (field @ '' must be a string'')))"

definition identifier_ok :: "nat \<Rightarrow> string \<Rightarrow> bool" where
  "identifier_ok max_length s \<longleftrightarrow> s \<noteq> [] \<and> length s \<le> max_length
     \<and> (\<forall>c \<in> set s. \<not> control_char c) \<and> py_strip s = s"

lemma dropWhile_rev_dropWhile:
  "dropWhile p (rev (dropWhile p (rev (dropWhile p s)))) = rev (dropWhile p (rev (dropWhile p s)))"
proof (cases "rev (dropWhile p (rev (dropWhile p s)))")
  case (Cons c t)
  have "\<exists>u. dropWhile p s = rev (dropWhile p (rev (dropWhile p s))) @ u"
    by (metis rev_append rev_rev_ident takeWhile_dropWhile_id)
  with Cons have "\<exists>u. dropWhile p s = c # u" by auto
  then have "\<not> p c" by (metis dropWhile_eq_Cons_conv)
  with Cons show ?thesis by simp
next
  case Nil
  then show ?thesis by (metis dropWhile.simps(1))
qed

lemma py_strip_idem [simp]: "py_strip (py_strip s) = py_strip s"
  by (simp add: py_strip_def dropWhile_rev_dropWhile)

lemma clean_identifier_ok: "clean_identifier f n v = Inr s \<Longrightarrow> identifier_ok n s"
  by (auto simp: clean_identifier_def identifier_ok_def Let_def split: json.splits if_splits)

lemma clean_identifier_idem:
  "identifier_ok n s \<Longrightarrow> clean_identifier f n (JStr s) = Inr s"
  by (auto simp: clean_identifier_def identifier_ok_def)

end
