(* ===== verification/Snapshots.thy ===== *)
theory Snapshots
  imports Serialization
begin

text \<open>
  Deterministic change detection between endpoint inventories, after
  \<^verbatim>\<open>app/storage/snapshots.py\<close>: normalisation, the content hash, and the section-wise
  comparison. A snapshot is the dictionary of its sections. The functions are total on the
  snapshots the code handles; a special float raises \<open>ValueError\<close> in the serialisation that
  ends the normalisation.
\<close>

section \<open>The tables\<close>

definition collection_sections :: "string list" where
  "collection_sections =
    [''software'', ''packages'', ''services'', ''users'', ''groups'', ''network_interfaces'',
     ''listening_ports'', ''ports'', ''persistence'', ''vulnerabilities'', ''compliance'',
     ''attack_surface'', ''browser_extensions'', ''certificates'', ''updates'']"

definition event_names :: "(string \<times> string) list" where
  "event_names =
    [(''os'', ''OS_CHANGED''), (''operating_system'', ''OS_CHANGED''),
     (''hardware'', ''HARDWARE_CHANGED''), (''software'', ''SOFTWARE_CHANGED''),
     (''packages'', ''SOFTWARE_CHANGED''), (''processes'', ''PROCESSES_CHANGED''),
     (''services'', ''SERVICES_CHANGED''), (''users'', ''USERS_CHANGED''),
     (''groups'', ''GROUPS_CHANGED''), (''network'', ''NETWORK_CHANGED''),
     (''network_interfaces'', ''NETWORK_CHANGED''), (''listening_ports'', ''PORTS_CHANGED''),
     (''ports'', ''PORTS_CHANGED''), (''security'', ''SECURITY_POSTURE_CHANGED''),
     (''security_posture'', ''SECURITY_POSTURE_CHANGED''),
     (''persistence'', ''PERSISTENCE_CHANGED''), (''vulnerabilities'', ''VULNERABILITIES_CHANGED''),
     (''compliance'', ''COMPLIANCE_CHANGED''), (''attack_surface'', ''ATTACK_SURFACE_CHANGED''),
     (''browser_extensions'', ''BROWSER_EXTENSIONS_CHANGED''),
     (''certificates'', ''CERTIFICATES_CHANGED''), (''updates'', ''UPDATES_CHANGED'')]"

definition identity_fields :: "(string \<times> string list) list" where
  "identity_fields =
    [(''software'', [''name'', ''vendor'', ''architecture'', ''package_manager'']),
     (''packages'', [''name'', ''ecosystem'', ''architecture'', ''source'']),
     (''services'', [''name'']),
     (''users'', [''uid'', ''username'', ''name'']),
     (''groups'', [''gid'', ''name'']),
     (''network_interfaces'', [''name'', ''mac_address'']),
     (''listening_ports'', [''protocol'', ''address'', ''port'']),
     (''ports'', [''protocol'', ''address'', ''port'']),
     (''persistence'', [''kind'', ''name'', ''location'', ''executable_path'']),
     (''vulnerabilities'',
       [''id'', ''vulnerability_id'', ''package'', ''package_name'', ''installed_version'']),
     (''compliance'', [''rule_id'', ''id'']),
     (''attack_surface'', [''asset_type'', ''hostname'']),
     (''browser_extensions'', [''browser'', ''extension_id'']),
     (''certificates'', [''store'', ''thumbprint'', ''serial_number'']),
     (''updates'', [''update_id''])]"

definition volatile_fields :: "(string \<times> string list) list" where
  "volatile_fields =
    [(''endpoint'', [''last_seen_at'']),
     (''security'', [''configuration_drift'', ''scan_age_days'', ''scan_stale'']),
     (''compliance'',
       [''scan_id'', ''endpoint_id'', ''evaluated_at'', ''schema_version'', ''scanner_version'']),
     (''vulnerabilities'',
       [''scan_id'', ''endpoint_id'', ''detected_at'', ''schema_version'', ''scanner_version''])]"

definition get_list :: "(string \<times> 'a list) list \<Rightarrow> string \<Rightarrow> 'a list" where
  "get_list d k = (case dict_get d k of None \<Rightarrow> [] | Some xs \<Rightarrow> xs)"

section \<open>Normalisation\<close>

definition drop_keys :: "string list \<Rightarrow> jobj \<Rightarrow> jobj" where
  "drop_keys ks d = filter (\<lambda>kv. fst kv \<notin> set ks) d"

definition strip_item :: "string list \<Rightarrow> json \<Rightarrow> json" where
  "strip_item volatile v = (case v of JObj d \<Rightarrow> JObj (drop_keys volatile d) | _ \<Rightarrow> v)"

definition strip_volatile :: "string list \<Rightarrow> json \<Rightarrow> json" where
  "strip_volatile volatile v =
    (if volatile = [] then v
     else case v of
       JObj d \<Rightarrow> JObj (drop_keys volatile d)
     | JArr xs \<Rightarrow> JArr (map (strip_item volatile) xs)
     | _ \<Rightarrow> v)"

definition normalize_section :: "runtime \<Rightarrow> string \<Rightarrow> json \<Rightarrow> json" where
  "normalize_section rt name value =
    (let v = strip_volatile (get_list volatile_fields name) value in
     if name \<in> set collection_sections
     then (case v of JArr xs \<Rightarrow> JArr (sort_key (dumps rt) xs) | _ \<Rightarrow> v)
     else v)"

definition normalize_sections :: "runtime \<Rightarrow> jobj \<Rightarrow> jobj" where
  "normalize_sections rt snapshot =
     map (\<lambda>kv. (fst kv, normalize_section rt (fst kv) (snd kv)))
       (filter (\<lambda>kv. fst kv \<noteq> ''processes'') snapshot)"

definition normalize_snapshot :: "runtime \<Rightarrow> jobj \<Rightarrow> py_error + jobj" where
  "normalize_snapshot rt snapshot =
    (let normalized = normalize_sections rt snapshot in
     case canonical_json rt (JObj normalized) of Inl e \<Rightarrow> Inl e | Inr _ \<Rightarrow> Inr normalized)"

definition digest_json :: "runtime \<Rightarrow> json \<Rightarrow> py_error + string" where
  "digest_json rt v = ebind (canonical_json rt v) (\<lambda>t. Inr (rt_sha256 rt t))"

definition snapshot_hash :: "runtime \<Rightarrow> jobj \<Rightarrow> py_error + string" where
  "snapshot_hash rt snapshot =
     ebind (normalize_snapshot rt snapshot) (\<lambda>n. digest_json rt (JObj n))"

section \<open>Comparison\<close>

text \<open>
  The comparison runs on normalised snapshots, whose serialisation cannot fail; \<open>digest_text\<close>
  is \<open>_digest\<close> on such values.
\<close>

definition digest_text :: "runtime \<Rightarrow> json \<Rightarrow> string" where
  "digest_text rt v = rt_sha256 rt (dumps rt v)"

definition item_identity :: "runtime \<Rightarrow> string \<Rightarrow> json \<Rightarrow> string" where
  "item_identity rt sec item =
    (case item of
       JObj d \<Rightarrow>
         (let selected = map (\<lambda>f. JArr [JStr f, jget f d])
                (filter (\<lambda>f. jget f d \<noteq> JNull) (get_list identity_fields sec))
          in dumps rt (if selected \<noteq> [] then JArr selected else item))
     | _ \<Rightarrow> dumps rt item)"

text \<open>\<open>{_identity(section, item): item for item in items}\<close>: a later item replaces an earlier one.\<close>

definition identity_index :: "runtime \<Rightarrow> string \<Rightarrow> json list \<Rightarrow> (string \<times> json) list" where
  "identity_index rt sec items = dict_update [] (map (\<lambda>i. (item_identity rt sec i, i)) items)"

definition collection_counts :: "runtime \<Rightarrow> string \<Rightarrow> json \<Rightarrow> json \<Rightarrow> nat \<times> nat \<times> nat" where
  "collection_counts rt sec before after =
    (case (before, after) of
       (JArr bs, JArr as) \<Rightarrow>
         (let bi = identity_index rt sec bs; ai = identity_index rt sec as;
              added = length (filter (\<lambda>kv. \<not> dict_has (fst kv) bi) ai);
              removed = length (filter (\<lambda>kv. \<not> dict_has (fst kv) ai) bi);
              modified = length (filter (\<lambda>kv. case dict_get ai (fst kv) of
                            None \<Rightarrow> False | Some a \<Rightarrow> \<not> py_eq (snd kv) a) bi)
          in (added, removed, modified))
     | _ \<Rightarrow> (0, 0, 1))"

record section_change =
  sc_section :: string
  sc_event :: string
  sc_before_hash :: "string option"
  sc_after_hash :: "string option"
  sc_added_count :: nat
  sc_removed_count :: nat
  sc_modified_count :: nat

definition event_name :: "string \<Rightarrow> string" where
  "event_name sec =
    (case dict_get event_names sec of Some e \<Rightarrow> e | None \<Rightarrow> map upper_char sec @ ''_CHANGED'')"

definition section_unchanged :: "jobj \<Rightarrow> jobj \<Rightarrow> string \<Rightarrow> bool" where
  "section_unchanged before after sec \<longleftrightarrow>
     py_eq (jget sec before) (jget sec after) \<and> dict_has sec before \<and> dict_has sec after"

definition section_delta :: "runtime \<Rightarrow> jobj \<Rightarrow> jobj \<Rightarrow> string \<Rightarrow> section_change" where
  "section_delta rt before after sec =
    (case collection_counts rt sec (jget sec before) (jget sec after) of (added, removed, modified) \<Rightarrow>
      \<lparr> sc_section = sec,
        sc_event = event_name sec,
        sc_before_hash = map_option (digest_text rt) (dict_get before sec),
        sc_after_hash = map_option (digest_text rt) (dict_get after sec),
        sc_added_count = added,
        sc_removed_count = removed,
        sc_modified_count = modified \<rparr>)"

definition compare_snapshots :: "runtime \<Rightarrow> jobj option \<Rightarrow> jobj \<Rightarrow> section_change list" where
  "compare_snapshots rt before_opt after =
    (case before_opt of
       None \<Rightarrow> []
     | Some before \<Rightarrow>
         map (section_delta rt before after)
           (filter (\<lambda>sec. \<not> section_unchanged before after sec)
             (sort (remdups (map fst before @ map fst after)))))"

section \<open>Canonical form\<close>

text \<open>
  A value with the members of every object in key order: what \<open>json.loads\<close> returns for the
  canonical text of the value.
\<close>

fun canon :: "json \<Rightarrow> json" where
  "canon (JArr xs) = JArr (map canon xs)"
| "canon (JObj d) = JObj (sort_key fst (map_values canon d))"
| "canon v = v"

definition canon_obj :: "jobj \<Rightarrow> jobj" where
  "canon_obj d = sort_key fst (map_values canon d)"

lemma canon_JObj: "canon (JObj d) = JObj (canon_obj d)"
  by (simp add: canon_obj_def)

lemma map_values_IH:
  "(\<And>k v. (k, v) \<in> set d \<Longrightarrow> f v = g v) \<Longrightarrow> map_values f d = map_values g d"
  by (auto simp: map_values_def)

lemma dumps_canon [simp]: "dumps rt (canon v) = dumps rt v"
proof (induction v rule: json_induct)
  case (JArr xs)
  then show ?case by (simp add: o_def cong: map_cong)
next
  case (JObj d)
  then have "map_values (\<lambda>v. dumps rt (canon v)) d = map_values (dumps rt) d"
    by (rule map_values_IH)
  then show ?case by (simp add: dumps_members_def sort_key_map_values flip: sort_key_map_values)
qed auto

lemma canon_idem [simp]: "canon (canon v) = canon v"
proof (induction v rule: json_induct)
  case (JObj d)
  then have "map_values (\<lambda>v. canon (canon v)) d = map_values canon d"
    by (rule map_values_IH)
  then show ?case by (simp add: sort_key_map_values flip: sort_key_map_values)
qed auto

section \<open>Normalisation is idempotent and canonical\<close>

lemma drop_keys_idem [simp]: "drop_keys ks (drop_keys ks d) = drop_keys ks d"
  by (simp add: drop_keys_def)

lemma strip_item_idem [simp]: "strip_item vol (strip_item vol v) = strip_item vol v"
  by (cases v) (auto simp: strip_item_def)

lemma strip_volatile_idem [simp]:
  "strip_volatile vol (strip_volatile vol v) = strip_volatile vol v"
  by (cases v) (auto simp: strip_volatile_def)

lemma map_strip_item_sorted:
  "map (strip_item vol) (sort_key f (map (strip_item vol) xs)) = sort_key f (map (strip_item vol) xs)"
  by (rule map_idI) auto

lemma normalize_section_idem [simp]:
  "normalize_section rt name (normalize_section rt name v) = normalize_section rt name v"
proof (cases v)
  case (JArr xs)
  then show ?thesis
    by (auto simp: normalize_section_def Let_def strip_volatile_def map_strip_item_sorted)
qed (auto simp: normalize_section_def Let_def strip_volatile_def)

lemma normalize_sections_idem [simp]:
  "normalize_sections rt (normalize_sections rt d) = normalize_sections rt d"
  by (simp add: normalize_sections_def filter_map o_def)

lemma drop_keys_canon: "drop_keys ks (canon_obj d) = canon_obj (drop_keys ks d)"
  by (simp add: drop_keys_def canon_obj_def filter_sort map_values_def filter_map o_def)

lemma strip_item_canon: "strip_item vol (canon v) = canon (strip_item vol v)"
  by (cases v) (auto simp: strip_item_def canon_JObj drop_keys_canon simp del: canon.simps(2))

lemma strip_volatile_canon: "strip_volatile vol (canon v) = canon (strip_volatile vol v)"
  by (cases v)
    (auto simp: strip_volatile_def canon_JObj drop_keys_canon strip_item_canon simp del: canon.simps(2))

lemma normalize_section_canon:
  "normalize_section rt name (canon v) = canon (normalize_section rt name v)"
proof -
  have "sort_key (dumps rt) (map canon xs) = map canon (sort_key (dumps rt) xs)" for xs
    by (rule sort_key_map_commute) simp
  then show ?thesis
    by (auto simp: normalize_section_def strip_volatile_canon Let_def split: json.splits
        simp del: canon.simps(2)) (auto simp: canon_JObj simp del: canon.simps(2) split: json.splits)
qed

lemma normalize_sections_canon:
  "normalize_sections rt (canon_obj d) = canon_obj (normalize_sections rt d)"
proof -
  let ?h = "\<lambda>kv. (fst kv, canon (normalize_section rt (fst kv) (snd kv)))"
  let ?d = "filter (\<lambda>kv. fst kv \<noteq> ''processes'') d"
  have "normalize_sections rt (canon_obj d) = map ?h (sort_key fst ?d)"
    by (simp add: normalize_sections_def canon_obj_def sort_key_map_values filter_sort filter_map)
      (simp add: map_values_def filter_map o_def normalize_section_canon filter_sort)
  also have "\<dots> = sort_key fst (map ?h ?d)"
    by (rule sort_key_map_commute [symmetric]) simp
  also have "\<dots> = canon_obj (normalize_sections rt d)"
    by (simp add: normalize_sections_def canon_obj_def map_values_def o_def)
  finally show ?thesis .
qed

lemma dict_get_normalize_sections:
  "dict_get (normalize_sections rt d) k =
    (if k = ''processes'' then None else map_option (normalize_section rt k) (dict_get d k))"
  by (induction d) (auto simp: normalize_sections_def dict_get_def)

lemma dict_ok_normalize [simp]: "dict_ok d \<Longrightarrow> dict_ok (normalize_sections rt d)"
  by (simp add: normalize_sections_def dict_ok_def o_def distinct_map_filter)

lemma canon_obj_idem [simp]: "canon_obj (canon_obj d) = canon_obj d"
  using canon_idem [of "JObj d"] by (simp add: canon_JObj del: canon_idem canon.simps(2))

lemma dict_get_canon_obj [simp]: "dict_ok d \<Longrightarrow> dict_get (canon_obj d) k = map_option canon (dict_get d k)"
  by (simp add: canon_obj_def)

lemma canon_obj_eqI:
  "dict_ok d \<Longrightarrow> dict_ok e \<Longrightarrow>
    (\<And>k. map_option canon (dict_get d k) = map_option canon (dict_get e k)) \<Longrightarrow>
    canon_obj d = canon_obj e"
  unfolding canon_obj_def by (rule sort_key_map_of_eq) auto

lemma json_finite_canon [simp]: "json_finite (canon v) = json_finite v"
  by (induction v rule: json_induct) (auto simp: map_values_def)

lemma normalize_snapshot_Inr:
  "normalize_snapshot rt d = Inr n \<longleftrightarrow>
    n = normalize_sections rt d \<and> json_finite (JObj n)"
  by (auto simp: normalize_snapshot_def canonical_json_def Let_def)

text \<open>The hash of a snapshot is the digest of its normalised sections.\<close>

lemma snapshot_hash_Inr:
  "snapshot_hash rt d = Inr h \<longleftrightarrow>
    json_finite (JObj (normalize_sections rt d)) \<and> h = digest_text rt (JObj (normalize_sections rt d))"
  by (auto simp: snapshot_hash_def ebind_Inr_iff normalize_snapshot_Inr digest_json_def
      canonical_json_def digest_text_def simp del: json_finite.simps)

lemma snapshot_hash_normalized:
  "snapshot_hash rt (normalize_sections rt d) = snapshot_hash rt d"
  by (simp add: snapshot_hash_def normalize_snapshot_def)

lemma digest_text_canon [simp]: "digest_text rt (canon v) = digest_text rt v"
  by (simp add: digest_text_def)

end
