(* ===== verification/Cloud_State.thy ===== *)
theory Cloud_State
  imports Snapshots
begin

text \<open>
  The data of the cloud repository, after \<^verbatim>\<open>cloud_service/repository.py\<close>: its errors, its
  records, the state of the in-memory repository, and the three private helpers every operation
  uses (idempotent replay, recording a response, appending an audit event). Times are
  microseconds since the epoch. The actor and the resource of an audit event are JSON values,
  because two operations take them from a stored document without checking their type. The event loop's lock serialises the operations, so one
  operation is one step of the state.
\<close>

section \<open>Errors\<close>

text \<open>
  \<open>InventorySync\<close> and \<open>InventoryResync\<close> are subclasses of \<open>StateConflict\<close> in the code.
\<close>

datatype cloud_error =
    NotFound string
  | Ownership string
  | IdempotencyConflict string
  | StateConflict string
  | InventorySync string
  | InventoryResync string
  | PyError py_error

fun is_state_conflict :: "cloud_error \<Rightarrow> bool" where
  "is_state_conflict (StateConflict _) = True"
| "is_state_conflict (InventorySync _) = True"
| "is_state_conflict (InventoryResync _) = True"
| "is_state_conflict _ = False"

section \<open>Records\<close>

record device_principal =
  dp_tenant_id :: string
  dp_endpoint_id :: string
  dp_credential_id :: string
  dp_generation :: int

record endpoint_record =
  ep_tenant_id :: string
  ep_endpoint_id :: string
  ep_hostname :: string
  ep_os_family :: string
  ep_os_version :: string
  ep_architecture :: string
  ep_scanner_version :: string
  ep_credential_generation :: int
  ep_enrolled_at :: int
  ep_last_seen_at :: int

record credential_record =
  cr_tenant_id :: string
  cr_endpoint_id :: string
  cr_credential_id :: string
  cr_token_hash :: string
  cr_generation :: int
  cr_issued_at :: int
  cr_expires_at :: int
  cr_superseded_at :: "int option"
  cr_valid_until :: "int option"

record enrollment_grant =
  eg_tenant_id :: string
  eg_grant_id :: string
  eg_token_hash :: string
  eg_issued_by :: string
  eg_issued_at :: int
  eg_expires_at :: int
  eg_os_family :: "string option"
  eg_label :: "string option"
  eg_consumed_at :: "int option"
  eg_endpoint_id :: "string option"

record scan_record =
  sr_tenant_id :: string
  sr_endpoint_id :: string
  sr_scan_id :: string
  sr_job_id :: string
  sr_state :: string
  sr_job_document :: jobj
  sr_created_at :: int
  sr_updated_at :: int
  sr_upload :: "jobj option"
  sr_terminal_status :: "jobj option"
  sr_final_report :: "jobj option"

record inventory_state =
  iv_tenant_id :: string
  iv_endpoint_id :: string
  iv_snapshot_hash :: string
  iv_snapshot :: jobj
  iv_source_scan_id :: string
  iv_updated_at :: int

datatype task_kind = OSV | DEPSCAN

datatype task_state = PENDING | RUNNING | SUCCEEDED | RETRY | FAILED

record analysis_task =
  at_task_id :: string
  at_tenant_id :: string
  at_endpoint_id :: string
  at_scan_id :: string
  at_kind :: task_kind
  at_state :: task_state
  at_attempts :: nat
  at_payload :: jobj
  at_created_at :: int
  at_updated_at :: int
  at_available_at :: int
  at_lease_expires_at :: "int option"
  at_leased_by :: "string option"
  at_last_error :: "string option"
  at_result :: "jobj option"

record audit_event =
  au_event_id :: string
  au_tenant_id :: string
  au_event_type :: string
  au_actor_type :: string
  au_actor_id :: json
  au_resource_type :: string
  au_resource_id :: json
  au_occurred_at :: int
  au_details :: jobj

datatype response =
    RGrant enrollment_grant
  | RCredential credential_record
  | RScan scan_record
  | RTrue

section \<open>The state of the in-memory repository\<close>

record cloud_state =
  cs_endpoints :: "endpoint_record pydict"
  cs_credentials :: "credential_record pydict"
  cs_enrollment_grants :: "enrollment_grant pydict"
  cs_scans :: "scan_record pydict"
  cs_inventory_states :: "((string \<times> string) \<times> inventory_state) list"
  cs_tasks :: "analysis_task pydict"
  cs_audit_events :: "audit_event list"
  cs_rejections :: "jobj list"
  cs_idempotency :: "((string \<times> string \<times> string) \<times> (string \<times> response)) list"

definition cloud_init :: cloud_state where
  "cloud_init = \<lparr> cs_endpoints = [], cs_credentials = [], cs_enrollment_grants = [], cs_scans = [],
     cs_inventory_states = [], cs_tasks = [], cs_audit_events = [], cs_rejections = [],
     cs_idempotency = [] \<rparr>"

section \<open>Private helpers\<close>

definition replay ::
    "cloud_state \<Rightarrow> string \<Rightarrow> string \<Rightarrow> string \<Rightarrow> string \<Rightarrow> cloud_error + response option" where
  "replay s tenant operation key digest =
    (case dict_get (cs_idempotency s) (tenant, operation, key) of
       None \<Rightarrow> Inr None
     | Some (existing_digest, resp) \<Rightarrow>
         if existing_digest \<noteq> digest
         then Inl (IdempotencyConflict ''idempotency key was reused with different content'')
         else Inr (Some resp))"

definition remember ::
    "string \<Rightarrow> string \<Rightarrow> string \<Rightarrow> string \<Rightarrow> response \<Rightarrow> cloud_state \<Rightarrow> cloud_state" where
  "remember tenant operation key digest resp s =
     s\<lparr>cs_idempotency := dict_set (tenant, operation, key) (digest, resp) (cs_idempotency s)\<rparr>"

definition audit ::
    "string \<Rightarrow> string \<Rightarrow> string \<Rightarrow> json \<Rightarrow> string \<Rightarrow> json \<Rightarrow> jobj \<Rightarrow> int \<Rightarrow>
     cloud_state \<Rightarrow> cloud_state" where
  "audit tenant event_type actor_type actor_id resource_type resource_id details now s =
     s\<lparr>cs_audit_events := cs_audit_events s @
       [\<lparr> au_event_id = ''audit-'' @ show_nat (length (cs_audit_events s) + 1),
          au_tenant_id = tenant, au_event_type = event_type, au_actor_type = actor_type,
          au_actor_id = actor_id, au_resource_type = resource_type,
          au_resource_id = resource_id, au_occurred_at = now, au_details = details \<rparr>]\<rparr>"

lemma audit_frame [simp, frame_simps]:
  "cs_endpoints (audit t e a ai r ri d n s) = cs_endpoints s"
  "cs_credentials (audit t e a ai r ri d n s) = cs_credentials s"
  "cs_enrollment_grants (audit t e a ai r ri d n s) = cs_enrollment_grants s"
  "cs_scans (audit t e a ai r ri d n s) = cs_scans s"
  "cs_inventory_states (audit t e a ai r ri d n s) = cs_inventory_states s"
  "cs_tasks (audit t e a ai r ri d n s) = cs_tasks s"
  "cs_rejections (audit t e a ai r ri d n s) = cs_rejections s"
  "cs_idempotency (audit t e a ai r ri d n s) = cs_idempotency s"
  by (simp_all add: audit_def)

lemma remember_frame [simp, frame_simps]:
  "cs_endpoints (remember t oper k d r s) = cs_endpoints s"
  "cs_credentials (remember t oper k d r s) = cs_credentials s"
  "cs_enrollment_grants (remember t oper k d r s) = cs_enrollment_grants s"
  "cs_scans (remember t oper k d r s) = cs_scans s"
  "cs_inventory_states (remember t oper k d r s) = cs_inventory_states s"
  "cs_tasks (remember t oper k d r s) = cs_tasks s"
  "cs_rejections (remember t oper k d r s) = cs_rejections s"
  "cs_audit_events (remember t oper k d r s) = cs_audit_events s"
  by (simp_all add: remember_def)

lemma replay_audit [simp]: "replay (audit t e a ai r ri d n s) = replay s"
  by (simp add: replay_def fun_eq_iff)

text \<open>A recorded response is replayed to the same digest and refused to any other.\<close>

lemma replay_remember:
  "replay (remember t oper k d r s) t' oper' k' d' =
    (if (t', oper', k') = (t, oper, k)
     then if d = d' then Inr (Some r)
          else Inl (IdempotencyConflict ''idempotency key was reused with different content'')
     else replay s t' oper' k' d')"
  by (simp add: replay_def remember_def)

section \<open>Idempotent operations\<close>

text \<open>
  Seven operations start with the same lines: look the request up, return the recorded response,
  and otherwise run the body.
\<close>

definition idempotent ::
    "string \<Rightarrow> string \<Rightarrow> string \<Rightarrow> string \<Rightarrow>
     (cloud_state \<Rightarrow> (cloud_error + response) \<times> cloud_state) \<Rightarrow>
     cloud_state \<Rightarrow> (cloud_error + response) \<times> cloud_state" where
  "idempotent tenant operation key digest body s =
    (case replay s tenant operation key digest of
       Inl e \<Rightarrow> (Inl e, s)
     | Inr (Some r) \<Rightarrow> (Inr r, s)
     | Inr None \<Rightarrow> body s)"

text \<open>An error leaves with the state it was raised in.\<close>

definition raise :: "cloud_error \<Rightarrow> cloud_state \<Rightarrow> (cloud_error + 'a) \<times> cloud_state" where
  [simp]: "raise e s = (Inl e, s)"

text \<open>\<open>d[k]\<close> on a JSON value.\<close>

definition subscript :: "json \<Rightarrow> string \<Rightarrow> py_error + json" where
  "subscript v k =
    (case v of
       JObj d \<Rightarrow> (case dict_get d k of None \<Rightarrow> Inl (KeyError k) | Some x \<Rightarrow> Inr x)
     | _ \<Rightarrow> Inl (TypeError ''not subscriptable by a string''))"

definition opt_str :: "string option \<Rightarrow> json" where
  "opt_str v = (case v of None \<Rightarrow> JNull | Some s \<Rightarrow> JStr s)"

text \<open>The body alone changes the state.\<close>

lemma idempotent_preserves:
  assumes "P s" and "P (snd (body s))"
  shows "P (snd (idempotent t oper k d body s))"
  using assms by (auto simp: idempotent_def split: sum.splits option.splits)

lemma replay_None_iff: "replay s t oper k d = Inr None \<longleftrightarrow> dict_get (cs_idempotency s) (t, oper, k) = None"
  by (auto simp: replay_def split: option.splits)

lemma replay_Some_iff:
  "replay s t oper k d = Inr (Some r) \<longleftrightarrow> dict_get (cs_idempotency s) (t, oper, k) = Some (d, r)"
  by (auto simp: replay_def split: option.splits)

lemma audit_events [simp]:
  "cs_audit_events (audit t e a ai r ri d n s) = cs_audit_events s @
     [\<lparr> au_event_id = ''audit-'' @ show_nat (length (cs_audit_events s) + 1), au_tenant_id = t,
        au_event_type = e, au_actor_type = a, au_actor_id = ai, au_resource_type = r,
        au_resource_id = ri, au_occurred_at = n, au_details = d \<rparr>]"
  by (simp add: audit_def)

lemma remember_idempotency [simp]:
  "cs_idempotency (remember t oper k d r s) = dict_set (t, oper, k) (d, r) (cs_idempotency s)"
  by (simp add: remember_def)

end
