(* ===== verification/Cloud_Inventory.thy ===== *)
theory Cloud_Inventory
  imports Cloud_State
begin

text \<open>
  The server side of the inventory synchronisation: \<open>reconstruct_inventory\<close> of
  \<^verbatim>\<open>cloud_service/repository.py\<close> validates a full, delta or unchanged envelope against the
  current state of the endpoint and returns the new state.
\<close>

definition max_inventory_sections :: nat where
  "max_inventory_sections = 512"

definition max_inventory_nodes :: nat where
  "max_inventory_nodes = 300000"

definition max_reconstructed_bytes :: nat where
  "max_reconstructed_bytes = 16 * 1024 * 1024"

definition inventory_digest :: "json \<Rightarrow> string \<Rightarrow> bool \<Rightarrow> cloud_error + string option" where
  "inventory_digest value field nullable =
    (if value = JNull \<and> nullable then Inr None
     else case value of
       JStr s \<Rightarrow>
         if length s = 64 \<and> (\<forall>c \<in> set s. lower_hex_digit c) then Inr (Some s)
         else Inl (InventorySync (''inventory_sync.'' @ field @ '' must be a lowercase SHA-256''))
     | _ \<Rightarrow> Inl (InventorySync (''inventory_sync.'' @ field @ '' must be a lowercase SHA-256'')))"

definition bounded_snapshot :: "runtime \<Rightarrow> json \<Rightarrow> cloud_error + jobj" where
  "bounded_snapshot rt value =
    (case value of
       JObj d \<Rightarrow>
         (case ebind (cloud_bounded_json 32 max_inventory_nodes value) (\<lambda>_.
                ebind (normalize_snapshot rt d) (\<lambda>n.
                ebind (canonical_json rt (JObj n)) (\<lambda>t. Inr (n, utf8_length t)))) of
            Inl _ \<Rightarrow> Inl (InventorySync ''inventory snapshot is not valid bounded JSON'')
          | Inr (normalized, encoded_length) \<Rightarrow>
              if max_inventory_sections < length normalized
              then Inl (InventorySync ''inventory snapshot contains too many sections'')
              else if max_reconstructed_bytes < encoded_length
              then Inl (InventorySync ''reconstructed inventory exceeds the size limit'')
              else Inr normalized)
     | _ \<Rightarrow> Inl (InventorySync ''inventory snapshot must be a JSON object''))"

text \<open>\<open>snapshot_hash\<close> inside the repository: its \<open>ValueError\<close> is not translated.\<close>

definition cloud_snapshot_hash :: "runtime \<Rightarrow> jobj \<Rightarrow> cloud_error + string" where
  "cloud_snapshot_hash rt d = (case snapshot_hash rt d of Inl e \<Rightarrow> Inl (PyError e) | Inr h \<Rightarrow> Inr h)"

section \<open>The three modes\<close>

definition reconstruct_full ::
    "runtime \<Rightarrow> jobj \<Rightarrow> string \<Rightarrow> string option \<Rightarrow> inventory_state option \<Rightarrow> cloud_error + jobj" where
  "reconstruct_full rt sync claimed_hash previous_hash current =
    (if dict_has ''sections'' sync \<or> dict_has ''removed_sections'' sync
     then Inl (InventorySync ''full inventory cannot contain delta fields'')
     else ebind (bounded_snapshot rt (jget ''snapshot'' sync)) (\<lambda>snapshot.
       ebind (cloud_snapshot_hash rt snapshot) (\<lambda>calculated.
       if calculated \<noteq> claimed_hash
       then Inl (InventorySync ''full inventory snapshot_hash does not match its content'')
       else if previous_hash \<noteq> None \<and>
          (case current of None \<Rightarrow> True | Some c \<Rightarrow> previous_hash \<noteq> Some (iv_snapshot_hash c))
       then Inl (InventoryResync
          ''inventory base hash mismatch; upload a full snapshot with previous_hash null'')
       else Inr snapshot)))"

definition section_name_ok :: "string \<Rightarrow> bool" where
  "section_name_ok s \<longleftrightarrow> s \<noteq> [] \<and> length s \<le> 256"

definition delta_names :: "json list \<Rightarrow> string list option" where
  "delta_names xs =
    (if \<forall>x \<in> set xs. case x of JStr s \<Rightarrow> section_name_ok s | _ \<Rightarrow> False
     then Some (map (\<lambda>x. case x of JStr s \<Rightarrow> s | _ \<Rightarrow> []) xs) else None)"

fun dict_pop_all :: "string list \<Rightarrow> jobj \<Rightarrow> jobj" where
  "dict_pop_all [] d = d"
| "dict_pop_all (k # ks) d = dict_pop_all ks (dict_pop k d)"

definition reconstruct_delta ::
    "runtime \<Rightarrow> jobj \<Rightarrow> string \<Rightarrow> string option \<Rightarrow> inventory_state option \<Rightarrow> cloud_error + jobj" where
  "reconstruct_delta rt sync claimed_hash previous_hash current_opt =
    (case current_opt of
       None \<Rightarrow> Inl (InventoryResync ''inventory base is unavailable; upload a full snapshot'')
     | Some current \<Rightarrow>
       if previous_hash \<noteq> Some (iv_snapshot_hash current)
       then Inl (InventoryResync ''inventory base hash mismatch; upload a full snapshot'')
       else if dict_has ''snapshot'' sync
       then Inl (InventorySync ''delta inventory cannot contain a full snapshot'')
       else case (jget_default (JObj []) ''sections'' sync, jget_default (JArr []) ''removed_sections'' sync) of
         (JObj sections, JArr removed_value) \<Rightarrow>
           if max_inventory_sections < length sections + length removed_value
           then Inl (InventorySync ''delta inventory contains too many sections'')
           else if \<not> (\<forall>kv \<in> set sections. section_name_ok (fst kv))
           then Inl (InventorySync ''delta inventory contains an invalid section name'')
           else (case delta_names removed_value of
             None \<Rightarrow> Inl (InventorySync ''delta inventory contains an invalid section name'')
           | Some removed \<Rightarrow>
             if \<not> distinct removed
             then Inl (InventorySync ''delta removed_sections contains duplicates'')
             else if \<exists>k \<in> set removed. dict_has k sections
             then Inl (InventorySync ''delta cannot replace and remove the same section'')
             else if sections = [] \<and> removed = []
             then Inl (InventorySync ''empty delta must use unchanged mode'')
             else
               let reconstructed = dict_pop_all removed (dict_update (iv_snapshot current) sections)
               in ebind (bounded_snapshot rt (JObj reconstructed)) (\<lambda>snapshot.
                  ebind (cloud_snapshot_hash rt snapshot) (\<lambda>calculated.
                  if calculated \<noteq> claimed_hash
                  then Inl (InventorySync ''delta snapshot_hash does not match reconstructed content'')
                  else Inr snapshot)))
       | _ \<Rightarrow> Inl (InventorySync ''delta sections and removed_sections have invalid types''))"

definition reconstruct_unchanged ::
    "jobj \<Rightarrow> string \<Rightarrow> string option \<Rightarrow> inventory_state option \<Rightarrow> cloud_error + jobj" where
  "reconstruct_unchanged sync claimed_hash previous_hash current_opt =
    (case current_opt of
       None \<Rightarrow> Inl (InventoryResync ''inventory base is unavailable; upload a full snapshot'')
     | Some current \<Rightarrow>
       if claimed_hash \<noteq> iv_snapshot_hash current
       then Inl (InventoryResync ''inventory base hash mismatch; upload a full snapshot'')
       else if previous_hash \<noteq> None \<and> previous_hash \<noteq> Some (iv_snapshot_hash current)
       then Inl (InventoryResync ''inventory previous_hash mismatch; upload a full snapshot'')
       else if dict_has ''snapshot'' sync \<or> dict_has ''sections'' sync \<or> dict_has ''removed_sections'' sync
       then Inl (InventorySync ''unchanged inventory cannot contain snapshot data'')
       else Inr (iv_snapshot current))"

definition inventory_mode :: "jobj \<Rightarrow> cloud_error + json" where
  "inventory_mode sync =
    (let mode = jget ''mode'' sync in
     if (case mode of JArr _ \<Rightarrow> True | JObj _ \<Rightarrow> True | _ \<Rightarrow> False)
     then Inl (PyError (TypeError ''unhashable type''))
     else if mode \<notin> {JStr ''full'', JStr ''delta'', JStr ''unchanged''}
     then Inl (InventorySync ''inventory_sync.mode must be full, delta, or unchanged'')
     else Inr mode)"

definition reconstruct_snapshot ::
    "runtime \<Rightarrow> json \<Rightarrow> jobj \<Rightarrow> string \<Rightarrow> string option \<Rightarrow> inventory_state option \<Rightarrow> cloud_error + jobj" where
  "reconstruct_snapshot rt mode sync claimed_hash previous_hash current =
    (if mode = JStr ''full'' then reconstruct_full rt sync claimed_hash previous_hash current
     else if mode = JStr ''delta'' then reconstruct_delta rt sync claimed_hash previous_hash current
     else reconstruct_unchanged sync claimed_hash previous_hash current)"

definition reconstruct_inventory ::
    "runtime \<Rightarrow> string \<Rightarrow> string \<Rightarrow> string \<Rightarrow> json \<Rightarrow> inventory_state option \<Rightarrow> int \<Rightarrow>
     cloud_error + (jobj \<times> inventory_state)" where
  "reconstruct_inventory rt tenant_id endpoint_id scan_id inventory_sync current now =
    (case inventory_sync of
       JObj sync \<Rightarrow>
         if dict_has ''reconstructed_snapshot'' sync
         then Inl (InventorySync ''inventory_sync.reconstructed_snapshot is server-managed'')
         else
           ebind (inventory_mode sync) (\<lambda>mode.
           ebind (inventory_digest (jget ''snapshot_hash'' sync) ''snapshot_hash'' False) (\<lambda>claimed.
           ebind (inventory_digest (jget ''previous_hash'' sync) ''previous_hash'' True) (\<lambda>previous_hash.
           let claimed_hash = (case claimed of Some h \<Rightarrow> h | None \<Rightarrow> []) in
           ebind (reconstruct_snapshot rt mode sync claimed_hash previous_hash current) (\<lambda>snapshot.
           Inr (dict_set ''reconstructed_snapshot'' (JObj snapshot) sync,
                \<lparr> iv_tenant_id = tenant_id, iv_endpoint_id = endpoint_id,
                  iv_snapshot_hash = claimed_hash, iv_snapshot = snapshot,
                  iv_source_scan_id = scan_id, iv_updated_at = now \<rparr>)))))
     | _ \<Rightarrow> Inl (InventorySync ''inventory_sync must be a JSON object''))"

text \<open>The steps of an accepted synchronisation.\<close>

lemma reconstruct_inventory_Inr:
  "reconstruct_inventory rt t e k v cur now = Inr (sync', iv) \<longleftrightarrow>
    (\<exists>sync mode h p sn. v = JObj sync \<and> \<not> dict_has ''reconstructed_snapshot'' sync \<and>
      inventory_mode sync = Inr mode \<and>
      inventory_digest (jget ''snapshot_hash'' sync) ''snapshot_hash'' False = Inr (Some h) \<and>
      inventory_digest (jget ''previous_hash'' sync) ''previous_hash'' True = Inr p \<and>
      reconstruct_snapshot rt mode sync h p cur = Inr sn \<and>
      sync' = dict_set ''reconstructed_snapshot'' (JObj sn) sync \<and>
      iv = \<lparr> iv_tenant_id = t, iv_endpoint_id = e, iv_snapshot_hash = h, iv_snapshot = sn,
             iv_source_scan_id = k, iv_updated_at = now \<rparr>)"
proof -
  have some: "\<exists>h. c = Some h" if "inventory_digest w f False = Inr c" for w f c
    using that by (auto simp: inventory_digest_def split: json.splits if_splits)
  show ?thesis
  proof (cases v)
    case (JObj d)
    show ?thesis
    proof (cases "inventory_digest (jget ''snapshot_hash'' d) ''snapshot_hash'' False")
      case (Inr c)
      with some obtain h where "c = Some h" by blast
      with JObj Inr show ?thesis by (auto simp: reconstruct_inventory_def ebind_Inr_iff Let_def)
    qed (auto simp: JObj reconstruct_inventory_def ebind_Inr_iff Let_def)
  qed (simp_all add: reconstruct_inventory_def)
qed

end
