(* ===== verification/Cloud_Dispatch.thy ===== *)
theory Cloud_Dispatch
  imports Cloud_State
begin

text \<open>
  The guards of the scan life cycle in \<^verbatim>\<open>cloud_service/repository.py\<close>: whether a job may be
  handed to its endpoint, whether uploaded evidence belongs to the dispatched authorization, and
  whether a terminal status agrees with the accepted evidence.
\<close>

definition job_dispatch_grace_seconds :: int where
  "job_dispatch_grace_seconds = 60"

definition scan_upload_grace_seconds :: int where
  "scan_upload_grace_seconds = 7 * 24 * 60 * 60"

definition timestamp :: "runtime \<Rightarrow> json \<Rightarrow> int option" where
  "timestamp rt value =
    (case value of
       JStr s \<Rightarrow>
         (case rt_fromisoformat rt (replace_char (CHR ''Z'') ''+00:00'' s) of
            None \<Rightarrow> None
          | Some parsed \<Rightarrow> parsed)
     | _ \<Rightarrow> None)"

datatype eligibility = ELIGIBLE | ACTIVE | WAITING | EXPIRED

definition job_dispatch_eligibility :: "runtime \<Rightarrow> scan_record \<Rightarrow> string \<Rightarrow> int \<Rightarrow> eligibility" where
  "job_dispatch_eligibility rt rec endpoint_id now =
    (let document = sr_job_document rec in
     case (jget ''authorization'' document, timestamp rt (jget ''deadline'' document)) of
       (JObj authorization, Some deadline) \<Rightarrow>
         (case (timestamp rt (jget ''valid_from'' authorization),
                timestamp rt (jget ''expires_at'' authorization),
                jget ''allowed_endpoint_ids'' authorization) of
            (Some valid_from, Some expires_at, JArr allowed) \<Rightarrow>
              if jget ''authorized'' authorization \<noteq> JBool True
                 \<or> \<not> (\<exists>v \<in> set allowed. py_eq v (JStr endpoint_id)) then EXPIRED
              else if deadline \<le> now \<or> expires_at \<le> now then EXPIRED
              else if now < valid_from then WAITING
              else
                let not_before_value = jget ''not_before'' document;
                    not_before = timestamp rt not_before_value in
                if not_before_value \<noteq> JNull \<and> not_before = None then EXPIRED
                else if not_before_value \<noteq> JNull \<and> (case not_before of None \<Rightarrow> False | Some t \<Rightarrow> now < t) then WAITING
                else if sr_state rec = ''QUEUED'' then ELIGIBLE
                else if sr_state rec \<noteq> ''DISPATCHED'' then ACTIVE
                else (case jget ''timeout_seconds'' document of
                   JInt timeout \<Rightarrow>
                     if \<not> (10 \<le> timeout \<and> timeout \<le> 86400) then EXPIRED
                     else if sr_updated_at rec + seconds (timeout + job_dispatch_grace_seconds) \<le> now
                     then ELIGIBLE else ACTIVE
                 | _ \<Rightarrow> EXPIRED)
          | _ \<Rightarrow> EXPIRED)
     | _ \<Rightarrow> EXPIRED)"

text \<open>Membership in a set of strings, where a list or dictionary is unhashable.\<close>

definition hashable :: "json \<Rightarrow> bool" where
  "hashable v = (case v of JArr _ \<Rightarrow> False | JObj _ \<Rightarrow> False | _ \<Rightarrow> True)"

definition expect_field :: "jobj \<Rightarrow> string \<Rightarrow> json \<Rightarrow> bool" where
  "expect_field result name expected \<longleftrightarrow> expected \<noteq> JNull \<and> py_eq (jget name result) expected"

definition validate_scan_upload ::
    "runtime \<Rightarrow> scan_record \<Rightarrow> jobj \<Rightarrow> int \<Rightarrow> cloud_error + unit" where
  "validate_scan_upload rt rec upload now =
    (if sr_state rec \<noteq> ''DISPATCHED''
     then Inl (StateConflict ''scan evidence is accepted only for a dispatched job'')
     else
       let job = sr_job_document rec in
       case (jget ''result'' upload, jget ''inventory_sync'' upload) of
         (JObj result, JObj inventory_sync) \<Rightarrow>
           (case jget ''authorization'' job of
              JObj authorization \<Rightarrow>
                (case timestamp rt (jget ''deadline'' job) of
                   None \<Rightarrow> Inl (StateConflict ''scan upload authorization window has expired'')
                 | Some deadline \<Rightarrow>
                   if deadline + seconds scan_upload_grace_seconds < now
                   then Inl (StateConflict ''scan upload authorization window has expired'')
                   else if \<not> (\<forall>(name, expected) \<in> set [(''scan_id'', sr_scan_id rec), (''endpoint_id'', sr_endpoint_id rec)].
                          py_eq (jget name result) (JStr expected)
                          \<and> py_eq (jget name inventory_sync) (JStr expected))
                   then Inl (StateConflict ''scan upload identity does not match the dispatched job'')
                   else if \<not> (\<forall>(name, expected) \<in> set [(''scan_type'', jget ''scan_type'' job),
                             (''authorization_scope_id'', jget ''scope_id'' authorization),
                             (''policy_id'', jget ''policy_id'' job)]. expect_field result name expected)
                   then Inl (StateConflict ''scan evidence provenance does not match the dispatched job'')
                   else if jget ''policy_version'' job \<noteq> JNull
                        \<and> \<not> py_eq (jget ''policy_version'' result) (jget ''policy_version'' job)
                   then Inl (StateConflict ''scan evidence policy version does not match the dispatched job'')
                   else if \<not> hashable (jget ''status'' result)
                   then Inl (PyError (TypeError ''unhashable type''))
                   else if jget ''status'' result \<notin> {JStr ''SUCCESS'', JStr ''PARTIAL'', JStr ''FAILED''}
                   then Inl (StateConflict ''scan evidence has an invalid terminal status'')
                   else Inr ())
            | _ \<Rightarrow> Inl (StateConflict ''scan authorization is invalid''))
       | _ \<Rightarrow> Inl (StateConflict ''scan upload documents are invalid''))"

definition status_fields :: "string list" where
  "status_fields = [''scan_id'', ''endpoint_id'', ''schema_version'', ''scanner_version'',
     ''authorization_scope_id'', ''policy_id'', ''policy_version'', ''status'']"

definition validate_scan_status :: "scan_record \<Rightarrow> jobj \<Rightarrow> cloud_error + unit" where
  "validate_scan_status rec status =
    (case sr_upload rec of
       None \<Rightarrow> Inl (StateConflict ''terminal status cannot precede scan evidence'')
     | Some upload \<Rightarrow>
       if sr_terminal_status rec \<noteq> None
       then Inl (StateConflict ''terminal scan status is immutable'')
       else (case jget ''result'' upload of
          JObj result \<Rightarrow>
            if \<exists>name \<in> set status_fields. \<not> py_eq (jget name status) (jget name result)
            then Inl (StateConflict ''terminal status does not match accepted scan evidence'')
            else Inr ()
        | _ \<Rightarrow> Inl (StateConflict ''accepted scan evidence is invalid'')))"

section \<open>What the guards imply\<close>

text \<open>A job is handed out only inside its authorization, to an endpoint the authorization names.\<close>

lemma eligible_authorized:
  assumes "job_dispatch_eligibility rt rec e now = ELIGIBLE"
  shows "\<exists>auth deadline valid_from expires_at allowed.
    jget ''authorization'' (sr_job_document rec) = JObj auth \<and>
    jget ''authorized'' auth = JBool True \<and>
    jget ''allowed_endpoint_ids'' auth = JArr allowed \<and> JStr e \<in> set allowed \<and>
    timestamp rt (jget ''deadline'' (sr_job_document rec)) = Some deadline \<and>
    timestamp rt (jget ''valid_from'' auth) = Some valid_from \<and>
    timestamp rt (jget ''expires_at'' auth) = Some expires_at \<and>
    valid_from \<le> now \<and> now < expires_at \<and> now < deadline \<and>
    (sr_state rec = ''QUEUED'' \<or> sr_state rec = ''DISPATCHED'')"
  using assms
  by (auto simp: job_dispatch_eligibility_def Let_def split: json.splits option.splits if_splits)

text \<open>A dispatched job is handed out again only after its lease and the grace period.\<close>

lemma eligible_again:
  assumes "job_dispatch_eligibility rt rec e now = ELIGIBLE" and "sr_state rec = ''DISPATCHED''"
  shows "\<exists>timeout. jget ''timeout_seconds'' (sr_job_document rec) = JInt timeout \<and>
    10 \<le> timeout \<and> timeout \<le> 86400 \<and>
    sr_updated_at rec + seconds (timeout + job_dispatch_grace_seconds) \<le> now"
  using assms
  by (auto simp: job_dispatch_eligibility_def Let_def split: json.splits option.splits if_splits)

lemma upload_valid_state: "validate_scan_upload rt rec u now = Inr () \<Longrightarrow> sr_state rec = ''DISPATCHED''"
  by (auto simp: validate_scan_upload_def split: if_splits)

lemma upload_valid_identity:
  assumes "validate_scan_upload rt rec u now = Inr ()"
  shows "\<exists>result sync. jget ''result'' u = JObj result \<and> jget ''inventory_sync'' u = JObj sync \<and>
    jget ''scan_id'' result = JStr (sr_scan_id rec) \<and> jget ''endpoint_id'' result = JStr (sr_endpoint_id rec) \<and>
    jget ''scan_id'' sync = JStr (sr_scan_id rec) \<and> jget ''endpoint_id'' sync = JStr (sr_endpoint_id rec)"
  using assms
  by (auto simp: validate_scan_upload_def Let_def split: json.splits option.splits if_splits)

lemma status_valid_upload: "validate_scan_status rec st = Inr () \<Longrightarrow> sr_upload rec \<noteq> None \<and> sr_terminal_status rec = None"
  by (auto simp: validate_scan_status_def split: option.splits if_splits json.splits)

end
