(* ===== verification/Cloud_Repository.thy ===== *)
theory Cloud_Repository
  imports Cloud_Inventory Cloud_Dispatch
begin

text \<open>
  The operations of \<open>InMemoryRepository\<close> in \<^verbatim>\<open>cloud_service/repository.py\<close>: identity of the
  endpoints, the scan life cycle, the analysis tasks and the final reports. An operation returns
  its result or its exception together with the state it leaves. \<open>now\<close> is the clock reading
  inside the operation and \<open>aud\<close> the one taken when its audit event is appended. The
  definition \<open><operation>_body\<close> is what an idempotent operation does after the replay check.
\<close>

type_synonym 'a outcome = "(cloud_error + 'a) \<times> cloud_state"

section \<open>Devices and enrollment grants\<close>

definition authenticate_device :: "string \<Rightarrow> int \<Rightarrow> cloud_state \<Rightarrow> device_principal option" where
  "authenticate_device token_hash now s =
    (case dict_get (cs_credentials s) token_hash of
       None \<Rightarrow> None
     | Some c \<Rightarrow>
       if cr_expires_at c \<le> now then None
       else if (case cr_valid_until c of None \<Rightarrow> False | Some t \<Rightarrow> t \<le> now) then None
       else Some \<lparr> dp_tenant_id = cr_tenant_id c, dp_endpoint_id = cr_endpoint_id c,
                   dp_credential_id = cr_credential_id c, dp_generation = cr_generation c \<rparr>)"

definition authenticate_enrollment_grant ::
    "string \<Rightarrow> int \<Rightarrow> cloud_state \<Rightarrow> enrollment_grant option" where
  "authenticate_enrollment_grant token_hash now s =
    (case dict_get (cs_enrollment_grants s) token_hash of
       None \<Rightarrow> None
     | Some g \<Rightarrow> if eg_expires_at g \<le> now then None else Some g)"

definition create_enrollment_grant_body ::
    "runtime \<Rightarrow> string \<Rightarrow> enrollment_grant \<Rightarrow> string \<Rightarrow> string \<Rightarrow> int \<Rightarrow> cloud_state \<Rightarrow> response outcome" where
  "create_enrollment_grant_body rt operation grant idempotency_key request_hash aud s =
      (if dict_has (eg_token_hash grant) (cs_enrollment_grants s)
       then raise (StateConflict ''generated enrollment grant already exists'') s
       else
         let s = s\<lparr>cs_enrollment_grants :=
               dict_set (eg_token_hash grant) grant (cs_enrollment_grants s)\<rparr>;
             s = remember (eg_tenant_id grant) operation idempotency_key request_hash (RGrant grant) s;
             s = audit (eg_tenant_id grant) ''ENDPOINT_ENROLLMENT_GRANT_CREATED'' ''platform''
               (JStr (eg_issued_by grant)) ''enrollment-grant'' (JStr (eg_grant_id grant))
               [(''expires_at'', JStr (rt_isoformat rt (eg_expires_at grant))),
                (''os_family'', opt_str (eg_os_family grant))] aud s
         in (Inr (RGrant grant), s))"

definition create_enrollment_grant ::
    "runtime \<Rightarrow> enrollment_grant \<Rightarrow> string \<Rightarrow> string \<Rightarrow> int \<Rightarrow> cloud_state \<Rightarrow> response outcome" where
  "create_enrollment_grant rt grant idempotency_key request_hash aud =
    (let operation = ''create-enrollment-grant'' in
     idempotent (eg_tenant_id grant) operation idempotency_key request_hash
       (create_enrollment_grant_body rt operation grant idempotency_key request_hash aud))"

text \<open>The checks of a presented grant: the grant, if one is presented and all of them pass.\<close>

definition check_grant ::
    "string \<Rightarrow> endpoint_record \<Rightarrow> credential_record \<Rightarrow> string option \<Rightarrow> cloud_state \<Rightarrow>
     cloud_error + enrollment_grant option" where
  "check_grant tenant_id endpoint credential grant_hash s =
    (case grant_hash of
       None \<Rightarrow> Inr None
     | Some h \<Rightarrow>
       (case dict_get (cs_enrollment_grants s) h of
          None \<Rightarrow> Inl (Ownership ''enrollment grant is invalid'')
        | Some g \<Rightarrow>
          if eg_tenant_id g \<noteq> tenant_id then Inl (Ownership ''enrollment grant is invalid'')
          else if eg_expires_at g \<le> cr_issued_at credential
            then Inl (StateConflict ''enrollment grant has expired'')
          else if eg_consumed_at g \<noteq> None
            then Inl (StateConflict ''enrollment grant has already been used'')
          else if eg_os_family g \<noteq> None \<and> eg_os_family g \<noteq> Some (ep_os_family endpoint)
            then Inl (StateConflict ''enrollment grant is for a different operating system'')
          else Inr (Some g)))"

text \<open>The presented grant is marked as consumed by the new endpoint.\<close>

definition consume_grant ::
    "string option \<Rightarrow> enrollment_grant option \<Rightarrow> int \<Rightarrow> string \<Rightarrow> enrollment_grant pydict \<Rightarrow>
     enrollment_grant pydict" where
  "consume_grant grant_hash grant issued_at endpoint_id grants =
    (case (grant_hash, grant) of
       (Some h, Some g) \<Rightarrow>
         dict_set h (g\<lparr>eg_consumed_at := Some issued_at, eg_endpoint_id := Some endpoint_id\<rparr>) grants
     | _ \<Rightarrow> grants)"

definition enroll_endpoint_body ::
    "string \<Rightarrow> endpoint_record \<Rightarrow> credential_record \<Rightarrow> string \<Rightarrow> string \<Rightarrow> string option \<Rightarrow> int \<Rightarrow>
     cloud_state \<Rightarrow> response outcome" where
  "enroll_endpoint_body tenant_id endpoint credential idempotency_key request_hash grant_hash aud s =
     (case check_grant tenant_id endpoint credential grant_hash s of
        Inl e \<Rightarrow> raise e s
      | Inr grant \<Rightarrow>
        if dict_has (ep_endpoint_id endpoint) (cs_endpoints s)
           \<or> dict_has (cr_token_hash credential) (cs_credentials s)
        then raise (StateConflict ''generated endpoint or credential already exists'') s
        else
          let s = s\<lparr>cs_endpoints := dict_set (ep_endpoint_id endpoint) endpoint (cs_endpoints s),
                    cs_credentials := dict_set (cr_token_hash credential) credential (cs_credentials s)\<rparr>;
              s = s\<lparr>cs_enrollment_grants := consume_grant grant_hash grant (cr_issued_at credential)
                    (ep_endpoint_id endpoint) (cs_enrollment_grants s)\<rparr>;
              s = remember tenant_id ''enroll'' idempotency_key request_hash (RCredential credential) s;
              s = audit tenant_id ''ENDPOINT_ENROLLED''
                (case grant of None \<Rightarrow> ''bootstrap'' | Some _ \<Rightarrow> ''enrollment-grant'')
                (JStr (case grant of None \<Rightarrow> tenant_id | Some g \<Rightarrow> eg_grant_id g))
                ''endpoint'' (JStr (ep_endpoint_id endpoint)) [] aud s
          in (Inr (RCredential credential), s))"

definition enroll_endpoint ::
    "string \<Rightarrow> endpoint_record \<Rightarrow> credential_record \<Rightarrow> string \<Rightarrow> string \<Rightarrow> string option \<Rightarrow> int \<Rightarrow>
     cloud_state \<Rightarrow> response outcome" where
  "enroll_endpoint tenant_id endpoint credential idempotency_key request_hash grant_hash aud =
    idempotent tenant_id ''enroll'' idempotency_key request_hash
      (enroll_endpoint_body tenant_id endpoint credential idempotency_key request_hash grant_hash aud)"

definition rotate_credential_body ::
    "string \<Rightarrow> device_principal \<Rightarrow> int \<Rightarrow> string \<Rightarrow> credential_record \<Rightarrow> int \<Rightarrow> string \<Rightarrow> string \<Rightarrow> int \<Rightarrow>
     cloud_state \<Rightarrow> response outcome" where
  "rotate_credential_body operation device expected_generation expected_credential_id credential
     overlap_seconds idempotency_key request_hash aud s =
      (case dict_get (cs_endpoints s) (dp_endpoint_id device) of
         None \<Rightarrow> raise (Ownership ''endpoint is not owned by authenticated tenant'') s
       | Some endpoint \<Rightarrow>
         if ep_tenant_id endpoint \<noteq> dp_tenant_id device
         then raise (Ownership ''endpoint is not owned by authenticated tenant'') s
         else if expected_generation \<noteq> dp_generation device
              \<or> ep_credential_generation endpoint \<noteq> dp_generation device
         then raise (StateConflict ''credential generation is stale'') s
         else if expected_credential_id \<noteq> dp_credential_id device
         then raise (StateConflict ''credential identifier is stale'') s
         else if cr_generation credential \<noteq> dp_generation device + 1
         then raise (StateConflict ''new credential generation is invalid'') s
         else
           (case find (\<lambda>item. cr_credential_id (snd item) = dp_credential_id device)
                   (cs_credentials s) of
              None \<Rightarrow> raise (StateConflict ''current credential no longer exists'') s
            | Some (current_hash, current) \<Rightarrow>
              if cr_tenant_id current \<noteq> dp_tenant_id device
                 \<or> cr_endpoint_id current \<noteq> dp_endpoint_id device
                 \<or> cr_generation current \<noteq> dp_generation device
              then raise (StateConflict ''authenticated credential is stale'') s
              else
                let overlap_until = cr_issued_at credential + seconds overlap_seconds;
                    s = s\<lparr>cs_credentials := dict_set current_hash
                          (current\<lparr>cr_superseded_at := Some (cr_issued_at credential),
                                   cr_valid_until := Some (min (cr_expires_at current) overlap_until)\<rparr>)
                          (cs_credentials s)\<rparr>;
                    s = s\<lparr>cs_credentials :=
                          dict_set (cr_token_hash credential) credential (cs_credentials s)\<rparr>;
                    s = s\<lparr>cs_endpoints := dict_set (ep_endpoint_id endpoint)
                          (endpoint\<lparr>ep_credential_generation := cr_generation credential,
                                    ep_last_seen_at := cr_issued_at credential\<rparr>)
                          (cs_endpoints s)\<rparr>;
                    s = remember (dp_tenant_id device) operation idempotency_key request_hash
                          (RCredential credential) s;
                    s = audit (dp_tenant_id device) ''ENDPOINT_CREDENTIAL_ROTATED'' ''endpoint''
                          (JStr (dp_endpoint_id device)) ''endpoint'' (JStr (dp_endpoint_id device))
                          [(''generation'', JInt (cr_generation credential))] aud s
                in (Inr (RCredential credential), s)))"

definition rotate_credential ::
    "device_principal \<Rightarrow> int \<Rightarrow> string \<Rightarrow> credential_record \<Rightarrow> int \<Rightarrow> string \<Rightarrow> string \<Rightarrow> int \<Rightarrow>
     cloud_state \<Rightarrow> response outcome" where
  "rotate_credential device expected_generation expected_credential_id credential overlap_seconds
     idempotency_key request_hash aud =
    (let operation = ''rotate:'' @ dp_endpoint_id device in
     idempotent (dp_tenant_id device) operation idempotency_key request_hash
       (rotate_credential_body operation device expected_generation expected_credential_id credential
          overlap_seconds idempotency_key request_hash aud))"

definition list_endpoints ::
    "string \<Rightarrow> int \<Rightarrow> int \<Rightarrow> cloud_state \<Rightarrow> cloud_error + endpoint_record list" where
  "list_endpoints tenant_id limit offset s =
    (if \<not> (1 \<le> limit \<and> limit \<le> 500) \<or> offset < 0
     then Inl (PyError (ValueError ''invalid endpoint page''))
     else Inr (py_page (nat offset) (nat limit)
       (py_sorted_rev ep_enrolled_at
          (filter (\<lambda>e. ep_tenant_id e = tenant_id) (dict_values (cs_endpoints s))))))"

section \<open>Jobs\<close>

definition create_scan_job_body ::
    "string \<Rightarrow> scan_record \<Rightarrow> string \<Rightarrow> string \<Rightarrow> int \<Rightarrow> cloud_state \<Rightarrow> response outcome" where
  "create_scan_job_body tenant_id rec idempotency_key request_hash aud s =
     (if (case dict_get (cs_endpoints s) (sr_endpoint_id rec) of
            None \<Rightarrow> True | Some e \<Rightarrow> ep_tenant_id e \<noteq> tenant_id)
      then raise (NotFound ''endpoint was not found'') s
      else if dict_has (sr_scan_id rec) (cs_scans s)
      then raise (StateConflict ''scan identifier already exists'') s
      else
        let s = s\<lparr>cs_scans := dict_set (sr_scan_id rec) rec (cs_scans s)\<rparr>;
            s = remember tenant_id ''create-scan'' idempotency_key request_hash (RScan rec) s
        in case ebind (subscript (JObj (sr_job_document rec)) ''authorization'')
                  (\<lambda>a. subscript a ''authorization_reference'') of
             Inl e \<Rightarrow> raise (PyError e) s
           | Inr reference \<Rightarrow>
             (Inr (RScan rec),
              audit tenant_id ''SCAN_AUTHORIZED'' ''platform''
                (jget_default (JStr ''platform'') ''initiated_by'' (sr_job_document rec))
                ''scan'' (JStr (sr_scan_id rec))
                [(''endpoint_id'', JStr (sr_endpoint_id rec)), (''authorization_reference'', reference)]
                aud s))"

definition create_scan_job ::
    "string \<Rightarrow> scan_record \<Rightarrow> string \<Rightarrow> string \<Rightarrow> int \<Rightarrow> cloud_state \<Rightarrow> response outcome" where
  "create_scan_job tenant_id rec idempotency_key request_hash aud =
    idempotent tenant_id ''create-scan'' idempotency_key request_hash
      (create_scan_job_body tenant_id rec idempotency_key request_hash aud)"

text \<open>
  The loop of \<open>claim_next_job\<close> over the candidates: expired jobs are closed on the way, the
  first eligible one is leased. The clock is read once for each audit event: \<open>clk n\<close> is the
  time at which event number \<open>n\<close> is appended.
\<close>

fun claim_loop ::
    "runtime \<Rightarrow> device_principal \<Rightarrow> int \<Rightarrow> (nat \<Rightarrow> int) \<Rightarrow> scan_record list \<Rightarrow> cloud_state \<Rightarrow>
     scan_record option outcome" where
  "claim_loop rt device now clk [] s = (Inr None, s)"
| "claim_loop rt device now clk (rec # candidates) s =
    (if sr_tenant_id rec \<noteq> dp_tenant_id device \<or> sr_endpoint_id rec \<noteq> dp_endpoint_id device
        \<or> (sr_state rec \<noteq> ''QUEUED'' \<and> sr_state rec \<noteq> ''DISPATCHED'')
     then claim_loop rt device now clk candidates s
     else case job_dispatch_eligibility rt rec (dp_endpoint_id device) now of
       EXPIRED \<Rightarrow>
         (let s = s\<lparr>cs_scans := dict_set (sr_scan_id rec)
                (rec\<lparr>sr_state := ''EXPIRED'', sr_updated_at := now\<rparr>) (cs_scans s)\<rparr>;
              s = audit (dp_tenant_id device) ''SCAN_EXPIRED'' ''control-plane'' (JStr ''dispatcher'')
                ''scan'' (JStr (sr_scan_id rec)) [] (clk (length (cs_audit_events s) + 1)) s
          in claim_loop rt device now clk candidates s)
     | ELIGIBLE \<Rightarrow>
         (let redispatched = (sr_state rec = ''DISPATCHED'');
              claimed = rec\<lparr>sr_state := ''DISPATCHED'', sr_updated_at := now\<rparr>;
              s = s\<lparr>cs_scans := dict_set (sr_scan_id rec) claimed (cs_scans s)\<rparr>
          in case subscript (JObj (sr_job_document rec)) ''timeout_seconds'' of
               Inl e \<Rightarrow> raise (PyError e) s
             | Inr timeout \<Rightarrow>
               (Inr (Some claimed),
                audit (dp_tenant_id device)
                  (if redispatched then ''SCAN_REDISPATCHED'' else ''SCAN_DISPATCHED'') ''endpoint''
                  (JStr (dp_endpoint_id device)) ''scan'' (JStr (sr_scan_id rec))
                  [(''lease_timeout_seconds'', timeout),
                   (''lease_grace_seconds'', JInt job_dispatch_grace_seconds)]
                  (clk (length (cs_audit_events s) + 1)) s))
     | _ \<Rightarrow> claim_loop rt device now clk candidates s)"

definition claim_next_job ::
    "runtime \<Rightarrow> device_principal \<Rightarrow> int \<Rightarrow> (nat \<Rightarrow> int) \<Rightarrow> cloud_state \<Rightarrow> scan_record option outcome" where
  "claim_next_job rt device now clk s =
    (let s = (case dict_get (cs_endpoints s) (dp_endpoint_id device) of
               None \<Rightarrow> s
             | Some e \<Rightarrow>
               if ep_tenant_id e = dp_tenant_id device
               then s\<lparr>cs_endpoints := dict_set (dp_endpoint_id device)
                      (e\<lparr>ep_last_seen_at := now\<rparr>) (cs_endpoints s)\<rparr>
               else s)
     in claim_loop rt device now clk (sort_key sr_created_at (dict_values (cs_scans s))) s)"

section \<open>Evidence, status, rejection\<close>

definition owned_scan :: "device_principal \<Rightarrow> string \<Rightarrow> cloud_state \<Rightarrow> scan_record option" where
  "owned_scan device scan_id s =
    (case dict_get (cs_scans s) scan_id of
       None \<Rightarrow> None
     | Some rec \<Rightarrow>
       if sr_tenant_id rec \<noteq> dp_tenant_id device \<or> sr_endpoint_id rec \<noteq> dp_endpoint_id device
       then None else Some rec)"

fun task_kind_name :: "task_kind \<Rightarrow> string" where
  "task_kind_name OSV = ''OSV''"
| "task_kind_name DEPSCAN = ''DEPSCAN''"

fun task_state_name :: "task_state \<Rightarrow> string" where
  "task_state_name PENDING = ''PENDING''"
| "task_state_name RUNNING = ''RUNNING''"
| "task_state_name SUCCEEDED = ''SUCCEEDED''"
| "task_state_name RETRY = ''RETRY''"
| "task_state_name FAILED = ''FAILED''"

fun check_tasks :: "device_principal \<Rightarrow> string \<Rightarrow> analysis_task list \<Rightarrow> cloud_state \<Rightarrow> cloud_error + unit" where
  "check_tasks device scan_id [] s = Inr ()"
| "check_tasks device scan_id (task # tasks) s =
    (if at_scan_id task \<noteq> scan_id \<or> at_tenant_id task \<noteq> dp_tenant_id device
        \<or> at_endpoint_id task \<noteq> dp_endpoint_id device
     then Inl (StateConflict ''analysis task does not match accepted scan'')
     else if dict_has (at_task_id task) (cs_tasks s)
     then Inl (StateConflict ''analysis task identifier already exists'')
     else check_tasks device scan_id tasks s)"

fun add_tasks :: "analysis_task list \<Rightarrow> analysis_task pydict \<Rightarrow> analysis_task pydict" where
  "add_tasks [] d = d"
| "add_tasks (task # tasks) d = add_tasks tasks (dict_set (at_task_id task) task d)"

definition ingest_scan_body ::
    "runtime \<Rightarrow> string \<Rightarrow> device_principal \<Rightarrow> string \<Rightarrow> jobj \<Rightarrow> string \<Rightarrow> string \<Rightarrow> analysis_task list \<Rightarrow>
     int \<Rightarrow> int \<Rightarrow> cloud_state \<Rightarrow> response outcome" where
  "ingest_scan_body rt operation device scan_id upload idempotency_key request_hash tasks now aud s =
      (case owned_scan device scan_id s of
         None \<Rightarrow> raise (Ownership ''scan is not owned by authenticated endpoint'') s
       | Some rec \<Rightarrow>
         if sr_upload rec \<noteq> None
         then raise (StateConflict ''scan already has a different accepted upload'') s
         else
           let state_key = (dp_tenant_id device, dp_endpoint_id device) in
           case ebind (validate_scan_upload rt rec upload now) (\<lambda>_.
                ebind (reconstruct_inventory rt (dp_tenant_id device) (dp_endpoint_id device) scan_id
                         (jget ''inventory_sync'' upload)
                         (dict_get (cs_inventory_states s) state_key) now) (\<lambda>reconstruction.
                ebind (check_tasks device scan_id tasks s) (\<lambda>_. Inr reconstruction))) of
             Inl e \<Rightarrow> raise e s
           | Inr (inventory_sync, inventory) \<Rightarrow>
             let accepted_upload = dict_set ''inventory_sync'' (JObj inventory_sync) upload;
                 accepted = rec\<lparr>sr_state := ''ANALYZING'', sr_upload := Some accepted_upload,
                                sr_updated_at := now\<rparr>;
                 s = s\<lparr>cs_scans := dict_set scan_id accepted (cs_scans s),
                       cs_inventory_states := dict_set state_key inventory (cs_inventory_states s),
                       cs_tasks := add_tasks tasks (cs_tasks s)\<rparr>;
                 s = remember (dp_tenant_id device) operation idempotency_key request_hash
                       (RScan accepted) s;
                 s = audit (dp_tenant_id device) ''SCAN_EVIDENCE_ACCEPTED'' ''endpoint''
                       (JStr (dp_endpoint_id device)) ''scan'' (JStr scan_id)
                       [(''analysis_tasks'', JArr (map (\<lambda>t. JStr (task_kind_name (at_kind t))) tasks)),
                        (''inventory_mode'', jget ''mode'' inventory_sync),
                        (''snapshot_hash'', JStr (iv_snapshot_hash inventory))] aud s
             in (Inr (RScan accepted), s))"

definition ingest_scan ::
    "runtime \<Rightarrow> device_principal \<Rightarrow> string \<Rightarrow> jobj \<Rightarrow> string \<Rightarrow> string \<Rightarrow> analysis_task list \<Rightarrow> int \<Rightarrow> int \<Rightarrow>
     cloud_state \<Rightarrow> response outcome" where
  "ingest_scan rt device scan_id upload idempotency_key request_hash tasks now aud =
    (let operation = ''ingest:'' @ scan_id in
     idempotent (dp_tenant_id device) operation idempotency_key request_hash
       (ingest_scan_body rt operation device scan_id upload idempotency_key request_hash tasks now aud))"

definition record_scan_status_body ::
    "string \<Rightarrow> device_principal \<Rightarrow> string \<Rightarrow> jobj \<Rightarrow> string \<Rightarrow> string \<Rightarrow> int \<Rightarrow> int \<Rightarrow> cloud_state \<Rightarrow>
     response outcome" where
  "record_scan_status_body operation device scan_id status idempotency_key request_hash now aud s =
      (case owned_scan device scan_id s of
         None \<Rightarrow> raise (Ownership ''scan is not owned by authenticated endpoint'') s
       | Some rec \<Rightarrow>
         (case validate_scan_status rec status of
            Inl e \<Rightarrow> raise e s
          | Inr _ \<Rightarrow>
            let updated = rec\<lparr>sr_terminal_status := Some status, sr_updated_at := now\<rparr>;
                s = s\<lparr>cs_scans := dict_set scan_id updated (cs_scans s)\<rparr>;
                s = remember (dp_tenant_id device) operation idempotency_key request_hash (RScan updated) s
            in case subscript (JObj status) ''status'' of
                 Inl e \<Rightarrow> raise (PyError e) s
               | Inr value \<Rightarrow>
                 (Inr (RScan updated),
                  audit (dp_tenant_id device) ''SCAN_ENDPOINT_STATUS_ACCEPTED'' ''endpoint''
                    (JStr (dp_endpoint_id device)) ''scan'' (JStr scan_id)
                    [(''status'', value)] aud s)))"

definition record_scan_status ::
    "device_principal \<Rightarrow> string \<Rightarrow> jobj \<Rightarrow> string \<Rightarrow> string \<Rightarrow> int \<Rightarrow> int \<Rightarrow> cloud_state \<Rightarrow> response outcome" where
  "record_scan_status device scan_id status idempotency_key request_hash now aud =
    (let operation = ''scan-status:'' @ scan_id in
     idempotent (dp_tenant_id device) operation idempotency_key request_hash
       (record_scan_status_body operation device scan_id status idempotency_key request_hash now aud))"

text \<open>
  The scan a rejection names: nothing for a missing or empty identifier, an exception for one
  that cannot be a key, otherwise the record under that key if the endpoint owns it.
\<close>

definition rejected_scan ::
    "device_principal \<Rightarrow> json \<Rightarrow> cloud_state \<Rightarrow> cloud_error + (string \<times> scan_record) option" where
  "rejected_scan device scan_id s =
    (if \<not> truthy scan_id then Inr None
     else if \<not> hashable scan_id then Inl (PyError (TypeError ''unhashable type''))
     else case scan_id of
       JStr k \<Rightarrow>
         (case dict_get (cs_scans s) k of
            None \<Rightarrow> Inr None
          | Some rec \<Rightarrow>
            if sr_tenant_id rec \<noteq> dp_tenant_id device \<or> sr_endpoint_id rec \<noteq> dp_endpoint_id device
            then Inl (Ownership ''rejected scan is not owned by endpoint'')
            else Inr (Some (k, rec)))
     | _ \<Rightarrow> Inr None)"

definition record_rejection_body ::
    "string \<Rightarrow> device_principal \<Rightarrow> jobj \<Rightarrow> json \<Rightarrow> string \<Rightarrow> string \<Rightarrow> int \<Rightarrow> int \<Rightarrow> cloud_state \<Rightarrow>
     response outcome" where
  "record_rejection_body operation device payload document idempotency_key request_hash now aud s =
    (let scan_id = jget ''scan_id'' payload in
     case rejected_scan device scan_id s of
       Inl e \<Rightarrow> raise e s
     | Inr found \<Rightarrow>
       let s = (case found of
                  None \<Rightarrow> s
                | Some (k, rec) \<Rightarrow>
                  s\<lparr>cs_scans := dict_set k (rec\<lparr>sr_state := ''REJECTED'', sr_updated_at := now\<rparr>)
                      (cs_scans s)\<rparr>);
           s = s\<lparr>cs_rejections := cs_rejections s @ [payload]\<rparr>;
           s = remember (dp_tenant_id device) operation idempotency_key request_hash RTrue s
       in case subscript (JObj payload) ''reason'' of
            Inl e \<Rightarrow> raise (PyError e) s
          | Inr reason \<Rightarrow>
            (Inr RTrue,
             audit (dp_tenant_id device) ''SCAN_JOB_REJECTED'' ''endpoint''
               (JStr (dp_endpoint_id device)) ''scan''
               (if truthy scan_id then scan_id else document)
               [(''reason'', reason)] aud s))"

definition record_rejection ::
    "runtime \<Rightarrow> device_principal \<Rightarrow> jobj \<Rightarrow> string \<Rightarrow> string \<Rightarrow> int \<Rightarrow> int \<Rightarrow> cloud_state \<Rightarrow> response outcome" where
  "record_rejection rt device payload idempotency_key request_hash now aud s =
    (case subscript (JObj payload) ''document_sha256'' of
       Inl e \<Rightarrow> raise (PyError e) s
     | Inr document \<Rightarrow>
       let operation = ''rejection:'' @ py_str rt document in
       idempotent (dp_tenant_id device) operation idempotency_key request_hash
         (record_rejection_body operation device payload document idempotency_key request_hash now aud) s)"

section \<open>Reads\<close>

definition get_scan_for_endpoint ::
    "device_principal \<Rightarrow> string \<Rightarrow> cloud_state \<Rightarrow> cloud_error + scan_record option" where
  "get_scan_for_endpoint device scan_id s =
    (case dict_get (cs_scans s) scan_id of
       None \<Rightarrow> Inr None
     | Some rec \<Rightarrow>
       if sr_tenant_id rec \<noteq> dp_tenant_id device \<or> sr_endpoint_id rec \<noteq> dp_endpoint_id device
       then Inl (Ownership ''scan is not owned by authenticated endpoint'')
       else Inr (Some rec))"

definition list_scans :: "string \<Rightarrow> int \<Rightarrow> int \<Rightarrow> cloud_state \<Rightarrow> cloud_error + scan_record list" where
  "list_scans tenant_id limit offset s =
    (if \<not> (1 \<le> limit \<and> limit \<le> 500) \<or> offset < 0
     then Inl (PyError (ValueError ''invalid scan page''))
     else Inr (py_page (nat offset) (nat limit)
       (py_sorted_rev sr_created_at
          (filter (\<lambda>r. sr_tenant_id r = tenant_id) (dict_values (cs_scans s))))))"

definition get_scan_for_tenant :: "string \<Rightarrow> string \<Rightarrow> cloud_state \<Rightarrow> scan_record option" where
  "get_scan_for_tenant tenant_id scan_id s =
    (case dict_get (cs_scans s) scan_id of
       None \<Rightarrow> None
     | Some rec \<Rightarrow> if sr_tenant_id rec \<noteq> tenant_id then None else Some rec)"

definition get_final_report :: "string \<Rightarrow> string \<Rightarrow> cloud_state \<Rightarrow> jobj option" where
  "get_final_report tenant_id scan_id s =
    (case dict_get (cs_scans s) scan_id of
       None \<Rightarrow> None
     | Some rec \<Rightarrow> if sr_tenant_id rec \<noteq> tenant_id then None else sr_final_report rec)"

datatype report_lookup = REPORT_NOT_FOUND | REPORT_PENDING | REPORT_READY jobj

definition get_scan_report :: "string \<Rightarrow> string \<Rightarrow> cloud_state \<Rightarrow> report_lookup" where
  "get_scan_report tenant_id scan_id s =
    (case dict_get (cs_scans s) scan_id of
       None \<Rightarrow> REPORT_NOT_FOUND
     | Some rec \<Rightarrow>
       if sr_tenant_id rec \<noteq> tenant_id then REPORT_NOT_FOUND
       else case sr_final_report rec of None \<Rightarrow> REPORT_PENDING | Some report \<Rightarrow> REPORT_READY report)"

definition get_inventory_state :: "string \<Rightarrow> string \<Rightarrow> cloud_state \<Rightarrow> inventory_state option" where
  "get_inventory_state tenant_id endpoint_id s =
    dict_get (cs_inventory_states s) (tenant_id, endpoint_id)"

section \<open>Analysis tasks\<close>

definition sanitize_error :: "string \<Rightarrow> string" where
  "sanitize_error value =
    (let cleaned = map (\<lambda>c. if code_point c \<ge> 32 then c else CHR '' '') value;
         bounded = take 512 cleaned
     in if bounded = [] then ''worker failure'' else bounded)"

definition task_eligible :: "int \<Rightarrow> analysis_task \<Rightarrow> bool" where
  "task_eligible now task \<longleftrightarrow>
    at_state task = PENDING \<or> at_state task = RETRY \<or>
    (at_state task = RUNNING \<and> (case at_lease_expires_at task of None \<Rightarrow> False | Some t \<Rightarrow> t \<le> now))"

definition claim_analysis_task ::
    "task_kind \<Rightarrow> string \<Rightarrow> int \<Rightarrow> int \<Rightarrow> cloud_state \<Rightarrow> analysis_task option outcome" where
  "claim_analysis_task kind worker_id lease_seconds now s =
    (if worker_id = [] \<or> 128 < length worker_id \<or> \<not> (10 \<le> lease_seconds \<and> lease_seconds \<le> 3600)
     then raise (PyError (ValueError ''invalid worker lease request'')) s
     else case find (\<lambda>task. \<not> (at_kind task \<noteq> kind \<or> \<not> task_eligible now task \<or> now < at_available_at task))
                 (sort_key at_created_at (dict_values (cs_tasks s))) of
       None \<Rightarrow> (Inr None, s)
     | Some task \<Rightarrow>
       let claimed = task\<lparr>at_state := RUNNING, at_attempts := at_attempts task + 1,
             at_leased_by := Some worker_id, at_lease_expires_at := Some (now + seconds lease_seconds),
             at_updated_at := now\<rparr>
       in (Inr (Some claimed), s\<lparr>cs_tasks := dict_set (at_task_id task) claimed (cs_tasks s)\<rparr>))"

definition leased_task :: "string \<Rightarrow> string \<Rightarrow> cloud_state \<Rightarrow> cloud_error + analysis_task" where
  "leased_task task_id worker_id s =
    (case dict_get (cs_tasks s) task_id of
       None \<Rightarrow> Inl (NotFound ''analysis task was not found'')
     | Some task \<Rightarrow>
       if at_state task \<noteq> RUNNING \<or> at_leased_by task \<noteq> Some worker_id
       then Inl (StateConflict ''analysis task is not leased by this worker'')
       else Inr task)"

definition complete_analysis_task ::
    "string \<Rightarrow> string \<Rightarrow> jobj \<Rightarrow> int \<Rightarrow> cloud_state \<Rightarrow> unit outcome" where
  "complete_analysis_task task_id worker_id result now s =
    (case leased_task task_id worker_id s of
       Inl e \<Rightarrow> raise e s
     | Inr task \<Rightarrow>
       (Inr (), s\<lparr>cs_tasks := dict_set task_id
          (task\<lparr>at_state := SUCCEEDED, at_result := Some result, at_lease_expires_at := None,
                at_leased_by := None, at_updated_at := now\<rparr>) (cs_tasks s)\<rparr>))"

definition fail_analysis_task ::
    "string \<Rightarrow> string \<Rightarrow> string \<Rightarrow> int \<Rightarrow> bool \<Rightarrow> int \<Rightarrow> cloud_state \<Rightarrow> unit outcome" where
  "fail_analysis_task task_id worker_id error retry_at dead_letter now s =
    (case leased_task task_id worker_id s of
       Inl e \<Rightarrow> raise e s
     | Inr task \<Rightarrow>
       (Inr (), s\<lparr>cs_tasks := dict_set task_id
          (task\<lparr>at_state := (if dead_letter then FAILED else RETRY),
                at_available_at := max now retry_at, at_lease_expires_at := None,
                at_leased_by := None, at_last_error := Some (sanitize_error error),
                at_updated_at := now\<rparr>) (cs_tasks s)\<rparr>))"

record scan_analysis_input =
  ai_tenant_id :: string
  ai_endpoint_id :: string
  ai_scan_id :: string
  ai_upload :: jobj

definition get_scan_analysis_input :: "string \<Rightarrow> cloud_state \<Rightarrow> scan_analysis_input option" where
  "get_scan_analysis_input scan_id s =
    (case dict_get (cs_scans s) scan_id of
       None \<Rightarrow> None
     | Some rec \<Rightarrow>
       (case sr_upload rec of
          None \<Rightarrow> None
        | Some upload \<Rightarrow> Some \<lparr> ai_tenant_id = sr_tenant_id rec, ai_endpoint_id = sr_endpoint_id rec,
            ai_scan_id = scan_id, ai_upload = upload \<rparr>))"

fun task_kind_lower :: "task_kind \<Rightarrow> string" where
  "task_kind_lower OSV = ''osv''"
| "task_kind_lower DEPSCAN = ''depscan''"

fun analysis_results :: "string \<Rightarrow> analysis_task list \<Rightarrow> (task_kind \<times> jobj) list \<Rightarrow> (task_kind \<times> jobj) list" where
  "analysis_results scan_id [] results = results"
| "analysis_results scan_id (task # tasks) results =
    analysis_results scan_id tasks
      (if at_scan_id task \<noteq> scan_id then results
       else if at_state task = SUCCEEDED \<and> at_result task \<noteq> None
         then dict_set (at_kind task) (case at_result task of None \<Rightarrow> [] | Some r \<Rightarrow> r) results
       else if at_state task = FAILED
         then dict_set (at_kind task)
           [(''tool'', JStr (task_kind_lower (at_kind task))), (''status'', JStr ''FAILED''),
            (''error'', JStr (case at_last_error task of
                 None \<Rightarrow> ''analysis task reached dead letter state''
               | Some e \<Rightarrow> if e = [] then ''analysis task reached dead letter state'' else e)),
            (''attempts'', JInt (int (at_attempts task)))] results
       else results)"

definition list_scan_analysis_results :: "string \<Rightarrow> cloud_state \<Rightarrow> (task_kind \<times> jobj) list" where
  "list_scan_analysis_results scan_id s = analysis_results scan_id (dict_values (cs_tasks s)) []"

section \<open>Final reports\<close>

text \<open>\<open>{task.kind: task.state for task in tasks if task.scan_id == scan_id}\<close>: the last one wins.\<close>

fun collect_states :: "string \<Rightarrow> analysis_task list \<Rightarrow> (task_kind \<times> task_state) list \<Rightarrow>
    (task_kind \<times> task_state) list" where
  "collect_states scan_id [] d = d"
| "collect_states scan_id (task # tasks) d =
    collect_states scan_id tasks
      (if at_scan_id task = scan_id then dict_set (at_kind task) (at_state task) d else d)"

definition task_states :: "string \<Rightarrow> cloud_state \<Rightarrow> (task_kind \<times> task_state) list" where
  "task_states scan_id s = collect_states scan_id (dict_values (cs_tasks s)) []"

definition terminal_task_state :: "task_state \<Rightarrow> bool" where
  "terminal_task_state st \<longleftrightarrow> st = SUCCEEDED \<or> st = FAILED"

definition all_tasks_terminal :: "(task_kind \<times> task_state) list \<Rightarrow> bool" where
  "all_tasks_terminal d \<longleftrightarrow>
    set (map fst d) = {OSV, DEPSCAN} \<and> (\<forall>st \<in> set (map snd d). terminal_task_state st)"

definition next_scan_ready_for_finalization :: "cloud_state \<Rightarrow> string option" where
  "next_scan_ready_for_finalization s =
    map_option sr_scan_id
      (find (\<lambda>rec. \<not> (sr_state rec \<noteq> ''ANALYZING'' \<or> sr_final_report rec \<noteq> None)
               \<and> all_tasks_terminal (task_states (sr_scan_id rec) s))
         (sort_key sr_updated_at (dict_values (cs_scans s))))"

definition finalize_scan_report :: "string \<Rightarrow> jobj \<Rightarrow> int \<Rightarrow> int \<Rightarrow> cloud_state \<Rightarrow> unit outcome" where
  "finalize_scan_report scan_id report now aud s =
    (case dict_get (cs_scans s) scan_id of
       None \<Rightarrow> raise (NotFound ''scan was not found'') s
     | Some rec \<Rightarrow>
       (case sr_final_report rec of
          Some existing \<Rightarrow>
            if py_eq (JObj existing) (JObj report) then (Inr (), s)
            else raise (StateConflict ''scan already has a different final report'') s
        | None \<Rightarrow>
            let states = task_states scan_id s in
            if \<not> all_tasks_terminal states
            then raise (StateConflict ''all expected analysis tasks must be terminal'') s
            else
              let s = s\<lparr>cs_scans := dict_set scan_id
                    (rec\<lparr>sr_state := ''COMPLETE'', sr_final_report := Some report, sr_updated_at := now\<rparr>)
                    (cs_scans s)\<rparr>;
                  s = audit (sr_tenant_id rec) ''SCAN_REPORT_FINALIZED'' ''worker'' (JStr ''normalizer'')
                    ''scan'' (JStr scan_id)
                    [(''analysis_states'', JObj (map (\<lambda>(k, st). (task_kind_name k, JStr (task_state_name st))) states))]
                    aud s
              in (Inr (), s)))"

definition failed_normalization_report :: "runtime \<Rightarrow> scan_record \<Rightarrow> string \<Rightarrow> int \<Rightarrow> jobj" where
  "failed_normalization_report rt rec error t =
    (let message = sanitize_error error; completed_at = rt_isoformat rt t in
     [(''schema_version'', JStr ''1.0''),
      (''report_type'', JStr ''CLOUD_ENDPOINT_SECURITY_REPORT''),
      (''report_id'', JStr (''cloud-report:'' @ sr_scan_id rec)),
      (''tenant_id'', JStr (sr_tenant_id rec)),
      (''endpoint_id'', JStr (sr_endpoint_id rec)),
      (''scan_id'', JStr (sr_scan_id rec)),
      (''status'', JStr ''FAILED''),
      (''analysis_completed_at'', JStr completed_at),
      (''endpoint_evidence'', JObj []),
      (''cloud_analysis'', JObj [(''vulnerabilities'', JArr []), (''tools'', JObj [])]),
      (''summary'', JObj [(''status'', JStr ''FAILED''), (''vulnerability_count'', JInt 0),
         (''vulnerabilities_by_severity'', JObj []), (''successful_tools'', JArr []),
         (''degraded_tools'', JArr [JStr ''REPORT_NORMALIZATION''])]),
      (''completeness'', JObj [(''complete'', JBool False), (''fixture_mode'', JBool False),
         (''gaps'', JArr [JStr ''cloud report normalization failed''])]),
      (''errors'', JArr [JObj [(''code'', JStr ''REPORT_NORMALIZATION_FAILED''), (''message'', JStr message)]]),
      (''provenance'', JObj [(''normalization_failure_recorded_at'', JStr completed_at)])])"

definition finalize_scan_report_failure ::
    "runtime \<Rightarrow> string \<Rightarrow> string \<Rightarrow> int \<Rightarrow> int \<Rightarrow> int \<Rightarrow> cloud_state \<Rightarrow> unit outcome" where
  "finalize_scan_report_failure rt scan_id error completed now aud s =
    (case dict_get (cs_scans s) scan_id of
       None \<Rightarrow> raise (NotFound ''scan was not found'') s
     | Some rec \<Rightarrow>
       if sr_final_report rec \<noteq> None then (Inr (), s)
       else
         let report = failed_normalization_report rt rec error completed;
             s = s\<lparr>cs_scans := dict_set scan_id
               (rec\<lparr>sr_state := ''COMPLETE'', sr_final_report := Some report, sr_updated_at := now\<rparr>)
               (cs_scans s)\<rparr>;
             s = audit (sr_tenant_id rec) ''SCAN_REPORT_NORMALIZATION_FAILED'' ''worker''
               (JStr ''normalizer'') ''scan'' (JStr scan_id)
               [(''error'', JStr (sanitize_error error))] aud s
         in (Inr (), s))"

end
