(* ===== verification/Cloud_Effects.thy ===== *)
theory Cloud_Effects
  imports Cloud_Repository
begin

text \<open>
  The effect of every operation of the repository that changes state: either nothing changed, or
  the guards passed and the state is the one written here. The invariants are proved from these
  rules and never open the definitions again.
\<close>

lemma idempotent_effect:
  assumes "idempotent t oper k d body s = (r, s')"
  shows "s' = s \<or> dict_get (cs_idempotency s) (t, oper, k) = None \<and> body s = (r, s')"
  using assms by (auto simp: idempotent_def replay_None_iff split: sum.splits option.splits)

section \<open>Grants, enrollment, rotation\<close>

lemma create_enrollment_grant_body_effect:
  assumes "create_enrollment_grant_body rt oper g key d aud s = (r, s')"
  shows "s' = s \<or>
    (r = Inr (RGrant g) \<and> dict_get (cs_enrollment_grants s) (eg_token_hash g) = None \<and>
     (\<exists>details. s' = audit (eg_tenant_id g) ''ENDPOINT_ENROLLMENT_GRANT_CREATED'' ''platform''
         (JStr (eg_issued_by g)) ''enrollment-grant'' (JStr (eg_grant_id g)) details aud
         (remember (eg_tenant_id g) oper key d (RGrant g)
           (s\<lparr>cs_enrollment_grants := dict_set (eg_token_hash g) g (cs_enrollment_grants s)\<rparr>))))"
  using assms by (auto simp: create_enrollment_grant_body_def dict_has_iff Let_def split: if_splits)

lemma check_grant_Inr:
  assumes "check_grant t ep c gh s = Inr grant"
  shows "case gh of
      None \<Rightarrow> grant = None
    | Some h \<Rightarrow> \<exists>g. grant = Some g \<and> dict_get (cs_enrollment_grants s) h = Some g \<and> eg_tenant_id g = t
        \<and> cr_issued_at c < eg_expires_at g \<and> eg_consumed_at g = None
        \<and> (eg_os_family g = None \<or> eg_os_family g = Some (ep_os_family ep))"
  using assms by (auto simp: check_grant_def split: option.splits if_splits)

lemma enroll_endpoint_body_effect:
  assumes "enroll_endpoint_body t ep c key d gh aud s = (r, s')"
  shows "s' = s \<or>
    (r = Inr (RCredential c) \<and> dict_get (cs_endpoints s) (ep_endpoint_id ep) = None \<and>
     dict_get (cs_credentials s) (cr_token_hash c) = None \<and>
     (\<exists>grant actor_type actor. check_grant t ep c gh s = Inr grant \<and>
       s' = audit t ''ENDPOINT_ENROLLED'' actor_type actor ''endpoint'' (JStr (ep_endpoint_id ep)) [] aud
         (remember t ''enroll'' key d (RCredential c)
           (s\<lparr>cs_endpoints := dict_set (ep_endpoint_id ep) ep (cs_endpoints s),
              cs_credentials := dict_set (cr_token_hash c) c (cs_credentials s),
              cs_enrollment_grants := consume_grant gh grant (cr_issued_at c) (ep_endpoint_id ep)
                (cs_enrollment_grants s)\<rparr>))))"
  using assms
  by (auto simp: enroll_endpoint_body_def dict_has_iff Let_def split: if_splits sum.splits)

lemma rotate_credential_body_effect:
  assumes "rotate_credential_body oper dev eg ec c ov key d aud s = (r, s')"
  shows "s' = s \<or>
    (\<exists>ep h cur. r = Inr (RCredential c) \<and>
     dict_get (cs_endpoints s) (dp_endpoint_id dev) = Some ep \<and> ep_tenant_id ep = dp_tenant_id dev \<and>
     eg = dp_generation dev \<and> ec = dp_credential_id dev \<and>
     ep_credential_generation ep = dp_generation dev \<and> cr_generation c = dp_generation dev + 1 \<and>
     (h, cur) \<in> set (cs_credentials s) \<and> cr_credential_id cur = dp_credential_id dev \<and>
     cr_tenant_id cur = dp_tenant_id dev \<and> cr_endpoint_id cur = dp_endpoint_id dev \<and>
     cr_generation cur = dp_generation dev \<and>
     s' = audit (dp_tenant_id dev) ''ENDPOINT_CREDENTIAL_ROTATED'' ''endpoint''
         (JStr (dp_endpoint_id dev)) ''endpoint'' (JStr (dp_endpoint_id dev))
         [(''generation'', JInt (cr_generation c))] aud
         (remember (dp_tenant_id dev) oper key d (RCredential c)
           (s\<lparr>cs_credentials := dict_set (cr_token_hash c) c (dict_set h
                (cur\<lparr>cr_superseded_at := Some (cr_issued_at c),
                     cr_valid_until := Some (min (cr_expires_at cur) (cr_issued_at c + seconds ov))\<rparr>)
                (cs_credentials s)),
              cs_endpoints := dict_set (ep_endpoint_id ep)
                (ep\<lparr>ep_credential_generation := cr_generation c, ep_last_seen_at := cr_issued_at c\<rparr>)
                (cs_endpoints s)\<rparr>)))"
proof (cases "s' = s")
  case False
  then obtain ep where ep: "dict_get (cs_endpoints s) (dp_endpoint_id dev) = Some ep"
    using assms by (cases "dict_get (cs_endpoints s) (dp_endpoint_id dev)") (auto simp: rotate_credential_body_def)
  obtain h cur where cur: "find (\<lambda>item. cr_credential_id (snd item) = dp_credential_id dev)
      (cs_credentials s) = Some (h, cur)"
    using assms False ep
    by (cases "find (\<lambda>item. cr_credential_id (snd item) = dp_credential_id dev) (cs_credentials s)")
      (auto simp: rotate_credential_body_def split: if_splits)
  have guards: "ep_tenant_id ep = dp_tenant_id dev" "eg = dp_generation dev" "ec = dp_credential_id dev"
    "ep_credential_generation ep = dp_generation dev" "cr_generation c = dp_generation dev + 1"
    "cr_tenant_id cur = dp_tenant_id dev" "cr_endpoint_id cur = dp_endpoint_id dev"
    "cr_generation cur = dp_generation dev"
    using assms False ep cur by (auto simp: rotate_credential_body_def split: if_splits)
  show ?thesis
    apply (rule disjI2)
    apply (rule exI [of _ ep], rule exI [of _ h], rule exI [of _ cur])
    using assms ep cur guards find_SomeD [OF cur] by (simp add: rotate_credential_body_def)
qed simp

section \<open>Jobs, evidence, status, rejection\<close>

text \<open>An exception raised while the audit event is built leaves the rest of the effect in place.\<close>

definition maybe_audited :: "cloud_state \<Rightarrow> cloud_state \<Rightarrow> bool" where
  "maybe_audited s s' \<longleftrightarrow> s' = s \<or> (\<exists>t e a ai r ri d n. s' = audit t e a ai r ri d n s)"

lemma maybe_audited_frame [simp]:
  assumes "maybe_audited s s'"
  shows "cs_endpoints s' = cs_endpoints s" "cs_credentials s' = cs_credentials s"
    "cs_enrollment_grants s' = cs_enrollment_grants s" "cs_scans s' = cs_scans s"
    "cs_inventory_states s' = cs_inventory_states s" "cs_tasks s' = cs_tasks s"
    "cs_rejections s' = cs_rejections s" "cs_idempotency s' = cs_idempotency s"
    "\<exists>ev. cs_audit_events s' = cs_audit_events s @ ev"
  using assms by (auto simp: maybe_audited_def)

lemma maybe_audited_simps [simp]:
  "maybe_audited s s" "maybe_audited s (audit t e a ai r ri d n s)"
  unfolding maybe_audited_def by (rule disjI1, rule refl) (rule disjI2, intro exI, rule refl)

lemma create_scan_job_body_effect:
  assumes "create_scan_job_body t rec key d aud s = (r, s')"
  shows "s' = s \<or>
    (\<exists>ep. dict_get (cs_endpoints s) (sr_endpoint_id rec) = Some ep \<and> ep_tenant_id ep = t \<and>
     dict_get (cs_scans s) (sr_scan_id rec) = None \<and>
     maybe_audited (remember t ''create-scan'' key d (RScan rec)
       (s\<lparr>cs_scans := dict_set (sr_scan_id rec) rec (cs_scans s)\<rparr>)) s')"
proof (cases "s' = s")
  case False
  obtain ep where ep: "dict_get (cs_endpoints s) (sr_endpoint_id rec) = Some ep" "ep_tenant_id ep = t"
    using assms False by (cases "dict_get (cs_endpoints s) (sr_endpoint_id rec)")
      (auto simp: create_scan_job_body_def split: if_splits)
  have fresh: "dict_get (cs_scans s) (sr_scan_id rec) = None"
    using assms False ep by (cases "dict_get (cs_scans s) (sr_scan_id rec)")
      (simp_all add: create_scan_job_body_def dict_has_iff)
  have "maybe_audited (remember t ''create-scan'' key d (RScan rec)
       (s\<lparr>cs_scans := dict_set (sr_scan_id rec) rec (cs_scans s)\<rparr>)) s'"
    using assms ep fresh
    by (auto simp: create_scan_job_body_def dict_has_iff Let_def split: sum.splits)
  with ep fresh show ?thesis by blast
qed simp

lemma owned_scan_Some:
  "owned_scan dev k s = Some rec \<longleftrightarrow> dict_get (cs_scans s) k = Some rec
    \<and> sr_tenant_id rec = dp_tenant_id dev \<and> sr_endpoint_id rec = dp_endpoint_id dev"
  by (auto simp: owned_scan_def split: option.splits if_splits)

lemma ingest_scan_body_effect:
  assumes "ingest_scan_body rt oper dev k u key d tasks now aud s = (r, s')"
  shows "s' = s \<or>
    (\<exists>rec sync inv acc. owned_scan dev k s = Some rec \<and> sr_upload rec = None \<and>
     validate_scan_upload rt rec u now = Inr () \<and>
     reconstruct_inventory rt (dp_tenant_id dev) (dp_endpoint_id dev) k (jget ''inventory_sync'' u)
       (dict_get (cs_inventory_states s) (dp_tenant_id dev, dp_endpoint_id dev)) now = Inr (sync, inv) \<and>
     check_tasks dev k tasks s = Inr () \<and>
     acc = rec\<lparr>sr_state := ''ANALYZING'', sr_upload := Some (dict_set ''inventory_sync'' (JObj sync) u),
               sr_updated_at := now\<rparr> \<and>
     r = Inr (RScan acc) \<and>
     maybe_audited (remember (dp_tenant_id dev) oper key d (RScan acc)
       (s\<lparr>cs_scans := dict_set k acc (cs_scans s),
          cs_inventory_states := dict_set (dp_tenant_id dev, dp_endpoint_id dev) inv (cs_inventory_states s),
          cs_tasks := add_tasks tasks (cs_tasks s)\<rparr>)) s')"
  using assms
  by (auto simp: ingest_scan_body_def Let_def ebind_Inr_iff split: if_splits option.splits sum.splits)

lemma record_scan_status_body_effect:
  assumes "record_scan_status_body oper dev k st key d now aud s = (r, s')"
  shows "s' = s \<or>
    (\<exists>rec upd. owned_scan dev k s = Some rec \<and> validate_scan_status rec st = Inr () \<and>
     upd = rec\<lparr>sr_terminal_status := Some st, sr_updated_at := now\<rparr> \<and>
     maybe_audited (remember (dp_tenant_id dev) oper key d (RScan upd)
       (s\<lparr>cs_scans := dict_set k upd (cs_scans s)\<rparr>)) s')"
  using assms
  by (auto simp: record_scan_status_body_def Let_def split: option.splits sum.splits)

lemma rejected_scan_Some:
  "rejected_scan dev v s = Inr (Some (k, rec)) \<Longrightarrow> v = JStr k \<and> dict_get (cs_scans s) k = Some rec
    \<and> sr_tenant_id rec = dp_tenant_id dev \<and> sr_endpoint_id rec = dp_endpoint_id dev"
  by (auto simp: rejected_scan_def split: if_splits json.splits option.splits)

lemma record_rejection_body_effect:
  assumes "record_rejection_body oper dev p doc key d now aud s = (r, s')"
  shows "s' = s \<or>
    maybe_audited (remember (dp_tenant_id dev) oper key d RTrue
      (s\<lparr>cs_rejections := cs_rejections s @ [p]\<rparr>)) s' \<or>
    (\<exists>k rec. rejected_scan dev (jget ''scan_id'' p) s = Inr (Some (k, rec)) \<and>
     maybe_audited (remember (dp_tenant_id dev) oper key d RTrue
      (s\<lparr>cs_scans := dict_set k (rec\<lparr>sr_state := ''REJECTED'', sr_updated_at := now\<rparr>) (cs_scans s),
         cs_rejections := cs_rejections s @ [p]\<rparr>)) s')"
  using assms
  by (auto simp: record_rejection_body_def Let_def split: option.splits sum.splits)

section \<open>Analysis tasks and reports\<close>

lemma claim_analysis_task_effect:
  assumes "claim_analysis_task kind w secs now s = (r, s')"
  shows "s' = s \<or>
    (\<exists>task c. task \<in> set (dict_values (cs_tasks s)) \<and> at_kind task = kind \<and> task_eligible now task \<and>
     at_available_at task \<le> now \<and>
     c = task\<lparr>at_state := RUNNING, at_attempts := at_attempts task + 1, at_leased_by := Some w,
              at_lease_expires_at := Some (now + seconds secs), at_updated_at := now\<rparr> \<and>
     r = Inr (Some c) \<and> s' = s\<lparr>cs_tasks := dict_set (at_task_id task) c (cs_tasks s)\<rparr>)"
  using assms
  by (auto simp: claim_analysis_task_def Let_def split: if_splits option.splits dest!: find_SomeD)

lemma leased_task_Inr:
  "leased_task k w s = Inr t \<longleftrightarrow> dict_get (cs_tasks s) k = Some t \<and> at_state t = RUNNING \<and> at_leased_by t = Some w"
  by (auto simp: leased_task_def split: option.splits if_splits)

lemma complete_analysis_task_effect:
  assumes "complete_analysis_task k w res now s = (r, s')"
  shows "s' = s \<or>
    (\<exists>t. leased_task k w s = Inr t \<and>
     s' = s\<lparr>cs_tasks := dict_set k (t\<lparr>at_state := SUCCEEDED, at_result := Some res,
        at_lease_expires_at := None, at_leased_by := None, at_updated_at := now\<rparr>) (cs_tasks s)\<rparr>)"
  using assms by (auto simp: complete_analysis_task_def split: sum.splits)

lemma fail_analysis_task_effect:
  assumes "fail_analysis_task k w err retry dead now s = (r, s')"
  shows "s' = s \<or>
    (\<exists>t. leased_task k w s = Inr t \<and>
     s' = s\<lparr>cs_tasks := dict_set k (t\<lparr>at_state := (if dead then FAILED else RETRY),
        at_available_at := max now retry, at_lease_expires_at := None, at_leased_by := None,
        at_last_error := Some (sanitize_error err), at_updated_at := now\<rparr>) (cs_tasks s)\<rparr>)"
  using assms by (auto simp: fail_analysis_task_def split: sum.splits)

lemma finalize_scan_report_effect:
  assumes "finalize_scan_report k rep now aud s = (r, s')"
  shows "s' = s \<or>
    (\<exists>rec. dict_get (cs_scans s) k = Some rec \<and> sr_final_report rec = None \<and>
     all_tasks_terminal (task_states k s) \<and>
     maybe_audited (s\<lparr>cs_scans := dict_set k
        (rec\<lparr>sr_state := ''COMPLETE'', sr_final_report := Some rep, sr_updated_at := now\<rparr>) (cs_scans s)\<rparr>) s')"
  using assms
  by (auto simp: finalize_scan_report_def Let_def split: option.splits if_splits)

lemma finalize_scan_report_failure_effect:
  assumes "finalize_scan_report_failure rt k err ct now aud s = (r, s')"
  shows "s' = s \<or>
    (\<exists>rec. dict_get (cs_scans s) k = Some rec \<and> sr_final_report rec = None \<and>
     maybe_audited (s\<lparr>cs_scans := dict_set k
        (rec\<lparr>sr_state := ''COMPLETE'', sr_final_report := Some (failed_normalization_report rt rec err ct),
             sr_updated_at := now\<rparr>) (cs_scans s)\<rparr>) s')"
  using assms
  by (auto simp: finalize_scan_report_failure_def Let_def split: option.splits if_splits)

end
