(* ===== verification/Cloud_Invariants.thy ===== *)
theory Cloud_Invariants
  imports Cloud_Effects "HOL-Library.Sublist"
begin

text \<open>
  What every row of the repository's tables satisfies, which parts of a row never change, and
  that the operations keep both.
\<close>

section \<open>Rows\<close>

definition open_states :: "string set" where
  "open_states = {''QUEUED'', ''DISPATCHED'', ''EXPIRED''}"

definition scan_states :: "string set" where
  "scan_states = open_states \<union> {''ANALYZING'', ''COMPLETE'', ''REJECTED''}"

text \<open>Accepted evidence names the scan and the endpoint of its record.\<close>

definition evidence_of :: "scan_record \<Rightarrow> jobj \<Rightarrow> bool" where
  "evidence_of rec upload \<longleftrightarrow> (\<exists>result. jget ''result'' upload = JObj result
     \<and> jget ''scan_id'' result = JStr (sr_scan_id rec)
     \<and> jget ''endpoint_id'' result = JStr (sr_endpoint_id rec))"

definition scan_ok :: "string \<Rightarrow> scan_record \<Rightarrow> bool" where
  "scan_ok k rec \<longleftrightarrow> sr_scan_id rec = k \<and> sr_state rec \<in> scan_states
     \<and> (sr_state rec \<in> open_states \<longrightarrow> sr_upload rec = None \<and> sr_final_report rec = None)
     \<and> (sr_state rec = ''ANALYZING'' \<longrightarrow> sr_upload rec \<noteq> None \<and> sr_final_report rec = None)
     \<and> (sr_state rec = ''COMPLETE'' \<longrightarrow> sr_final_report rec \<noteq> None)
     \<and> (sr_terminal_status rec \<noteq> None \<longrightarrow> sr_upload rec \<noteq> None)
     \<and> (\<forall>u. sr_upload rec = Some u \<longrightarrow> evidence_of rec u)"

definition once_set :: "'a option \<Rightarrow> 'a option \<Rightarrow> bool" where
  [simp]: "once_set old new \<longleftrightarrow> old = None \<or> new = old"

definition scan_keeps :: "scan_record \<Rightarrow> scan_record \<Rightarrow> bool" where
  "scan_keeps a b \<longleftrightarrow> sr_tenant_id b = sr_tenant_id a \<and> sr_endpoint_id b = sr_endpoint_id a
     \<and> sr_scan_id b = sr_scan_id a \<and> sr_job_id b = sr_job_id a
     \<and> sr_job_document b = sr_job_document a \<and> sr_created_at b = sr_created_at a
     \<and> once_set (sr_upload a) (sr_upload b) \<and> once_set (sr_terminal_status a) (sr_terminal_status b)
     \<and> once_set (sr_final_report a) (sr_final_report b)
     \<and> (sr_state b \<in> {''QUEUED'', ''DISPATCHED''} \<longrightarrow> sr_state a \<in> {''QUEUED'', ''DISPATCHED''})"

definition task_ok :: "string \<Rightarrow> analysis_task \<Rightarrow> bool" where
  "task_ok k t \<longleftrightarrow> at_task_id t = k
     \<and> (at_state t = RUNNING \<longleftrightarrow> at_leased_by t \<noteq> None)
     \<and> (at_leased_by t \<noteq> None \<longleftrightarrow> at_lease_expires_at t \<noteq> None)
     \<and> (at_state t = SUCCEEDED \<longleftrightarrow> at_result t \<noteq> None)
     \<and> (at_state t \<noteq> PENDING \<longrightarrow> 0 < at_attempts t)
     \<and> (at_state t = FAILED \<longrightarrow> at_last_error t \<noteq> None)"

definition task_keeps :: "analysis_task \<Rightarrow> analysis_task \<Rightarrow> bool" where
  "task_keeps a b \<longleftrightarrow> at_task_id b = at_task_id a \<and> at_tenant_id b = at_tenant_id a
     \<and> at_endpoint_id b = at_endpoint_id a \<and> at_scan_id b = at_scan_id a \<and> at_kind b = at_kind a
     \<and> at_attempts a \<le> at_attempts b \<and> (terminal_task_state (at_state a) \<longrightarrow> b = a)"

definition inventory_ok :: "runtime \<Rightarrow> string \<times> string \<Rightarrow> inventory_state \<Rightarrow> bool" where
  "inventory_ok rt k iv \<longleftrightarrow> (iv_tenant_id iv, iv_endpoint_id iv) = k
     \<and> snapshot_hash rt (iv_snapshot iv) = Inr (iv_snapshot_hash iv)
     \<and> length (iv_snapshot iv) \<le> max_inventory_sections
     \<and> length (iv_snapshot_hash iv) = 64 \<and> (\<forall>c \<in> set (iv_snapshot_hash iv). lower_hex_digit c)"

definition grant_ok :: "string \<Rightarrow> enrollment_grant \<Rightarrow> bool" where
  "grant_ok k g \<longleftrightarrow> eg_token_hash g = k \<and> (eg_consumed_at g = None \<longleftrightarrow> eg_endpoint_id g = None)"

definition grant_keeps :: "enrollment_grant \<Rightarrow> enrollment_grant \<Rightarrow> bool" where
  "grant_keeps a b \<longleftrightarrow> eg_tenant_id b = eg_tenant_id a \<and> eg_grant_id b = eg_grant_id a
     \<and> eg_token_hash b = eg_token_hash a \<and> eg_issued_by b = eg_issued_by a
     \<and> eg_issued_at b = eg_issued_at a \<and> eg_expires_at b = eg_expires_at a
     \<and> eg_os_family b = eg_os_family a \<and> eg_label b = eg_label a
     \<and> (eg_consumed_at a \<noteq> None \<longrightarrow>
          eg_consumed_at b = eg_consumed_at a \<and> eg_endpoint_id b = eg_endpoint_id a)"

definition endpoint_keeps :: "endpoint_record \<Rightarrow> endpoint_record \<Rightarrow> bool" where
  "endpoint_keeps a b \<longleftrightarrow> ep_endpoint_id b = ep_endpoint_id a \<and> ep_tenant_id b = ep_tenant_id a
     \<and> ep_credential_generation a \<le> ep_credential_generation b"

definition endpoint_ok :: "string \<Rightarrow> endpoint_record \<Rightarrow> bool" where
  "endpoint_ok k e \<longleftrightarrow> ep_endpoint_id e = k"

lemma keeps_refl [simp, intro]:
  "scan_keeps a a" "task_keeps t t" "grant_keeps g g" "endpoint_keeps e e"
  by (auto simp: scan_keeps_def task_keeps_def grant_keeps_def endpoint_keeps_def)

lemma scan_keeps_trans: "scan_keeps a b \<Longrightarrow> scan_keeps b c \<Longrightarrow> scan_keeps a c"
  unfolding scan_keeps_def once_set_def by metis

lemma task_keeps_trans: "task_keeps a b \<Longrightarrow> task_keeps b c \<Longrightarrow> task_keeps a c"
  unfolding task_keeps_def by (metis order_trans)

lemma grant_keeps_trans: "grant_keeps a b \<Longrightarrow> grant_keeps b c \<Longrightarrow> grant_keeps a c"
  unfolding grant_keeps_def by metis

lemma endpoint_keeps_trans: "endpoint_keeps a b \<Longrightarrow> endpoint_keeps b c \<Longrightarrow> endpoint_keeps a c"
  by (auto simp: endpoint_keeps_def)

section \<open>The dispatch loop\<close>

text \<open>
  The candidates are the current rows, each once. The loop leaves the other tables alone, and a
  row it writes is one of the candidates, closed or dispatched.
\<close>

lemma claim_loop_frame_of:
  assumes scans: "\<And>s d. f (s\<lparr>cs_scans := d\<rparr>) = f s"
    and events: "\<And>t e a ai r ri d n s. f (audit t e a ai r ri d n s) = f s"
  shows "f (snd (claim_loop rt dev now clk cs s)) = f s"
proof (induction rt dev now clk cs s rule: claim_loop.induct)
  case (2 rt dev now clk rec cs s)
  then show ?case
    by (cases "job_dispatch_eligibility rt rec (dp_endpoint_id dev) now")
      (simp_all add: Let_def scans events split: sum.split)
qed simp

lemma claim_loop_frame:
  "cs_endpoints (snd (claim_loop rt dev now clk cs s)) = cs_endpoints s"
  "cs_credentials (snd (claim_loop rt dev now clk cs s)) = cs_credentials s"
  "cs_enrollment_grants (snd (claim_loop rt dev now clk cs s)) = cs_enrollment_grants s"
  "cs_inventory_states (snd (claim_loop rt dev now clk cs s)) = cs_inventory_states s"
  "cs_tasks (snd (claim_loop rt dev now clk cs s)) = cs_tasks s"
  "cs_rejections (snd (claim_loop rt dev now clk cs s)) = cs_rejections s"
  "cs_idempotency (snd (claim_loop rt dev now clk cs s)) = cs_idempotency s"
  by (rule claim_loop_frame_of; simp)+

lemma claim_loop_audit:
  "prefix (cs_audit_events s) (cs_audit_events (snd (claim_loop rt dev now clk cs s)))"
proof (induction rt dev now clk cs s rule: claim_loop.induct)
  case (2 rt dev now clk rec cs s)
  then show ?case
    by (simp add: Let_def split: eligibility.split sum.split) (meson append_prefixD)
qed simp

lemma claim_loop_scans [consumes 2, case_names stop update]:
  assumes "distinct (map sr_scan_id cs)"
    and "\<And>rec. rec \<in> set cs \<Longrightarrow> dict_get (cs_scans s) (sr_scan_id rec) = Some rec"
    and "\<And>d. P d d"
    and "\<And>d rec st d'. dict_get d (sr_scan_id rec) = Some rec \<Longrightarrow> rec \<in> set cs
        \<Longrightarrow> sr_tenant_id rec = dp_tenant_id dev \<Longrightarrow> sr_endpoint_id rec = dp_endpoint_id dev
        \<Longrightarrow> sr_state rec = ''QUEUED'' \<or> sr_state rec = ''DISPATCHED''
        \<Longrightarrow> st = ''EXPIRED'' \<or> (st = ''DISPATCHED'' \<and> job_dispatch_eligibility rt rec (dp_endpoint_id dev) now = ELIGIBLE)
        \<Longrightarrow> P (dict_set (sr_scan_id rec) (rec\<lparr>sr_state := st, sr_updated_at := now\<rparr>) d) d' \<Longrightarrow> P d d'"
  shows "P (cs_scans s) (cs_scans (snd (claim_loop rt dev now clk cs s)))"
  using assms
proof (induction rt dev now clk cs s rule: claim_loop.induct)
  case (1 rt dev now clk s)
  then show ?case by simp
next
  case (2 rt dev now clk rec cs s)
  note step = "2.prems"(4) and cur = "2.prems"(2) and fresh = "2.prems"(1)
  show ?case
  proof (cases "sr_tenant_id rec \<noteq> dp_tenant_id dev \<or> sr_endpoint_id rec \<noteq> dp_endpoint_id dev
      \<or> (sr_state rec \<noteq> ''QUEUED'' \<and> sr_state rec \<noteq> ''DISPATCHED'')")
    case True
    with 2 show ?thesis by simp
  next
    case own: False
    let ?d = "\<lambda>st. dict_set (sr_scan_id rec) (rec\<lparr>sr_state := st, sr_updated_at := now\<rparr>) (cs_scans s)"
    have rec: "dict_get (cs_scans s) (sr_scan_id rec) = Some rec" using cur by simp
    have next_step: "P (cs_scans s) d'"
      if "st = ''EXPIRED'' \<or> (st = ''DISPATCHED'' \<and> job_dispatch_eligibility rt rec (dp_endpoint_id dev) now = ELIGIBLE)"
        and "P (?d st) d'" for st d'
      using own rec that by (intro step [of "cs_scans s" rec st d']) auto
    show ?thesis
    proof (cases "job_dispatch_eligibility rt rec (dp_endpoint_id dev) now")
      case EXPIRED
      define s1 where "s1 = audit (dp_tenant_id dev) ''SCAN_EXPIRED'' ''control-plane'' (JStr ''dispatcher'')
        ''scan'' (JStr (sr_scan_id rec)) [] (clk (length (cs_audit_events s) + 1)) (s\<lparr>cs_scans := ?d ''EXPIRED''\<rparr>)"
      have run: "claim_loop rt dev now clk (rec # cs) s = claim_loop rt dev now clk cs s1"
        using own EXPIRED by (auto simp: s1_def Let_def)
      have "P (cs_scans s1) (cs_scans (snd (claim_loop rt dev now clk cs s1)))"
      proof (rule "2.IH"(4) [OF own EXPIRED refl])
        show "distinct (map sr_scan_id cs)" using fresh by simp
        show "dict_get (cs_scans s1) (sr_scan_id r) = Some r" if "r \<in> set cs" for r
        proof -
          have "sr_scan_id r \<noteq> sr_scan_id rec" using that(1) fresh
            by (metis distinct.simps(2) image_eqI list.simps(9) list.set_map)
          then show ?thesis using that cur by (simp add: s1_def)
        qed
        show "P d d" for d by (rule "2.prems"(3))
        show "P d d'" if "dict_get d (sr_scan_id r) = Some r" "r \<in> set cs"
          "sr_tenant_id r = dp_tenant_id dev" "sr_endpoint_id r = dp_endpoint_id dev"
          "sr_state r = ''QUEUED'' \<or> sr_state r = ''DISPATCHED''"
          "st = ''EXPIRED'' \<or> (st = ''DISPATCHED'' \<and> job_dispatch_eligibility rt r (dp_endpoint_id dev) now = ELIGIBLE)"
          "P (dict_set (sr_scan_id r) (r\<lparr>sr_state := st, sr_updated_at := now\<rparr>) d) d'" for d r st d'
          using that by (intro step [of d r st d']) auto
      qed (simp add: s1_def)
      then show ?thesis unfolding run by (intro next_step [of "''EXPIRED''"]) (simp_all add: s1_def)
    next
      case ELIGIBLE
      then have "cs_scans (snd (claim_loop rt dev now clk (rec # cs) s)) = ?d ''DISPATCHED''"
        using own by (auto simp: Let_def split: sum.split)
      then show ?thesis using ELIGIBLE "2.prems"(3) by (intro next_step [of "''DISPATCHED''"]) auto
    qed (use 2 own in \<open>simp_all add: Let_def\<close>)
  qed
qed

text \<open>The candidates of \<open>claim_next_job\<close> meet the conditions of the rule above.\<close>

lemma candidates_current:
  assumes "dict_all scan_ok (cs_scans s)"
  shows "distinct (map sr_scan_id (sort_key f (dict_values (cs_scans s))))"
    and "rec \<in> set (sort_key f (dict_values (cs_scans s))) \<Longrightarrow>
      dict_get (cs_scans s) (sr_scan_id rec) = Some rec"
proof -
  have key: "sr_scan_id v = k" if "scan_ok k v" for k v using that by (simp add: scan_ok_def)
  show "distinct (map sr_scan_id (sort_key f (dict_values (cs_scans s))))"
    using keyed_values(1) [OF assms key] by (rule distinct_map_sort_key)
  assume "rec \<in> set (sort_key f (dict_values (cs_scans s)))"
  then show "dict_get (cs_scans s) (sr_scan_id rec) = Some rec"
    using keyed_values(2) [OF assms key] by simp
qed

section \<open>Row updates\<close>

lemma scan_ok_dispatch:
  "scan_ok k rec \<Longrightarrow> sr_state rec = ''QUEUED'' \<or> sr_state rec = ''DISPATCHED'' \<Longrightarrow>
    st = ''EXPIRED'' \<or> st = ''DISPATCHED'' \<Longrightarrow> scan_ok k (rec\<lparr>sr_state := st, sr_updated_at := n\<rparr>)"
  unfolding scan_ok_def scan_states_def open_states_def evidence_of_def by auto

lemma scan_ok_accept:
  assumes "scan_ok k rec" and "sr_upload rec = None" and "validate_scan_upload rt rec u now = Inr ()"
  shows "scan_ok k (rec\<lparr>sr_state := ''ANALYZING'', sr_upload := Some (dict_set ''inventory_sync'' v u),
    sr_updated_at := n\<rparr>)"
proof -
  have "sr_state rec = ''DISPATCHED''" using assms(3) by (rule upload_valid_state)
  moreover obtain result where "jget ''result'' u = JObj result"
    "jget ''scan_id'' result = JStr (sr_scan_id rec)" "jget ''endpoint_id'' result = JStr (sr_endpoint_id rec)"
    using upload_valid_identity [OF assms(3)] by blast
  ultimately show ?thesis
    using assms(1,2) by (auto simp: scan_ok_def scan_states_def open_states_def evidence_of_def jget_def)
qed

lemma scan_ok_status:
  "scan_ok k rec \<Longrightarrow> validate_scan_status rec st = Inr () \<Longrightarrow>
    scan_ok k (rec\<lparr>sr_terminal_status := Some st, sr_updated_at := n\<rparr>)"
  using status_valid_upload [of rec st] unfolding scan_ok_def evidence_of_def by auto

lemma scan_ok_reject: "scan_ok k rec \<Longrightarrow> scan_ok k (rec\<lparr>sr_state := ''REJECTED'', sr_updated_at := n\<rparr>)"
  unfolding scan_ok_def scan_states_def open_states_def evidence_of_def by auto

lemma scan_ok_final:
  "scan_ok k rec \<Longrightarrow>
    scan_ok k (rec\<lparr>sr_state := ''COMPLETE'', sr_final_report := Some rep, sr_updated_at := n\<rparr>)"
  unfolding scan_ok_def scan_states_def open_states_def evidence_of_def by auto

lemma scan_keeps_dispatch:
  "sr_state rec = ''QUEUED'' \<or> sr_state rec = ''DISPATCHED'' \<Longrightarrow>
    scan_keeps rec (rec\<lparr>sr_state := st, sr_updated_at := n\<rparr>)"
  by (auto simp: scan_keeps_def)

lemma scan_keeps_accept:
  "sr_upload rec = None \<Longrightarrow>
    scan_keeps rec (rec\<lparr>sr_state := ''ANALYZING'', sr_upload := Some u, sr_updated_at := n\<rparr>)"
  by (simp add: scan_keeps_def)

lemma scan_keeps_status:
  "validate_scan_status rec st = Inr () \<Longrightarrow>
    scan_keeps rec (rec\<lparr>sr_terminal_status := Some st, sr_updated_at := n\<rparr>)"
  using status_valid_upload [of rec st] by (simp add: scan_keeps_def)

lemma scan_keeps_reject: "scan_keeps rec (rec\<lparr>sr_state := ''REJECTED'', sr_updated_at := n\<rparr>)"
  by (simp add: scan_keeps_def)

lemma scan_keeps_final:
  "sr_final_report rec = None \<Longrightarrow>
    scan_keeps rec (rec\<lparr>sr_state := ''COMPLETE'', sr_final_report := Some rep, sr_updated_at := n\<rparr>)"
  by (simp add: scan_keeps_def)

lemmas scan_rows = scan_ok_dispatch scan_ok_accept scan_ok_status scan_ok_reject scan_ok_final
lemmas scan_history = scan_keeps_dispatch scan_keeps_accept scan_keeps_status scan_keeps_reject
  scan_keeps_final

section \<open>Credentials and endpoints\<close>

text \<open>
  A credential belongs to an enrolled endpoint of its tenant, its generation is at most the
  endpoint's, and exactly the credential of the current generation is not superseded. A
  superseded credential has a last moment of validity no later than its expiry.
\<close>

definition credential_ok :: "endpoint_record pydict \<Rightarrow> string \<Rightarrow> credential_record \<Rightarrow> bool" where
  "credential_ok eps k c \<longleftrightarrow> cr_token_hash c = k
     \<and> (\<exists>e. dict_get eps (cr_endpoint_id c) = Some e \<and> ep_tenant_id e = cr_tenant_id c
          \<and> cr_generation c \<le> ep_credential_generation e
          \<and> (cr_superseded_at c = None \<longleftrightarrow> cr_generation c = ep_credential_generation e))
     \<and> (cr_superseded_at c = None \<longleftrightarrow> cr_valid_until c = None)
     \<and> (\<forall>v. cr_valid_until c = Some v \<longrightarrow> v \<le> cr_expires_at c)"

text \<open>No endpoint has two credentials of one generation.\<close>

definition unique_generations :: "credential_record pydict \<Rightarrow> bool" where
  "unique_generations cs \<longleftrightarrow> (\<forall>k l c d. dict_get cs k = Some c \<longrightarrow> dict_get cs l = Some d \<longrightarrow>
     cr_endpoint_id c = cr_endpoint_id d \<longrightarrow> cr_generation c = cr_generation d \<longrightarrow> k = l)"

lemma unique_generationsD:
  "unique_generations cs \<Longrightarrow> dict_get cs k = Some c \<Longrightarrow> dict_get cs l = Some d \<Longrightarrow>
    cr_endpoint_id c = cr_endpoint_id d \<Longrightarrow> cr_generation c = cr_generation d \<Longrightarrow> k = l"
  unfolding unique_generations_def by blast

lemma unique_generations_set:
  assumes u: "unique_generations cs"
    and new: "\<And>l d. dict_get cs l = Some d \<Longrightarrow> cr_endpoint_id d = cr_endpoint_id c \<Longrightarrow>
      cr_generation d = cr_generation c \<Longrightarrow> l = k"
  shows "unique_generations (dict_set k c cs)"
  unfolding unique_generations_def
proof (intro allI impI)
  fix i j a b
  assume i: "dict_get (dict_set k c cs) i = Some a" and j: "dict_get (dict_set k c cs) j = Some b"
    and eq: "cr_endpoint_id a = cr_endpoint_id b" "cr_generation a = cr_generation b"
  consider "i = k" "j = k" | "i = k" "j \<noteq> k" | "i \<noteq> k" "j = k" | "i \<noteq> k" "j \<noteq> k" by blast
  then show "i = j"
  proof cases
    case 2
    with i j eq new [of j b] show ?thesis by simp
  next
    case 3
    with i j eq new [of i a] show ?thesis by simp
  next
    case 4
    with i j eq unique_generationsD [OF u, of i a j b] show ?thesis by simp
  qed simp
qed

definition credentials_ok :: "endpoint_record pydict \<Rightarrow> credential_record pydict \<Rightarrow> bool" where
  "credentials_ok eps cs \<longleftrightarrow> dict_all (credential_ok eps) cs \<and> unique_generations cs"

lemma credentials_okD: "credentials_ok eps cs \<Longrightarrow> dict_get cs k = Some c \<Longrightarrow> credential_ok eps k c"
  by (auto simp: credentials_ok_def dict_all_def)

definition credential_keeps :: "credential_record \<Rightarrow> credential_record \<Rightarrow> bool" where
  "credential_keeps a b \<longleftrightarrow> cr_tenant_id b = cr_tenant_id a \<and> cr_endpoint_id b = cr_endpoint_id a
     \<and> cr_credential_id b = cr_credential_id a \<and> cr_token_hash b = cr_token_hash a
     \<and> cr_generation b = cr_generation a \<and> cr_issued_at b = cr_issued_at a
     \<and> cr_expires_at b = cr_expires_at a
     \<and> once_set (cr_superseded_at a) (cr_superseded_at b) \<and> once_set (cr_valid_until a) (cr_valid_until b)"

lemma credential_keeps_refl [simp]: "credential_keeps c c"
  by (simp add: credential_keeps_def)

lemma credential_keeps_trans: "credential_keeps a b \<Longrightarrow> credential_keeps b c \<Longrightarrow> credential_keeps a c"
  unfolding credential_keeps_def once_set_def by metis

definition new_credential :: "credential_record \<Rightarrow> string \<Rightarrow> string \<Rightarrow> bool" where
  "new_credential c t e \<longleftrightarrow> cr_tenant_id c = t \<and> cr_endpoint_id c = e
     \<and> cr_superseded_at c = None \<and> cr_valid_until c = None"

lemma credentials_enroll:
  assumes "credentials_ok eps cs" and "new_credential c t (ep_endpoint_id ep)"
    and "ep_tenant_id ep = t" and "cr_generation c = ep_credential_generation ep"
    and "dict_get eps (ep_endpoint_id ep) = None"
  shows "credentials_ok (dict_set (ep_endpoint_id ep) ep eps) (dict_set (cr_token_hash c) c cs)"
proof -
  have old: "cr_endpoint_id d \<noteq> ep_endpoint_id ep" if "dict_get cs l = Some d" for l d
    using credentials_okD [OF assms(1) that] assms(5) by (auto simp: credential_ok_def)
  have "credential_ok (dict_set (ep_endpoint_id ep) ep eps) l d" if "dict_get cs l = Some d" for l d
    using credentials_okD [OF assms(1) that] old [OF that] by (auto simp: credential_ok_def)
  then have "dict_all (credential_ok (dict_set (ep_endpoint_id ep) ep eps)) cs"
    using assms(1) by (auto simp: credentials_ok_def dict_all_def)
  then have "dict_all (credential_ok (dict_set (ep_endpoint_id ep) ep eps)) (dict_set (cr_token_hash c) c cs)"
    using assms by (intro dict_all_set) (auto simp: credential_ok_def new_credential_def)
  moreover have "unique_generations (dict_set (cr_token_hash c) c cs)"
    using assms old by (intro unique_generations_set) (auto simp: credentials_ok_def new_credential_def)
  ultimately show ?thesis by (simp add: credentials_ok_def)
qed

lemma credentials_rotate:
  assumes ok: "credentials_ok eps cs" and new: "new_credential c t e"
    and ep: "dict_get eps e = Some ep" "ep_tenant_id ep = t" "ep_endpoint_id ep = e"
    and gen: "ep_credential_generation ep = g" "cr_generation c = g + 1"
    and cur: "dict_get cs h = Some cur" "cr_endpoint_id cur = e" "cr_generation cur = g"
    and fresh: "dict_get cs (cr_token_hash c) = None"
  shows "credentials_ok
     (dict_set e (ep\<lparr>ep_credential_generation := cr_generation c, ep_last_seen_at := n\<rparr>) eps)
     (dict_set (cr_token_hash c) c (dict_set h
        (cur\<lparr>cr_superseded_at := Some s, cr_valid_until := Some (min (cr_expires_at cur) v)\<rparr>) cs))"
    (is "credentials_ok ?eps (dict_set _ _ (dict_set h ?cur cs))")
proof -
  have unique: "unique_generations cs" using ok by (simp add: credentials_ok_def)
  have other: "credential_ok ?eps k d" if k: "dict_get cs k = Some d" "k \<noteq> h" for k d
  proof -
    have "cr_endpoint_id d = e \<Longrightarrow> cr_generation d \<noteq> g"
      using unique_generationsD [OF unique k(1) cur(1)] k(2) cur(2,3) by auto
    then show ?thesis using credentials_okD [OF ok k(1)] ep gen by (auto simp: credential_ok_def)
  qed
  have cur_ok: "credential_ok ?eps h ?cur"
    using credentials_okD [OF ok cur(1)] ep gen cur(2,3) by (auto simp: credential_ok_def)
  have "dict_all (credential_ok ?eps) (dict_set h ?cur cs)"
    using ok other cur_ok by (auto simp: credentials_ok_def dict_all_def)
  moreover have "credential_ok ?eps (cr_token_hash c) c"
    using new ep gen by (auto simp: credential_ok_def new_credential_def)
  ultimately have "dict_all (credential_ok ?eps) (dict_set (cr_token_hash c) c (dict_set h ?cur cs))"
    by (rule dict_all_set)
  moreover have "unique_generations (dict_set h ?cur cs)"
    by (rule unique_generations_set [OF unique]) (use unique_generationsD [OF unique _ cur(1)] in simp)
  then have "unique_generations (dict_set (cr_token_hash c) c (dict_set h ?cur cs))"
  proof (rule unique_generations_set)
    fix l d
    assume l: "dict_get (dict_set h ?cur cs) l = Some d" "cr_endpoint_id d = cr_endpoint_id c"
      "cr_generation d = cr_generation c"
    have "cr_generation d \<le> g"
    proof (cases "l = h")
      case False
      with l have "dict_get cs l = Some d" by simp
      from credentials_okD [OF ok this] l(2) new ep gen show ?thesis
        by (auto simp: credential_ok_def new_credential_def)
    qed (use l cur in auto)
    with l(3) gen(2) show "l = cr_token_hash c" by simp
  qed
  ultimately show ?thesis by (simp add: credentials_ok_def)
qed

lemma credentials_seen:
  assumes "credentials_ok eps cs" and "dict_get eps k = Some e"
  shows "credentials_ok (dict_set k (e\<lparr>ep_last_seen_at := n\<rparr>) eps) cs"
proof -
  have "credential_ok (dict_set k (e\<lparr>ep_last_seen_at := n\<rparr>) eps) l c" if "credential_ok eps l c" for l c
    using that assms(2) by (auto simp: credential_ok_def)
  with assms(1) show ?thesis unfolding credentials_ok_def by (blast intro: dict_all_mono)
qed

section \<open>Tasks and inventory\<close>

lemma task_ok_claim:
  "task_ok k t \<Longrightarrow> task_eligible now t \<Longrightarrow>
    task_ok k (t\<lparr>at_state := RUNNING, at_attempts := at_attempts t + 1, at_leased_by := Some w,
      at_lease_expires_at := Some e, at_updated_at := n\<rparr>)"
  by (auto simp: task_ok_def task_eligible_def)

lemma task_ok_complete:
  "task_ok k t \<Longrightarrow> at_state t = RUNNING \<Longrightarrow>
    task_ok k (t\<lparr>at_state := SUCCEEDED, at_result := Some res, at_lease_expires_at := None,
      at_leased_by := None, at_updated_at := n\<rparr>)"
  by (auto simp: task_ok_def)

lemma task_ok_fail:
  "task_ok k t \<Longrightarrow> at_state t = RUNNING \<Longrightarrow>
    task_ok k (t\<lparr>at_state := (if dead then FAILED else RETRY), at_available_at := a,
      at_lease_expires_at := None, at_leased_by := None, at_last_error := Some err, at_updated_at := n\<rparr>)"
  by (auto simp: task_ok_def)

lemma task_keeps_claim:
  "task_eligible now t \<Longrightarrow>
    task_keeps t (t\<lparr>at_state := RUNNING, at_attempts := at_attempts t + 1, at_leased_by := Some w,
      at_lease_expires_at := Some e, at_updated_at := n\<rparr>)"
  by (auto simp: task_keeps_def task_eligible_def terminal_task_state_def)

lemma task_keeps_complete:
  "at_state t = RUNNING \<Longrightarrow>
    task_keeps t (t\<lparr>at_state := SUCCEEDED, at_result := Some res, at_lease_expires_at := None,
      at_leased_by := None, at_updated_at := n\<rparr>)"
  by (simp add: task_keeps_def terminal_task_state_def)

lemma task_keeps_fail:
  "at_state t = RUNNING \<Longrightarrow>
    task_keeps t (t\<lparr>at_state := (if dead then FAILED else RETRY), at_available_at := a,
      at_lease_expires_at := None, at_leased_by := None, at_last_error := Some err, at_updated_at := n\<rparr>)"
  by (simp add: task_keeps_def terminal_task_state_def)

lemmas task_rows = task_ok_claim task_ok_complete task_ok_fail
lemmas task_history = task_keeps_claim task_keeps_complete task_keeps_fail

definition new_task :: "analysis_task \<Rightarrow> bool" where
  "new_task t \<longleftrightarrow> at_state t = PENDING \<and> at_leased_by t = None \<and> at_lease_expires_at t = None
     \<and> at_result t = None \<and> at_last_error t = None"

lemma add_tasks_all:
  "dict_all P d \<Longrightarrow> (\<And>t. t \<in> set ts \<Longrightarrow> P (at_task_id t) t) \<Longrightarrow> dict_all P (add_tasks ts d)"
  by (induction ts d rule: add_tasks.induct) auto

lemma add_tasks_get:
  "dict_get (add_tasks ts d) k = (if \<exists>t \<in> set ts. at_task_id t = k
     then Some (last (filter (\<lambda>t. at_task_id t = k) ts)) else dict_get d k)"
  by (induction ts d rule: add_tasks.induct) (auto simp: filter_empty_conv)

lemma check_tasks_Inr:
  "check_tasks dev k ts s = Inr () \<longleftrightarrow> (\<forall>t \<in> set ts. at_scan_id t = k \<and> at_tenant_id t = dp_tenant_id dev
     \<and> at_endpoint_id t = dp_endpoint_id dev \<and> dict_get (cs_tasks s) (at_task_id t) = None)"
  by (induction dev k ts s rule: check_tasks.induct) (auto simp: dict_has_iff)

lemma inventory_digest_Inr:
  "inventory_digest v f n = Inr d \<Longrightarrow>
    case d of None \<Rightarrow> n | Some h \<Rightarrow> length h = 64 \<and> (\<forall>c \<in> set h. lower_hex_digit c)"
  by (auto simp: inventory_digest_def split: if_splits json.splits)

lemma bounded_snapshot_sections:
  "bounded_snapshot rt v = Inr n \<Longrightarrow> length n \<le> max_inventory_sections"
  by (auto simp: bounded_snapshot_def split: json.splits sum.splits if_splits)

lemma cloud_snapshot_hash_Inr [simp]: "cloud_snapshot_hash rt d = Inr h \<longleftrightarrow> snapshot_hash rt d = Inr h"
  by (auto simp: cloud_snapshot_hash_def split: sum.splits)

lemma reconstruct_full_Inr:
  "reconstruct_full rt sync h p cur = Inr sn \<Longrightarrow>
    snapshot_hash rt sn = Inr h \<and> length sn \<le> max_inventory_sections"
  by (auto simp: reconstruct_full_def ebind_Inr_iff dest: bounded_snapshot_sections split: if_splits)

lemma reconstruct_delta_Inr:
  "reconstruct_delta rt sync h p cur = Inr sn \<Longrightarrow>
    snapshot_hash rt sn = Inr h \<and> length sn \<le> max_inventory_sections"
  by (auto simp: reconstruct_delta_def Let_def ebind_Inr_iff dest: bounded_snapshot_sections
      split: if_splits option.splits json.splits)

lemma reconstruct_unchanged_Inr:
  "reconstruct_unchanged sync h p cur = Inr sn \<Longrightarrow>
    \<exists>c. cur = Some c \<and> sn = iv_snapshot c \<and> h = iv_snapshot_hash c"
  by (auto simp: reconstruct_unchanged_def split: if_splits option.splits)

text \<open>
  Whatever the mode, the state stored after an accepted synchronisation carries the digest of
  its own snapshot.
\<close>

lemma reconstruct_inventory_ok:
  assumes "reconstruct_inventory rt t e k v cur now = Inr (sync, iv)"
    and "\<And>c. cur = Some c \<Longrightarrow> inventory_ok rt (t, e) c"
  shows "inventory_ok rt (t, e) iv \<and> iv_source_scan_id iv = k \<and> iv_updated_at iv = now"
proof -
  obtain d mode h p sn where
    h: "inventory_digest (jget ''snapshot_hash'' d) ''snapshot_hash'' False = Inr (Some h)"
    and sn: "reconstruct_snapshot rt mode d h p cur = Inr sn"
    and iv: "iv = \<lparr> iv_tenant_id = t, iv_endpoint_id = e, iv_snapshot_hash = h, iv_snapshot = sn,
        iv_source_scan_id = k, iv_updated_at = now \<rparr>"
    using assms(1) unfolding reconstruct_inventory_Inr by blast
  have "snapshot_hash rt sn = Inr h \<and> length sn \<le> max_inventory_sections"
    using sn assms(2) unfolding reconstruct_snapshot_def
    by (auto dest!: reconstruct_full_Inr reconstruct_delta_Inr reconstruct_unchanged_Inr
        simp: inventory_ok_def split: if_split_asm)
  with iv inventory_digest_Inr [OF h] show ?thesis by (simp add: inventory_ok_def)
qed

end
