(* ===== verification/Cloud_Steps.thy ===== *)
theory Cloud_Steps
  imports Cloud_Invariants
begin

text \<open>
  The repository as a transition system: one step is one operation, called the way
  \<^verbatim>\<open>cloud_service/app.py\<close> and \<^verbatim>\<open>cloud_service/worker.py\<close> call it (the records handed in
  are new). The step is labelled with the tenant on whose behalf it runs, if any. Every run
  keeps the invariant, the history of every row, and the rows of the other tenants.
\<close>

section \<open>Invariant, history, isolation\<close>

definition tasks_attached :: "scan_record pydict \<Rightarrow> analysis_task pydict \<Rightarrow> bool" where
  "tasks_attached scans tasks \<longleftrightarrow> dict_all (\<lambda>k t. \<exists>rec. dict_get scans (at_scan_id t) = Some rec
     \<and> sr_tenant_id rec = at_tenant_id t \<and> sr_endpoint_id rec = at_endpoint_id t
     \<and> sr_upload rec \<noteq> None) tasks"

definition cloud_inv :: "runtime \<Rightarrow> cloud_state \<Rightarrow> bool" where
  "cloud_inv rt s \<longleftrightarrow> dict_all scan_ok (cs_scans s) \<and> dict_all task_ok (cs_tasks s)
     \<and> tasks_attached (cs_scans s) (cs_tasks s)
     \<and> dict_all (inventory_ok rt) (cs_inventory_states s)
     \<and> dict_all grant_ok (cs_enrollment_grants s) \<and> dict_all endpoint_ok (cs_endpoints s)
     \<and> credentials_ok (cs_endpoints s) (cs_credentials s)"

definition cloud_keeps :: "cloud_state \<Rightarrow> cloud_state \<Rightarrow> bool" where
  "cloud_keeps s s' \<longleftrightarrow> dict_evolves scan_keeps (cs_scans s) (cs_scans s')
     \<and> dict_evolves task_keeps (cs_tasks s) (cs_tasks s')
     \<and> dict_evolves grant_keeps (cs_enrollment_grants s) (cs_enrollment_grants s')
     \<and> dict_evolves endpoint_keeps (cs_endpoints s) (cs_endpoints s')
     \<and> dict_evolves credential_keeps (cs_credentials s) (cs_credentials s')
     \<and> dict_evolves (=) (cs_idempotency s) (cs_idempotency s')
     \<and> prefix (cs_audit_events s) (cs_audit_events s')
     \<and> prefix (cs_rejections s) (cs_rejections s')"

definition others_unchanged :: "('v \<Rightarrow> string) \<Rightarrow> string \<Rightarrow> ('k \<times> 'v) list \<Rightarrow> ('k \<times> 'v) list \<Rightarrow> bool" where
  "others_unchanged tenant t d e \<longleftrightarrow>
    (\<forall>k v. tenant v \<noteq> t \<longrightarrow> (dict_get e k = Some v \<longleftrightarrow> dict_get d k = Some v))"

definition tenant_isolated :: "string \<Rightarrow> cloud_state \<Rightarrow> cloud_state \<Rightarrow> bool" where
  "tenant_isolated t s s' \<longleftrightarrow> others_unchanged sr_tenant_id t (cs_scans s) (cs_scans s')
     \<and> others_unchanged at_tenant_id t (cs_tasks s) (cs_tasks s')
     \<and> others_unchanged eg_tenant_id t (cs_enrollment_grants s) (cs_enrollment_grants s')
     \<and> others_unchanged ep_tenant_id t (cs_endpoints s) (cs_endpoints s')
     \<and> others_unchanged cr_tenant_id t (cs_credentials s) (cs_credentials s')
     \<and> others_unchanged iv_tenant_id t (cs_inventory_states s) (cs_inventory_states s')"

lemma others_unchanged_refl [simp]: "others_unchanged f t d d"
  by (simp add: others_unchanged_def)

lemma others_unchanged_set:
  "f v = t \<Longrightarrow> (\<And>w. dict_get d k = Some w \<Longrightarrow> f w = t) \<Longrightarrow> others_unchanged f t d (dict_set k v d)"
  by (auto simp: others_unchanged_def)

lemma others_unchanged_trans:
  "others_unchanged f t d e \<Longrightarrow> others_unchanged f t e g \<Longrightarrow> others_unchanged f t d g"
  by (simp add: others_unchanged_def)

lemma cloud_keeps_refl: "cloud_keeps s s"
  by (simp add: cloud_keeps_def dict_evolves_refl)

lemma transp_keeps:
  "transp scan_keeps" "transp task_keeps" "transp grant_keeps" "transp endpoint_keeps"
  "transp credential_keeps" "transp (=)"
  by (rule transpI, erule (1) scan_keeps_trans task_keeps_trans grant_keeps_trans
      endpoint_keeps_trans credential_keeps_trans trans)+

lemmas evolves_trans = transp_keeps [THEN dict_evolves_trans]

lemma cloud_keeps_trans: "cloud_keeps s t \<Longrightarrow> cloud_keeps t u \<Longrightarrow> cloud_keeps s u"
  unfolding cloud_keeps_def
  by (elim conjE, intro conjI) (rule evolves_trans prefix_order.trans, assumption, assumption)+

lemma tasks_attached_evolves:
  assumes "tasks_attached scans tasks" and "dict_evolves scan_keeps scans scans'"
  shows "tasks_attached scans' tasks"
  unfolding tasks_attached_def
proof (rule dict_all_mono [OF assms(1) [unfolded tasks_attached_def]])
  fix k t
  assume "\<exists>rec. dict_get scans (at_scan_id t) = Some rec \<and> sr_tenant_id rec = at_tenant_id t
    \<and> sr_endpoint_id rec = at_endpoint_id t \<and> sr_upload rec \<noteq> None"
  then obtain rec where rec: "dict_get scans (at_scan_id t) = Some rec" "sr_tenant_id rec = at_tenant_id t"
    "sr_endpoint_id rec = at_endpoint_id t" "sr_upload rec \<noteq> None" by blast
  obtain rec' where "dict_get scans' (at_scan_id t) = Some rec'" "scan_keeps rec rec'"
    using dict_evolvesD [OF assms(2) rec(1)] by blast
  with rec show "\<exists>rec. dict_get scans' (at_scan_id t) = Some rec \<and> sr_tenant_id rec = at_tenant_id t
    \<and> sr_endpoint_id rec = at_endpoint_id t \<and> sr_upload rec \<noteq> None"
    by (auto simp: scan_keeps_def)
qed

lemma cloud_invD:
  assumes "cloud_inv rt s"
  shows "dict_all scan_ok (cs_scans s)" "dict_all task_ok (cs_tasks s)"
    "tasks_attached (cs_scans s) (cs_tasks s)" "dict_all (inventory_ok rt) (cs_inventory_states s)"
    "dict_all grant_ok (cs_enrollment_grants s)" "dict_all endpoint_ok (cs_endpoints s)"
    "credentials_ok (cs_endpoints s) (cs_credentials s)"
  using assms by (auto simp: cloud_inv_def)

section \<open>Good successors\<close>

text \<open>What a step on behalf of tenant \<open>t\<close> must establish, and the rules that establish it.\<close>

definition good_step :: "runtime \<Rightarrow> string option \<Rightarrow> cloud_state \<Rightarrow> cloud_state \<Rightarrow> bool" where
  "good_step rt t s s' \<longleftrightarrow> cloud_inv rt s' \<and> cloud_keeps s s'
     \<and> (\<forall>u. t = Some u \<longrightarrow> tenant_isolated u s s')"

lemma good_step_refl: "cloud_inv rt s \<Longrightarrow> good_step rt t s s"
  by (simp add: good_step_def cloud_keeps_refl tenant_isolated_def)

lemma good_step_idempotent:
  assumes "cloud_inv rt s"
    and "\<And>r s'. dict_get (cs_idempotency s) (ten, oper, k) = None \<Longrightarrow> body s = (r, s') \<Longrightarrow> good_step rt t s s'"
  shows "good_step rt t s (snd (idempotent ten oper k d body s))"
proof -
  obtain r s' where i: "idempotent ten oper k d body s = (r, s')" by fastforce
  from idempotent_effect [OF i] assms show ?thesis by (auto simp: i good_step_refl)
qed

text \<open>The idempotency table and the two logs only grow.\<close>

definition bookkeeping :: "cloud_state \<Rightarrow> cloud_state \<Rightarrow> bool" where
  "bookkeeping s s' \<longleftrightarrow> dict_evolves (=) (cs_idempotency s) (cs_idempotency s')
     \<and> prefix (cs_audit_events s) (cs_audit_events s') \<and> prefix (cs_rejections s) (cs_rejections s')"

lemma good_step_scan:
  assumes inv: "cloud_inv rt s" and rec: "dict_get (cs_scans s) k = Some rec"
    and new: "scan_ok k rec'" "scan_keeps rec rec'"
    and own: "\<And>u. t = Some u \<Longrightarrow> sr_tenant_id rec = u"
    and s': "cs_scans s' = dict_set k rec' (cs_scans s)" "cs_tasks s' = cs_tasks s"
      "cs_enrollment_grants s' = cs_enrollment_grants s" "cs_endpoints s' = cs_endpoints s"
      "cs_credentials s' = cs_credentials s" "cs_inventory_states s' = cs_inventory_states s"
      "bookkeeping s s'"
  shows "good_step rt t s s'"
proof -
  have ev: "dict_evolves scan_keeps (cs_scans s) (cs_scans s')"
    unfolding s' using rec new by (intro dict_evolves_set) auto
  have "tasks_attached (cs_scans s') (cs_tasks s)"
    by (rule tasks_attached_evolves [OF cloud_invD(3) [OF inv] ev])
  moreover have "dict_all scan_ok (cs_scans s')"
    unfolding s' using cloud_invD(1) [OF inv] new(1) by (rule dict_all_set)
  ultimately have "cloud_inv rt s'"
    using inv unfolding cloud_inv_def by (simp add: s')
  moreover have "cloud_keeps s s'"
    using ev s' by (simp add: cloud_keeps_def bookkeeping_def dict_evolves_refl)
  moreover have "tenant_isolated u s s'" if "t = Some u" for u
  proof -
    have "others_unchanged sr_tenant_id u (cs_scans s) (cs_scans s')"
      unfolding s' using own [OF that] rec new(2)
      by (intro others_unchanged_set) (simp_all add: scan_keeps_def)
    then show ?thesis by (simp add: tenant_isolated_def s')
  qed
  ultimately show ?thesis by (simp add: good_step_def)
qed

lemma good_step_task:
  assumes inv: "cloud_inv rt s" and task: "dict_get (cs_tasks s) k = Some a"
    and new: "task_ok k b" "task_keeps a b"
    and s': "s' = s\<lparr>cs_tasks := dict_set k b (cs_tasks s)\<rparr>"
  shows "good_step rt None s s'"
proof -
  have "\<exists>rec. dict_get (cs_scans s) (at_scan_id b) = Some rec \<and> sr_tenant_id rec = at_tenant_id b
      \<and> sr_endpoint_id rec = at_endpoint_id b \<and> sr_upload rec \<noteq> None"
    using dict_allD [OF cloud_invD(3) [OF inv, unfolded tasks_attached_def] task] new(2)
    by (auto simp: task_keeps_def)
  then have "tasks_attached (cs_scans s) (dict_set k b (cs_tasks s))"
    using cloud_invD(3) [OF inv] unfolding tasks_attached_def by (intro dict_all_set) auto
  moreover have "dict_evolves task_keeps (cs_tasks s) (dict_set k b (cs_tasks s))"
    using task new by (intro dict_evolves_set) auto
  moreover have "dict_all task_ok (dict_set k b (cs_tasks s))"
    using cloud_invD(2) [OF inv] new(1) by (rule dict_all_set)
  ultimately show ?thesis
    using inv by (simp add: s' good_step_def cloud_inv_def cloud_keeps_def dict_evolves_refl)
qed

section \<open>The operations make good steps\<close>

lemma maybe_audited_bookkeeping:
  assumes "maybe_audited u s'" and "bookkeeping s u"
  shows "bookkeeping s s'"
  using maybe_audited_frame(8,9) [OF assms(1)] maybe_audited_frame(7) [OF assms(1)] assms(2)
  by (auto simp: bookkeeping_def intro: prefix_order.trans)

lemma bookkeeping_remember:
  assumes "dict_get (cs_idempotency s) (t, oper, k) = None"
    and "cs_idempotency u = cs_idempotency s" "cs_audit_events u = cs_audit_events s"
    and "prefix (cs_rejections s) (cs_rejections u)"
  shows "bookkeeping s (remember t oper k d r u)"
    and "bookkeeping s (audit a b c e f g h i (remember t oper k d r u))"
  using assms by (auto simp: bookkeeping_def dict_evolves_def)

lemma dict_evolves_insert:
  "(\<And>v. R v v) \<Longrightarrow> dict_get d k = None \<Longrightarrow> dict_evolves R d (dict_set k v d)"
  by (rule dict_evolves_set) auto

lemma others_unchanged_insert:
  "f v = t \<Longrightarrow> dict_get d k = None \<Longrightarrow> others_unchanged f t d (dict_set k v d)"
  by (rule others_unchanged_set) auto

lemma new_scan_good:
  assumes inv: "cloud_inv rt s" and free: "dict_get (cs_scans s) k = None"
    and new: "scan_ok k rec" "sr_tenant_id rec = t"
    and s': "cs_scans s' = dict_set k rec (cs_scans s)" "cs_tasks s' = cs_tasks s"
      "cs_enrollment_grants s' = cs_enrollment_grants s" "cs_endpoints s' = cs_endpoints s"
      "cs_credentials s' = cs_credentials s" "cs_inventory_states s' = cs_inventory_states s"
      "bookkeeping s s'"
  shows "good_step rt (Some t) s s'"
proof -
  have ev: "dict_evolves scan_keeps (cs_scans s) (cs_scans s')"
    unfolding s' using free by (intro dict_evolves_set) auto
  have "tasks_attached (cs_scans s') (cs_tasks s)"
    by (rule tasks_attached_evolves [OF cloud_invD(3) [OF inv] ev])
  moreover have "dict_all scan_ok (cs_scans s')"
    unfolding s' using cloud_invD(1) [OF inv] new(1) by (rule dict_all_set)
  ultimately have "cloud_inv rt s'" using inv unfolding cloud_inv_def by (simp add: s')
  moreover have "cloud_keeps s s'"
    using ev s' by (simp add: cloud_keeps_def bookkeeping_def dict_evolves_refl)
  moreover have "others_unchanged sr_tenant_id t (cs_scans s) (cs_scans s')"
    unfolding s' using new(2) free by (intro others_unchanged_set) simp_all
  ultimately show ?thesis by (simp add: good_step_def tenant_isolated_def s')
qed

definition new_scan :: "scan_record \<Rightarrow> bool" where
  "new_scan rec \<longleftrightarrow> sr_state rec = ''QUEUED'' \<and> sr_upload rec = None
     \<and> sr_terminal_status rec = None \<and> sr_final_report rec = None"

lemma create_scan_job_good:
  assumes inv: "cloud_inv rt s" and new: "new_scan rec" "sr_tenant_id rec = t"
  shows "good_step rt (Some t) s (snd (create_scan_job t rec key d aud s))"
  unfolding create_scan_job_def
proof (rule good_step_idempotent [OF inv])
  fix r s'
  assume none: "dict_get (cs_idempotency s) (t, ''create-scan'', key) = None"
    and run: "create_scan_job_body t rec key d aud s = (r, s')"
  show "good_step rt (Some t) s s'"
  proof (cases "s' = s")
    case False
    then have free: "dict_get (cs_scans s) (sr_scan_id rec) = None"
      and aud: "maybe_audited (remember t ''create-scan'' key d (RScan rec)
        (s\<lparr>cs_scans := dict_set (sr_scan_id rec) rec (cs_scans s)\<rparr>)) s'"
      using create_scan_job_body_effect [OF run] by auto
    have "bookkeeping s s'"
      by (rule maybe_audited_bookkeeping [OF aud]) (rule bookkeeping_remember(1) [OF none]; simp)
    moreover have "scan_ok (sr_scan_id rec) rec"
      using new by (simp add: scan_ok_def new_scan_def scan_states_def open_states_def)
    ultimately show ?thesis
      using new(2) maybe_audited_frame [OF aud] by (intro new_scan_good [OF inv free]) simp_all
  qed (simp add: inv good_step_refl)
qed

text \<open>A device operation that replaces a scan record its endpoint owns.\<close>

lemma owned_scan_good:
  assumes inv: "cloud_inv rt s" and own: "owned_scan dev k s = Some rec"
    and rec': "scan_ok k rec'" "scan_keeps rec rec'"
    and none: "dict_get (cs_idempotency s) (ten, oper, key) = None"
    and aud: "maybe_audited (remember ten oper key d resp u) s'"
    and u: "u = s\<lparr>cs_scans := dict_set k rec' (cs_scans s), cs_rejections := cs_rejections s @ rej\<rparr>"
  shows "good_step rt (Some (dp_tenant_id dev)) s s'"
proof -
  have "bookkeeping s s'"
    by (rule maybe_audited_bookkeeping [OF aud]) (rule bookkeeping_remember(1) [OF none]; simp add: u)
  with own rec' maybe_audited_frame [OF aud] show ?thesis
    by (intro good_step_scan [OF inv, of k rec rec']) (simp_all add: owned_scan_Some u)
qed

lemma record_scan_status_good:
  assumes inv: "cloud_inv rt s"
  shows "good_step rt (Some (dp_tenant_id dev)) s (snd (record_scan_status dev k st key d now aud s))"
  unfolding record_scan_status_def Let_def
proof (rule good_step_idempotent [OF inv])
  fix r s'
  assume none: "dict_get (cs_idempotency s) (dp_tenant_id dev, ''scan-status:'' @ k, key) = None"
    and run: "record_scan_status_body (''scan-status:'' @ k) dev k st key d now aud s = (r, s')"
  show "good_step rt (Some (dp_tenant_id dev)) s s'"
  proof (cases "s' = s")
    case False
    then obtain rec upd where own: "owned_scan dev k s = Some rec"
      and valid: "validate_scan_status rec st = Inr ()"
      and upd: "upd = rec\<lparr>sr_terminal_status := Some st, sr_updated_at := now\<rparr>"
      and aud: "maybe_audited (remember (dp_tenant_id dev) (''scan-status:'' @ k) key d (RScan upd)
       (s\<lparr>cs_scans := dict_set k upd (cs_scans s)\<rparr>)) s'"
      using record_scan_status_body_effect [OF run] by auto
    have "scan_ok k rec"
      using own dict_allD [OF cloud_invD(1) [OF inv]] by (simp add: owned_scan_Some)
    with valid show ?thesis
      by (intro owned_scan_good [OF inv own _ _ none aud, where rej = "[]"])
        (simp_all add: upd scan_ok_status scan_keeps_status)
  qed (simp add: inv good_step_refl)
qed

lemma record_rejection_good:
  assumes inv: "cloud_inv rt s"
  shows "good_step rt (Some (dp_tenant_id dev)) s (snd (record_rejection rt dev p key d now aud s))"
proof (cases "subscript (JObj p) ''document_sha256''")
  case (Inl e)
  then show ?thesis by (simp add: record_rejection_def inv good_step_refl)
next
  case (Inr doc)
  define oper where "oper = ''rejection:'' @ py_str rt doc"
  have "good_step rt (Some (dp_tenant_id dev)) s
      (snd (idempotent (dp_tenant_id dev) oper key d (record_rejection_body oper dev p doc key d now aud) s))"
  proof (rule good_step_idempotent [OF inv])
    fix r s'
    assume none: "dict_get (cs_idempotency s) (dp_tenant_id dev, oper, key) = None"
      and run: "record_rejection_body oper dev p doc key d now aud s = (r, s')"
    consider "s' = s"
      | (bare) "maybe_audited (remember (dp_tenant_id dev) oper key d RTrue
          (s\<lparr>cs_rejections := cs_rejections s @ [p]\<rparr>)) s'"
      | (scan) k rec where "rejected_scan dev (jget ''scan_id'' p) s = Inr (Some (k, rec))"
         "maybe_audited (remember (dp_tenant_id dev) oper key d RTrue
           (s\<lparr>cs_scans := dict_set k (rec\<lparr>sr_state := ''REJECTED'', sr_updated_at := now\<rparr>) (cs_scans s),
              cs_rejections := cs_rejections s @ [p]\<rparr>)) s'"
      using record_rejection_body_effect [OF run] by blast
    then show "good_step rt (Some (dp_tenant_id dev)) s s'"
    proof cases
      case 1
      then show ?thesis by (simp add: inv good_step_refl)
    next
      case bare
      have "bookkeeping s s'"
        by (rule maybe_audited_bookkeeping [OF bare]) (rule bookkeeping_remember(1) [OF none]; simp)
      with inv maybe_audited_frame [OF bare] show ?thesis
        by (simp add: good_step_def cloud_inv_def cloud_keeps_def tenant_isolated_def bookkeeping_def
            dict_evolves_refl)
    next
      case scan
      have own: "owned_scan dev k s = Some rec"
        using rejected_scan_Some [OF scan(1)] by (simp add: owned_scan_Some)
      have "scan_ok k rec"
        using own dict_allD [OF cloud_invD(1) [OF inv]] by (simp add: owned_scan_Some)
      then show ?thesis
        by (intro owned_scan_good [OF inv own _ _ none scan(2), where rej = "[p]"])
          (simp_all add: scan_ok_reject scan_keeps_reject)
    qed
  qed
  with Inr show ?thesis by (simp add: record_rejection_def oper_def Let_def)
qed

definition new_grant :: "enrollment_grant \<Rightarrow> bool" where
  "new_grant g \<longleftrightarrow> eg_consumed_at g = None \<and> eg_endpoint_id g = None"

lemma create_enrollment_grant_good:
  assumes inv: "cloud_inv rt s" and new: "new_grant g"
  shows "good_step rt (Some (eg_tenant_id g)) s (snd (create_enrollment_grant rt g key d aud s))"
  unfolding create_enrollment_grant_def Let_def
proof (rule good_step_idempotent [OF inv])
  fix r s'
  assume none: "dict_get (cs_idempotency s) (eg_tenant_id g, ''create-enrollment-grant'', key) = None"
    and run: "create_enrollment_grant_body rt ''create-enrollment-grant'' g key d aud s = (r, s')"
  show "good_step rt (Some (eg_tenant_id g)) s s'"
  proof (cases "s' = s")
    case False
    then obtain details where free: "dict_get (cs_enrollment_grants s) (eg_token_hash g) = None"
      and s': "s' = audit (eg_tenant_id g) ''ENDPOINT_ENROLLMENT_GRANT_CREATED'' ''platform''
         (JStr (eg_issued_by g)) ''enrollment-grant'' (JStr (eg_grant_id g)) details aud
         (remember (eg_tenant_id g) ''create-enrollment-grant'' key d (RGrant g)
           (s\<lparr>cs_enrollment_grants := dict_set (eg_token_hash g) g (cs_enrollment_grants s)\<rparr>))"
      using create_enrollment_grant_body_effect [OF run] by blast
    have "bookkeeping s s'" unfolding s' by (rule bookkeeping_remember(2) [OF none]; simp)
    moreover have "dict_all grant_ok (cs_enrollment_grants s')"
      using cloud_invD(5) [OF inv] new by (auto simp: s' grant_ok_def new_grant_def)
    moreover have "dict_evolves grant_keeps (cs_enrollment_grants s) (cs_enrollment_grants s')"
      by (simp add: s', rule dict_evolves_insert [OF _ free]) simp
    moreover have "others_unchanged eg_tenant_id (eg_tenant_id g) (cs_enrollment_grants s) (cs_enrollment_grants s')"
      by (simp add: s', rule others_unchanged_insert [OF refl free])
    ultimately show ?thesis
      using inv by (simp add: good_step_def cloud_inv_def cloud_keeps_def tenant_isolated_def
          bookkeeping_def dict_evolves_refl s')
  qed (simp add: inv good_step_refl)
qed

lemma consume_grant_good:
  fixes n :: int and e :: string
  assumes chk: "check_grant t ep c gh s = Inr grant" and ok: "dict_all grant_ok (cs_enrollment_grants s)"
  defines "grants \<equiv> consume_grant gh grant n e (cs_enrollment_grants s)"
  shows "dict_all grant_ok grants" and "dict_evolves grant_keeps (cs_enrollment_grants s) grants"
    and "others_unchanged eg_tenant_id t (cs_enrollment_grants s) grants"
proof -
  have "dict_all grant_ok grants \<and> dict_evolves grant_keeps (cs_enrollment_grants s) grants
    \<and> others_unchanged eg_tenant_id t (cs_enrollment_grants s) grants"
  proof (cases gh)
    case None
    then show ?thesis using ok by (simp add: grants_def consume_grant_def dict_evolves_refl)
  next
    case (Some h)
    then obtain g where g: "grant = Some g" "dict_get (cs_enrollment_grants s) h = Some g"
      "eg_tenant_id g = t" "eg_consumed_at g = None"
      using check_grant_Inr [OF chk] by auto
    let ?g = "g\<lparr>eg_consumed_at := Some n, eg_endpoint_id := Some e\<rparr>"
    have grants: "grants = dict_set h ?g (cs_enrollment_grants s)"
      using Some g(1) by (simp add: grants_def consume_grant_def)
    have "grant_ok h ?g" using dict_allD [OF ok g(2)] by (simp add: grant_ok_def)
    moreover have "grant_keeps g ?g" using g(4) by (simp add: grant_keeps_def)
    ultimately show ?thesis
      unfolding grants using ok g by (auto intro: dict_evolves_set others_unchanged_set)
  qed
  then show "dict_all grant_ok grants" and "dict_evolves grant_keeps (cs_enrollment_grants s) grants"
    and "others_unchanged eg_tenant_id t (cs_enrollment_grants s) grants"
    by auto
qed

lemma enroll_endpoint_good:
  assumes inv: "cloud_inv rt s" and ep: "ep_tenant_id ep = t"
    and new: "new_credential c t (ep_endpoint_id ep)" "cr_generation c = ep_credential_generation ep"
  shows "good_step rt (Some t) s (snd (enroll_endpoint t ep c key d gh aud s))"
  unfolding enroll_endpoint_def
proof (rule good_step_idempotent [OF inv])
  fix r s'
  assume none: "dict_get (cs_idempotency s) (t, ''enroll'', key) = None"
    and run: "enroll_endpoint_body t ep c key d gh aud s = (r, s')"
  show "good_step rt (Some t) s s'"
  proof (cases "s' = s")
    case False
    obtain grant actor_type actor where
      free: "dict_get (cs_endpoints s) (ep_endpoint_id ep) = None"
        "dict_get (cs_credentials s) (cr_token_hash c) = None"
      and chk: "check_grant t ep c gh s = Inr grant"
      and s': "s' = audit t ''ENDPOINT_ENROLLED'' actor_type actor ''endpoint'' (JStr (ep_endpoint_id ep)) [] aud
         (remember t ''enroll'' key d (RCredential c)
           (s\<lparr>cs_endpoints := dict_set (ep_endpoint_id ep) ep (cs_endpoints s),
              cs_credentials := dict_set (cr_token_hash c) c (cs_credentials s),
              cs_enrollment_grants := consume_grant gh grant (cr_issued_at c) (ep_endpoint_id ep)
                (cs_enrollment_grants s)\<rparr>))"
      using enroll_endpoint_body_effect [OF run] False by blast
    have "bookkeeping s s'" unfolding s' by (rule bookkeeping_remember(2) [OF none]; simp)
    moreover note consume_grant_good [OF chk cloud_invD(5) [OF inv], of "cr_issued_at c" "ep_endpoint_id ep"]
    moreover have "dict_all endpoint_ok (dict_set (ep_endpoint_id ep) ep (cs_endpoints s))"
      using cloud_invD(6) [OF inv] by (rule dict_all_set) (simp add: endpoint_ok_def)
    moreover have "dict_evolves endpoint_keeps (cs_endpoints s) (dict_set (ep_endpoint_id ep) ep (cs_endpoints s))"
      and "dict_evolves credential_keeps (cs_credentials s) (dict_set (cr_token_hash c) c (cs_credentials s))"
      by (rule dict_evolves_insert; simp add: free)+
    moreover note credentials_enroll [OF cloud_invD(7) [OF inv] new(1) ep new(2) free(1)]
    moreover have "others_unchanged ep_tenant_id t (cs_endpoints s) (dict_set (ep_endpoint_id ep) ep (cs_endpoints s))"
      and "others_unchanged cr_tenant_id t (cs_credentials s) (dict_set (cr_token_hash c) c (cs_credentials s))"
      by (rule others_unchanged_insert; use free ep new(1) in \<open>simp add: new_credential_def\<close>)+
    ultimately show ?thesis
      using inv by (simp add: good_step_def cloud_inv_def cloud_keeps_def tenant_isolated_def
          bookkeeping_def dict_evolves_refl s')
  qed (simp add: inv good_step_refl)
qed

lemma rotate_credential_good:
  assumes inv: "cloud_inv rt s" and new: "new_credential c (dp_tenant_id dev) (dp_endpoint_id dev)"
    and fresh: "dict_get (cs_credentials s) (cr_token_hash c) = None"
  shows "good_step rt (Some (dp_tenant_id dev)) s
    (snd (rotate_credential dev eg ec c ov key d aud s))"
  unfolding rotate_credential_def Let_def
proof (rule good_step_idempotent [OF inv])
  fix r s'
  assume none: "dict_get (cs_idempotency s) (dp_tenant_id dev, ''rotate:'' @ dp_endpoint_id dev, key) = None"
    and run: "rotate_credential_body (''rotate:'' @ dp_endpoint_id dev) dev eg ec c ov key d aud s = (r, s')"
  show "good_step rt (Some (dp_tenant_id dev)) s s'"
  proof (cases "s' = s")
    case False
    let ?cur = "\<lambda>cur. cur\<lparr>cr_superseded_at := Some (cr_issued_at c),
        cr_valid_until := Some (min (cr_expires_at cur) (cr_issued_at c + seconds ov))\<rparr>"
    let ?ep = "\<lambda>ep. ep\<lparr>ep_credential_generation := cr_generation c, ep_last_seen_at := cr_issued_at c\<rparr>"
    obtain ep h cur where
      ep: "dict_get (cs_endpoints s) (dp_endpoint_id dev) = Some ep" "ep_tenant_id ep = dp_tenant_id dev"
        "ep_credential_generation ep = dp_generation dev"
      and gen: "cr_generation c = dp_generation dev + 1"
      and mem: "(h, cur) \<in> set (cs_credentials s)"
      and cur: "cr_tenant_id cur = dp_tenant_id dev" "cr_endpoint_id cur = dp_endpoint_id dev"
        "cr_generation cur = dp_generation dev"
      and s': "s' = audit (dp_tenant_id dev) ''ENDPOINT_CREDENTIAL_ROTATED'' ''endpoint''
         (JStr (dp_endpoint_id dev)) ''endpoint'' (JStr (dp_endpoint_id dev))
         [(''generation'', JInt (cr_generation c))] aud
         (remember (dp_tenant_id dev) (''rotate:'' @ dp_endpoint_id dev) key d (RCredential c)
           (s\<lparr>cs_credentials := dict_set (cr_token_hash c) c (dict_set h (?cur cur) (cs_credentials s)),
              cs_endpoints := dict_set (ep_endpoint_id ep) (?ep ep) (cs_endpoints s)\<rparr>))"
      using rotate_credential_body_effect [OF run] False by blast
    have id: "ep_endpoint_id ep = dp_endpoint_id dev"
      using dict_allD [OF cloud_invD(6) [OF inv] ep(1)] by (simp add: endpoint_ok_def)
    have get: "dict_get (cs_credentials s) h = Some cur"
      using mem cloud_invD(7) [OF inv] by (simp add: dict_get_mem credentials_ok_def dict_all_def)
    have open_cred: "cr_superseded_at cur = None" "cr_valid_until cur = None"
      using credentials_okD [OF cloud_invD(7) [OF inv] get] ep cur by (auto simp: credential_ok_def)
    have "bookkeeping s s'" unfolding s' by (rule bookkeeping_remember(2) [OF none]; simp)
    moreover have "dict_all endpoint_ok (dict_set (dp_endpoint_id dev) (?ep ep) (cs_endpoints s))"
      using cloud_invD(6) [OF inv] by (rule dict_all_set) (simp add: endpoint_ok_def id)
    moreover have "dict_evolves endpoint_keeps (cs_endpoints s) (dict_set (dp_endpoint_id dev) (?ep ep) (cs_endpoints s))"
      using ep gen by (intro dict_evolves_set) (auto simp: endpoint_keeps_def)
    moreover have "dict_evolves credential_keeps (cs_credentials s)
        (dict_set (cr_token_hash c) c (dict_set h (?cur cur) (cs_credentials s)))"
      using get open_cred fresh by (auto simp: dict_evolves_def credential_keeps_def)
    moreover note credentials_rotate [OF cloud_invD(7) [OF inv] new ep(1,2) id ep(3) gen get cur(2,3) fresh]
    moreover have "others_unchanged ep_tenant_id (dp_tenant_id dev) (cs_endpoints s)
        (dict_set (dp_endpoint_id dev) (?ep ep) (cs_endpoints s))"
      using ep by (intro others_unchanged_set) auto
    moreover have "others_unchanged cr_tenant_id (dp_tenant_id dev) (cs_credentials s)
        (dict_set (cr_token_hash c) c (dict_set h (?cur cur) (cs_credentials s)))"
      using get cur fresh new
      by (intro others_unchanged_trans [OF others_unchanged_set others_unchanged_set])
        (auto simp: new_credential_def split: if_splits)
    ultimately show ?thesis
      using inv by (simp add: good_step_def cloud_inv_def cloud_keeps_def tenant_isolated_def
          bookkeeping_def dict_evolves_refl s' id)
  qed (simp add: inv good_step_refl)
qed

lemma ingest_scan_good:
  assumes inv: "cloud_inv rt s" and new: "\<And>t. t \<in> set tasks \<Longrightarrow> new_task t"
  shows "good_step rt (Some (dp_tenant_id dev)) s (snd (ingest_scan rt dev k u key d tasks now aud s))"
  unfolding ingest_scan_def Let_def
proof (rule good_step_idempotent [OF inv])
  fix r s'
  let ?key = "(dp_tenant_id dev, dp_endpoint_id dev)"
  assume none: "dict_get (cs_idempotency s) (dp_tenant_id dev, ''ingest:'' @ k, key) = None"
    and run: "ingest_scan_body rt (''ingest:'' @ k) dev k u key d tasks now aud s = (r, s')"
  show "good_step rt (Some (dp_tenant_id dev)) s s'"
  proof (cases "s' = s")
    case False
    then obtain rec sync iv acc where own: "owned_scan dev k s = Some rec" and up: "sr_upload rec = None"
      and valid: "validate_scan_upload rt rec u now = Inr ()"
      and recon: "reconstruct_inventory rt (dp_tenant_id dev) (dp_endpoint_id dev) k (jget ''inventory_sync'' u)
         (dict_get (cs_inventory_states s) ?key) now = Inr (sync, iv)"
      and chk: "check_tasks dev k tasks s = Inr ()"
      and acc: "acc = rec\<lparr>sr_state := ''ANALYZING'',
         sr_upload := Some (dict_set ''inventory_sync'' (JObj sync) u), sr_updated_at := now\<rparr>"
      and aud: "maybe_audited (remember (dp_tenant_id dev) (''ingest:'' @ k) key d (RScan acc)
       (s\<lparr>cs_scans := dict_set k acc (cs_scans s),
          cs_inventory_states := dict_set ?key iv (cs_inventory_states s),
          cs_tasks := add_tasks tasks (cs_tasks s)\<rparr>)) s'"
      using ingest_scan_body_effect [OF run] by blast
    have get: "dict_get (cs_scans s) k = Some rec" "sr_tenant_id rec = dp_tenant_id dev"
      "sr_endpoint_id rec = dp_endpoint_id dev"
      using own by (simp_all add: owned_scan_Some)
    have task: "at_scan_id t = k" "at_tenant_id t = dp_tenant_id dev" "at_endpoint_id t = dp_endpoint_id dev"
      "dict_get (cs_tasks s) (at_task_id t) = None" if "t \<in> set tasks" for t
      using chk that by (simp_all add: check_tasks_Inr)
    have row: "scan_ok k acc" "scan_keeps rec acc"
      using dict_allD [OF cloud_invD(1) [OF inv] get(1)] up valid
      by (simp_all add: acc scan_ok_accept scan_keeps_accept)
    have iv: "inventory_ok rt ?key iv"
      using reconstruct_inventory_ok [OF recon] dict_allD [OF cloud_invD(4) [OF inv]] by blast
    have iv_tenant: "iv_tenant_id w = dp_tenant_id dev" if "inventory_ok rt ?key w" for w
      using that by (simp add: inventory_ok_def)
    have "bookkeeping s s'"
      by (rule maybe_audited_bookkeeping [OF aud]) (rule bookkeeping_remember(1) [OF none]; simp)
    moreover have "dict_all scan_ok (dict_set k acc (cs_scans s))"
      using cloud_invD(1) [OF inv] row(1) by (rule dict_all_set)
    moreover have ev: "dict_evolves scan_keeps (cs_scans s) (dict_set k acc (cs_scans s))"
      using get row(2) by (intro dict_evolves_set) auto
    moreover have "dict_all task_ok (add_tasks tasks (cs_tasks s))"
      by (rule add_tasks_all [OF cloud_invD(2) [OF inv]])
        (use new in \<open>fastforce simp: task_ok_def new_task_def\<close>)
    moreover have "tasks_attached (dict_set k acc (cs_scans s)) (add_tasks tasks (cs_tasks s))"
      using tasks_attached_evolves [OF cloud_invD(3) [OF inv] ev] task get
      unfolding tasks_attached_def by (rule_tac add_tasks_all) (auto simp: acc)
    moreover have "dict_evolves task_keeps (cs_tasks s) (add_tasks tasks (cs_tasks s))"
      using task(4) by (auto simp: dict_evolves_def add_tasks_get)
    moreover have "dict_all (inventory_ok rt) (dict_set ?key iv (cs_inventory_states s))"
      using cloud_invD(4) [OF inv] iv by (rule dict_all_set)
    moreover have "others_unchanged sr_tenant_id (dp_tenant_id dev) (cs_scans s) (dict_set k acc (cs_scans s))"
      using get by (intro others_unchanged_set) (auto simp: acc)
    moreover have "others_unchanged iv_tenant_id (dp_tenant_id dev) (cs_inventory_states s)
        (dict_set ?key iv (cs_inventory_states s))"
      using iv iv_tenant dict_allD [OF cloud_invD(4) [OF inv]] by (intro others_unchanged_set) auto
    moreover have "others_unchanged at_tenant_id (dp_tenant_id dev) (cs_tasks s) (add_tasks tasks (cs_tasks s))"
      unfolding others_unchanged_def add_tasks_get
    proof (intro allI impI)
      fix i and v :: analysis_task
      assume v: "at_tenant_id v \<noteq> dp_tenant_id dev"
      show "((if \<exists>t \<in> set tasks. at_task_id t = i then Some (last (filter (\<lambda>t. at_task_id t = i) tasks))
          else dict_get (cs_tasks s) i) = Some v) = (dict_get (cs_tasks s) i = Some v)"
      proof (cases "\<exists>t \<in> set tasks. at_task_id t = i")
        case True
        then have "last (filter (\<lambda>t. at_task_id t = i) tasks) \<in> set tasks"
          by (metis (mono_tags, lifting) filter_empty_conv filter_is_subset last_in_set subsetD)
        with True task v show ?thesis by (metis option.inject option.discI)
      qed auto
    qed
    ultimately show ?thesis
      using inv maybe_audited_frame [OF aud]
      by (simp add: good_step_def cloud_inv_def cloud_keeps_def tenant_isolated_def bookkeeping_def
          dict_evolves_refl)
  qed (simp add: inv good_step_refl)
qed

lemma analysis_task_good:
  assumes inv: "cloud_inv rt s"
  shows "good_step rt None s (snd (claim_analysis_task kind w secs now s))"
    and "good_step rt None s (snd (complete_analysis_task k w res now s))"
    and "good_step rt None s (snd (fail_analysis_task k w err retry dead now s))"
proof -
  obtain r s' where run: "claim_analysis_task kind w secs now s = (r, s')" by fastforce
  have key: "at_task_id v = i" if "task_ok i v" for i v using that by (simp add: task_ok_def)
  show "good_step rt None s (snd (claim_analysis_task kind w secs now s))"
    using claim_analysis_task_effect [OF run]
  proof (elim disjE exE conjE)
    fix task c
    assume mem: "task \<in> set (dict_values (cs_tasks s))" and el: "task_eligible now task"
      and c: "c = task\<lparr>at_state := RUNNING, at_attempts := at_attempts task + 1, at_leased_by := Some w,
        at_lease_expires_at := Some (now + seconds secs), at_updated_at := now\<rparr>"
      and s': "s' = s\<lparr>cs_tasks := dict_set (at_task_id task) c (cs_tasks s)\<rparr>"
    have get: "dict_get (cs_tasks s) (at_task_id task) = Some task"
      using keyed_values(2) [where key = at_task_id, OF cloud_invD(2) [OF inv] key mem] .
    then have ok: "task_ok (at_task_id task) task" using dict_allD [OF cloud_invD(2) [OF inv]] by blast
    have "good_step rt None s s'"
      unfolding s' c
      by (rule good_step_task [OF inv get task_ok_claim [OF ok el] task_keeps_claim [OF el] refl])
    then show ?thesis by (simp add: run)
  qed (simp add: run inv good_step_refl)
  obtain r s' where run: "complete_analysis_task k w res now s = (r, s')" by fastforce
  show "good_step rt None s (snd (complete_analysis_task k w res now s))"
    using complete_analysis_task_effect [OF run] dict_allD [OF cloud_invD(2) [OF inv]]
    by (auto simp: run leased_task_Inr intro: good_step_refl [OF inv]
        good_step_task [OF inv _ task_ok_complete task_keeps_complete])
  obtain r s' where run: "fail_analysis_task k w err retry dead now s = (r, s')" by fastforce
  show "good_step rt None s (snd (fail_analysis_task k w err retry dead now s))"
    using fail_analysis_task_effect [OF run] dict_allD [OF cloud_invD(2) [OF inv]]
    by (auto simp only: run snd_conv leased_task_Inr intro: good_step_refl [OF inv]
        good_step_task [OF inv _ task_ok_fail task_keeps_fail])
qed

lemma final_report_good:
  assumes inv: "cloud_inv rt s" and rec: "dict_get (cs_scans s) k = Some rec" "sr_final_report rec = None"
    and aud: "maybe_audited (s\<lparr>cs_scans := dict_set k
        (rec\<lparr>sr_state := ''COMPLETE'', sr_final_report := Some rep, sr_updated_at := now\<rparr>) (cs_scans s)\<rparr>) s'"
  shows "good_step rt None s s'"
proof -
  have "bookkeeping s s'"
    by (rule maybe_audited_bookkeeping [OF aud]) (simp add: bookkeeping_def dict_evolves_refl)
  moreover have "scan_ok k rec" using dict_allD [OF cloud_invD(1) [OF inv] rec(1)] .
  ultimately show ?thesis
    using rec maybe_audited_frame [OF aud]
    by (intro good_step_scan [OF inv rec(1) scan_ok_final scan_keeps_final]) simp_all
qed

lemma finalize_good:
  assumes inv: "cloud_inv rt s"
  shows "good_step rt None s (snd (finalize_scan_report k rep now aud s))"
    and "good_step rt None s (snd (finalize_scan_report_failure rt k err ct now aud s))"
proof -
  obtain r s' where run: "finalize_scan_report k rep now aud s = (r, s')" by fastforce
  show "good_step rt None s (snd (finalize_scan_report k rep now aud s))"
    using finalize_scan_report_effect [OF run]
    by (auto simp: run intro: good_step_refl [OF inv] final_report_good [OF inv])
  obtain r s' where run: "finalize_scan_report_failure rt k err ct now aud s = (r, s')" by fastforce
  show "good_step rt None s (snd (finalize_scan_report_failure rt k err ct now aud s))"
    using finalize_scan_report_failure_effect [OF run]
    by (auto simp: run intro: good_step_refl [OF inv] final_report_good [OF inv])
qed

lemma claim_loop_good:
  assumes inv: "cloud_inv rt s" and cs: "cs = sort_key f (dict_values (cs_scans s))"
  shows "good_step rt (Some (dp_tenant_id dev)) s (snd (claim_loop rt dev now clk cs s))"
proof -
  let ?s = "snd (claim_loop rt dev now clk cs s)"
  define P where "P = (\<lambda>d d'. dict_all scan_ok d \<longrightarrow> dict_all scan_ok d' \<and> dict_evolves scan_keeps d d'
    \<and> others_unchanged sr_tenant_id (dp_tenant_id dev) d d')"
  have "P (cs_scans s) (cs_scans ?s)"
  proof (rule claim_loop_scans)
    show "distinct (map sr_scan_id cs)" unfolding cs by (rule candidates_current(1) [OF cloud_invD(1) [OF inv]])
    show "dict_get (cs_scans s) (sr_scan_id rec) = Some rec" if "rec \<in> set cs" for rec
      using candidates_current(2) [OF cloud_invD(1) [OF inv]] that unfolding cs by blast
    show "P d d" for d by (simp add: P_def dict_evolves_refl)
    show "P d d'"
      if rec: "dict_get d (sr_scan_id rec) = Some rec" "sr_tenant_id rec = dp_tenant_id dev"
        "sr_state rec = ''QUEUED'' \<or> sr_state rec = ''DISPATCHED''"
        "st = ''EXPIRED'' \<or> st = ''DISPATCHED'' \<and> job_dispatch_eligibility rt rec (dp_endpoint_id dev) now = ELIGIBLE"
        and P: "P (dict_set (sr_scan_id rec) (rec\<lparr>sr_state := st, sr_updated_at := now\<rparr>) d) d'" for d rec st d'
    proof -
      let ?r = "rec\<lparr>sr_state := st, sr_updated_at := now\<rparr>" and ?k = "sr_scan_id rec"
      have st: "st = ''EXPIRED'' \<or> st = ''DISPATCHED''" using rec(4) by auto
      have "dict_evolves scan_keeps d (dict_set ?k ?r d)"
        using rec scan_keeps_dispatch by (intro dict_evolves_set) auto
      moreover have "others_unchanged sr_tenant_id (dp_tenant_id dev) d (dict_set ?k ?r d)"
        using rec by (intro others_unchanged_set) auto
      moreover have "dict_all scan_ok (dict_set ?k ?r d)" if "dict_all scan_ok d"
        using that dict_allD [OF that rec(1)] rec(3) st by (intro dict_all_set scan_ok_dispatch)
      ultimately show ?thesis
        using P evolves_trans(1) others_unchanged_trans unfolding P_def by metis
    qed
  qed
  then have row: "dict_all scan_ok (cs_scans ?s)" and ev: "dict_evolves scan_keeps (cs_scans s) (cs_scans ?s)"
    and oth: "others_unchanged sr_tenant_id (dp_tenant_id dev) (cs_scans s) (cs_scans ?s)"
    using cloud_invD(1) [OF inv] by (auto simp: P_def)
  have "tasks_attached (cs_scans ?s) (cs_tasks s)"
    by (rule tasks_attached_evolves [OF cloud_invD(3) [OF inv] ev])
  with row ev oth inv show ?thesis
    by (simp add: good_step_def cloud_inv_def cloud_keeps_def tenant_isolated_def claim_loop_frame
        claim_loop_audit dict_evolves_refl)
qed

lemma tenant_isolated_trans: "tenant_isolated t s u \<Longrightarrow> tenant_isolated t u v \<Longrightarrow> tenant_isolated t s v"
  unfolding tenant_isolated_def
  by (elim conjE, intro conjI) (rule others_unchanged_trans, assumption, assumption)+

lemma good_step_trans: "good_step rt t s u \<Longrightarrow> good_step rt t u v \<Longrightarrow> good_step rt t s v"
  unfolding good_step_def by (auto intro: cloud_keeps_trans tenant_isolated_trans)

lemma endpoint_seen_good:
  assumes inv: "cloud_inv rt s" and e: "dict_get (cs_endpoints s) k = Some e" "ep_tenant_id e = t"
  shows "good_step rt (Some t) s (s\<lparr>cs_endpoints := dict_set k (e\<lparr>ep_last_seen_at := n\<rparr>) (cs_endpoints s)\<rparr>)"
proof -
  have "dict_all endpoint_ok (dict_set k (e\<lparr>ep_last_seen_at := n\<rparr>) (cs_endpoints s))"
    using cloud_invD(6) [OF inv] dict_allD [OF cloud_invD(6) [OF inv] e(1)]
    by (intro dict_all_set) (simp_all add: endpoint_ok_def)
  moreover have "dict_evolves endpoint_keeps (cs_endpoints s)
      (dict_set k (e\<lparr>ep_last_seen_at := n\<rparr>) (cs_endpoints s))"
    using e by (intro dict_evolves_set) (auto simp: endpoint_keeps_def)
  moreover have "others_unchanged ep_tenant_id t (cs_endpoints s)
      (dict_set k (e\<lparr>ep_last_seen_at := n\<rparr>) (cs_endpoints s))"
    using e by (intro others_unchanged_set) auto
  moreover note credentials_seen [OF cloud_invD(7) [OF inv] e(1), of n]
  ultimately show ?thesis
    using inv by (simp add: good_step_def cloud_inv_def cloud_keeps_def tenant_isolated_def dict_evolves_refl)
qed

lemma claim_next_job_good:
  assumes inv: "cloud_inv rt s"
  shows "good_step rt (Some (dp_tenant_id dev)) s (snd (claim_next_job rt dev now clk s))"
proof -
  define u where "u = (case dict_get (cs_endpoints s) (dp_endpoint_id dev) of None \<Rightarrow> s
     | Some e \<Rightarrow> if ep_tenant_id e = dp_tenant_id dev
         then s\<lparr>cs_endpoints := dict_set (dp_endpoint_id dev) (e\<lparr>ep_last_seen_at := now\<rparr>) (cs_endpoints s)\<rparr>
         else s)"
  have "good_step rt (Some (dp_tenant_id dev)) s u"
    unfolding u_def using inv by (auto intro: endpoint_seen_good good_step_refl split: option.split)
  moreover from this have "cloud_inv rt u" by (simp add: good_step_def)
  ultimately show ?thesis
    unfolding claim_next_job_def Let_def u_def [symmetric]
    by (blast intro: good_step_trans claim_loop_good)
qed

section \<open>Steps and runs\<close>

inductive cloud_step :: "runtime \<Rightarrow> string option \<Rightarrow> cloud_state \<Rightarrow> cloud_state \<Rightarrow> bool" for rt where
  create_grant: "new_grant g \<Longrightarrow>
    cloud_step rt (Some (eg_tenant_id g)) s (snd (create_enrollment_grant rt g key d aud s))"
| enroll: "ep_tenant_id ep = t \<Longrightarrow> new_credential c t (ep_endpoint_id ep) \<Longrightarrow>
    cr_generation c = ep_credential_generation ep \<Longrightarrow>
    cloud_step rt (Some t) s (snd (enroll_endpoint t ep c key d gh aud s))"
| rotate: "new_credential c (dp_tenant_id dev) (dp_endpoint_id dev) \<Longrightarrow>
    dict_get (cs_credentials s) (cr_token_hash c) = None \<Longrightarrow>
    cloud_step rt (Some (dp_tenant_id dev)) s (snd (rotate_credential dev eg ec c ov key d aud s))"
| create_scan: "new_scan rec \<Longrightarrow> sr_tenant_id rec = t \<Longrightarrow>
    cloud_step rt (Some t) s (snd (create_scan_job t rec key d aud s))"
| claim_job: "cloud_step rt (Some (dp_tenant_id dev)) s (snd (claim_next_job rt dev now clk s))"
| ingest: "(\<And>a. a \<in> set tasks \<Longrightarrow> new_task a) \<Longrightarrow>
    cloud_step rt (Some (dp_tenant_id dev)) s (snd (ingest_scan rt dev k u key d tasks now aud s))"
| status: "cloud_step rt (Some (dp_tenant_id dev)) s (snd (record_scan_status dev k st key d now aud s))"
| reject: "cloud_step rt (Some (dp_tenant_id dev)) s (snd (record_rejection rt dev p key d now aud s))"
| claim_task: "cloud_step rt None s (snd (claim_analysis_task kind w secs now s))"
| complete_task: "cloud_step rt None s (snd (complete_analysis_task k w res now s))"
| fail_task: "cloud_step rt None s (snd (fail_analysis_task k w err retry dead now s))"
| finalize: "cloud_step rt None s (snd (finalize_scan_report k rep now aud s))"
| finalize_failure: "cloud_step rt None s (snd (finalize_scan_report_failure rt k err ct now aud s))"

inductive_cases cloud_stepE: "cloud_step rt t s s'"

lemma cloud_step_good: "cloud_step rt t s s' \<Longrightarrow> cloud_inv rt s \<Longrightarrow> good_step rt t s s'"
  by (induction rule: cloud_step.induct)
    (simp_all add: create_enrollment_grant_good enroll_endpoint_good rotate_credential_good
      create_scan_job_good claim_next_job_good ingest_scan_good record_scan_status_good
      record_rejection_good analysis_task_good finalize_good)

lemma cloud_inv_init: "cloud_inv rt cloud_init"
  by (simp add: cloud_inv_def cloud_init_def tasks_attached_def credentials_ok_def unique_generations_def)

definition any_step :: "runtime \<Rightarrow> cloud_state \<Rightarrow> cloud_state \<Rightarrow> bool" where
  "any_step rt s s' \<longleftrightarrow> (\<exists>t. cloud_step rt t s s')"

interpretation cloud: monotone_history "\<lambda>s. s = cloud_init" "any_step rt" "cloud_inv rt" cloud_keeps
  for rt
  by unfold_locales
    (auto simp: any_step_def good_step_def intro: cloud_inv_init cloud_keeps_refl cloud_keeps_trans
      dest: cloud_step_good)

text \<open>The states some sequence of operations leads to, starting from an empty repository.\<close>

definition cloud_reachable :: "runtime \<Rightarrow> cloud_state \<Rightarrow> bool" where
  "cloud_reachable rt s \<longleftrightarrow> (any_step rt)\<^sup>*\<^sup>* cloud_init s"

lemma cloud_reachable_iff: "cloud_reachable rt s \<longleftrightarrow> cloud.reachable rt s"
  by (simp add: cloud_reachable_def cloud.reachable_def)

lemma cloud_reachable_inv: "cloud_reachable rt s \<Longrightarrow> cloud_inv rt s"
  by (simp add: cloud_reachable_iff cloud.inv_reachable)

lemma cloud_reachable_keeps: "cloud_reachable rt s \<Longrightarrow> (any_step rt)\<^sup>*\<^sup>* s s' \<Longrightarrow> cloud_keeps s s'"
  by (simp add: cloud_reachable_iff cloud.keeps_reachable)

end
