(* ===== verification/Cloud_Demo.thy ===== *)
theory Cloud_Demo
  imports Cloud_Steps "HOL-Library.Code_Target_Nat"
begin

text \<open>
  One complete run of the repository at concrete values: an endpoint enrolls with a grant, a
  scan is created, dispatched, its evidence ingested and its status recorded, the two analysis
  tasks run and the report is finalized. The witnesses of the properties evaluate on it.
\<close>

definition demo_rt :: runtime where
  "demo_rt = \<lparr> rt_sha256 = (\<lambda>s. replicate 63 (CHR ''a'') @ [if length s < 40 then CHR ''0'' else CHR ''1'']),
     rt_float_repr = (\<lambda>_. ''0.5''),
     rt_fromisoformat = (\<lambda>s. if s = ''2026-01-01T00:00:00+00:00'' then Some (Some 0)
        else if s = ''2026-01-02T00:00:00+00:00'' then Some (Some 86400000000) else None),
     rt_isoformat = (\<lambda>_. ''2026-01-01T00:00:00+00:00'') \<rparr>"

definition demo_grant :: enrollment_grant where
  "demo_grant = \<lparr> eg_tenant_id = ''t1'', eg_grant_id = ''g1'', eg_token_hash = ''gh'',
     eg_issued_by = ''admin'', eg_issued_at = 0, eg_expires_at = 5000000, eg_os_family = Some ''linux'',
     eg_label = None, eg_consumed_at = None, eg_endpoint_id = None \<rparr>"

definition demo_endpoint :: endpoint_record where
  "demo_endpoint = \<lparr> ep_tenant_id = ''t1'', ep_endpoint_id = ''e1'', ep_hostname = ''host'',
     ep_os_family = ''linux'', ep_os_version = ''1'', ep_architecture = ''x86_64'',
     ep_scanner_version = ''1'', ep_credential_generation = 1, ep_enrolled_at = 1000000,
     ep_last_seen_at = 1000000 \<rparr>"

definition demo_credential :: "string \<Rightarrow> string \<Rightarrow> int \<Rightarrow> credential_record" where
  "demo_credential cid token gen = \<lparr> cr_tenant_id = ''t1'', cr_endpoint_id = ''e1'', cr_credential_id = cid,
     cr_token_hash = token, cr_generation = gen, cr_issued_at = 1000000, cr_expires_at = 90000000,
     cr_superseded_at = None, cr_valid_until = None \<rparr>"

definition demo_device :: device_principal where
  "demo_device = \<lparr> dp_tenant_id = ''t1'', dp_endpoint_id = ''e1'', dp_credential_id = ''c1'', dp_generation = 1 \<rparr>"

definition demo_job :: jobj where
  "demo_job = [(''scan_type'', JStr ''FULL''), (''policy_id'', JStr ''p''), (''timeout_seconds'', JInt 900),
     (''deadline'', JStr ''2026-01-02T00:00:00Z''),
     (''authorization'', JObj [(''authorized'', JBool True), (''scope_id'', JStr ''scope''),
        (''authorization_reference'', JStr ''ref''),
        (''valid_from'', JStr ''2026-01-01T00:00:00Z''), (''expires_at'', JStr ''2026-01-02T00:00:00Z''),
        (''allowed_endpoint_ids'', JArr [JStr ''e1''])])]"

definition demo_scan :: scan_record where
  "demo_scan = \<lparr> sr_tenant_id = ''t1'', sr_endpoint_id = ''e1'', sr_scan_id = ''s1'', sr_job_id = ''j1'',
     sr_state = ''QUEUED'', sr_job_document = demo_job, sr_created_at = 2000000, sr_updated_at = 2000000,
     sr_upload = None, sr_terminal_status = None, sr_final_report = None \<rparr>"

definition demo_result :: jobj where
  "demo_result = [(''scan_id'', JStr ''s1''), (''endpoint_id'', JStr ''e1''), (''scan_type'', JStr ''FULL''),
     (''authorization_scope_id'', JStr ''scope''), (''policy_id'', JStr ''p''), (''status'', JStr ''SUCCESS'')]"

definition demo_upload :: jobj where
  "demo_upload = [(''result'', JObj demo_result),
     (''inventory_sync'', JObj [(''scan_id'', JStr ''s1''), (''endpoint_id'', JStr ''e1''),
        (''mode'', JStr ''full''), (''previous_hash'', JNull),
        (''snapshot_hash'', JStr (replicate 63 (CHR ''a'') @ ''0'')),
        (''snapshot'', JObj [(''software'', JArr [])])])]"

definition demo_task :: "string \<Rightarrow> task_kind \<Rightarrow> analysis_task" where
  "demo_task tid kind = \<lparr> at_task_id = tid, at_tenant_id = ''t1'', at_endpoint_id = ''e1'', at_scan_id = ''s1'',
     at_kind = kind, at_state = PENDING, at_attempts = 0, at_payload = [], at_created_at = 4000000,
     at_updated_at = 4000000, at_available_at = 4000000, at_lease_expires_at = None, at_leased_by = None,
     at_last_error = None, at_result = None \<rparr>"

definition "demo0 = cloud_init"
definition "demo1 = snd (create_enrollment_grant demo_rt demo_grant ''k0'' ''d'' 0 demo0)"
definition "demo2 = snd (enroll_endpoint ''t1'' demo_endpoint (demo_credential ''c1'' ''h1'' 1) ''k1'' ''d'' (Some ''gh'') 0 demo1)"
definition "demo3 = snd (create_scan_job ''t1'' demo_scan ''k2'' ''d'' 0 demo2)"
definition "demo4 = snd (claim_next_job demo_rt demo_device 3000000 (\<lambda>_. 0) demo3)"
definition "demo5 = snd (ingest_scan demo_rt demo_device ''s1'' demo_upload ''k3'' ''d''
   [demo_task ''a1'' OSV, demo_task ''a2'' DEPSCAN] 4000000 0 demo4)"
definition "demo6 = snd (record_scan_status demo_device ''s1'' demo_result ''k4'' ''d'' 5000000 0 demo5)"
definition "demo7 = snd (complete_analysis_task ''a1'' ''w'' [] 7000000
   (snd (claim_analysis_task OSV ''w'' 60 6000000 demo6)))"
definition "demo8 = snd (fail_analysis_task ''a2'' ''w'' ''boom'' 0 True 9000000
   (snd (claim_analysis_task DEPSCAN ''w'' 60 8000000 demo7)))"
definition "demo9 = snd (finalize_scan_report ''s1'' [(''status'', JStr ''PARTIAL'')] 10000000 0 demo8)"

text \<open>The run passes through the states it should, and every state of it is reachable.\<close>

lemma demo_states:
  "map_option sr_state (dict_get (cs_scans demo3) ''s1'') = Some ''QUEUED''"
  "map_option sr_state (dict_get (cs_scans demo4) ''s1'') = Some ''DISPATCHED''"
  "map_option sr_state (dict_get (cs_scans demo5) ''s1'') = Some ''ANALYZING''"
  "map_option at_state (dict_get (cs_tasks demo7) ''a1'') = Some SUCCEEDED"
  "map_option at_state (dict_get (cs_tasks demo8) ''a2'') = Some FAILED"
  "map_option sr_state (dict_get (cs_scans demo9) ''s1'') = Some ''COMPLETE''"
  by code_simp+

lemma demo_new:
  "new_grant demo_grant" "new_scan demo_scan" "new_task (demo_task i k)"
  "new_credential (demo_credential c h g) ''t1'' ''e1''"
  by (simp_all add: new_grant_def demo_grant_def new_scan_def demo_scan_def new_task_def demo_task_def
      new_credential_def demo_credential_def)

lemma demo_steps:
  "any_step demo_rt demo0 demo1" "any_step demo_rt demo1 demo2" "any_step demo_rt demo2 demo3"
  "any_step demo_rt demo3 demo4" "any_step demo_rt demo4 demo5" "any_step demo_rt demo5 demo6"
  "(any_step demo_rt)\<^sup>*\<^sup>* demo6 demo7" "(any_step demo_rt)\<^sup>*\<^sup>* demo7 demo8"
  "any_step demo_rt demo8 demo9"
proof -
  show "any_step demo_rt demo0 demo1"
    unfolding any_step_def demo1_def using cloud_step.create_grant [OF demo_new(1)] by blast
  show "any_step demo_rt demo1 demo2"
    unfolding any_step_def demo2_def
    by (rule exI, rule cloud_step.enroll) (simp_all add: demo_endpoint_def demo_new demo_credential_def new_credential_def)
  show "any_step demo_rt demo2 demo3"
    unfolding any_step_def demo3_def
    by (rule exI, rule cloud_step.create_scan) (simp_all add: demo_new demo_scan_def new_scan_def)
  show "any_step demo_rt demo3 demo4"
    unfolding any_step_def demo4_def by (rule exI, rule cloud_step.claim_job)
  show "any_step demo_rt demo4 demo5"
    unfolding any_step_def demo5_def by (rule exI, rule cloud_step.ingest) (auto simp: demo_new)
  show "any_step demo_rt demo5 demo6"
    unfolding any_step_def demo6_def by (rule exI, rule cloud_step.status)
  show "any_step demo_rt demo8 demo9"
    unfolding any_step_def demo9_def by (rule exI, rule cloud_step.finalize)
  have "any_step demo_rt demo6 (snd (claim_analysis_task OSV ''w'' 60 6000000 demo6))"
    unfolding any_step_def by (rule exI, rule cloud_step.claim_task)
  moreover have "any_step demo_rt (snd (claim_analysis_task OSV ''w'' 60 6000000 demo6)) demo7"
    unfolding any_step_def demo7_def by (rule exI, rule cloud_step.complete_task)
  ultimately show "(any_step demo_rt)\<^sup>*\<^sup>* demo6 demo7" by simp
  have "any_step demo_rt demo7 (snd (claim_analysis_task DEPSCAN ''w'' 60 8000000 demo7))"
    unfolding any_step_def by (rule exI, rule cloud_step.claim_task)
  moreover have "any_step demo_rt (snd (claim_analysis_task DEPSCAN ''w'' 60 8000000 demo7)) demo8"
    unfolding any_step_def demo8_def by (rule exI, rule cloud_step.fail_task)
  ultimately show "(any_step demo_rt)\<^sup>*\<^sup>* demo7 demo8" by simp
qed

lemma demo_reachable:
  "cloud_reachable demo_rt demo0" "cloud_reachable demo_rt demo1" "cloud_reachable demo_rt demo2"
  "cloud_reachable demo_rt demo3" "cloud_reachable demo_rt demo4" "cloud_reachable demo_rt demo5"
  "cloud_reachable demo_rt demo6" "cloud_reachable demo_rt demo7" "cloud_reachable demo_rt demo8"
  "cloud_reachable demo_rt demo9"
proof -
  show r0: "cloud_reachable demo_rt demo0" by (simp add: cloud_reachable_def demo0_def)
  show r1: "cloud_reachable demo_rt demo1"
    using r0 demo_steps(1) unfolding cloud_reachable_def by (rule rtranclp.rtrancl_into_rtrancl)
  show r2: "cloud_reachable demo_rt demo2"
    using r1 demo_steps(2) unfolding cloud_reachable_def by (rule rtranclp.rtrancl_into_rtrancl)
  show r3: "cloud_reachable demo_rt demo3"
    using r2 demo_steps(3) unfolding cloud_reachable_def by (rule rtranclp.rtrancl_into_rtrancl)
  show r4: "cloud_reachable demo_rt demo4"
    using r3 demo_steps(4) unfolding cloud_reachable_def by (rule rtranclp.rtrancl_into_rtrancl)
  show r5: "cloud_reachable demo_rt demo5"
    using r4 demo_steps(5) unfolding cloud_reachable_def by (rule rtranclp.rtrancl_into_rtrancl)
  show r6: "cloud_reachable demo_rt demo6"
    using r5 demo_steps(6) unfolding cloud_reachable_def by (rule rtranclp.rtrancl_into_rtrancl)
  show r7: "cloud_reachable demo_rt demo7"
    using r6 demo_steps(7) unfolding cloud_reachable_def by (rule rtranclp_trans)
  show r8: "cloud_reachable demo_rt demo8"
    using r7 demo_steps(8) unfolding cloud_reachable_def by (rule rtranclp_trans)
  show "cloud_reachable demo_rt demo9"
    using r8 demo_steps(9) unfolding cloud_reachable_def by (rule rtranclp.rtrancl_into_rtrancl)
qed

end
