(* ===== verification/Cloud_Properties.thy ===== *)
theory Cloud_Properties
  imports Cloud_Demo
begin

text \<open>
  The properties of the repository. Each states what the operations promise over every run; its
  witness evaluates it on the run of \<^verbatim>\<open>Cloud_Demo\<close>.
\<close>

section \<open>Immutable history\<close>

lemma demo_run: "(any_step demo_rt)\<^sup>*\<^sup>* demo6 demo9" "(any_step demo_rt)\<^sup>*\<^sup>* demo5 demo9"
proof -
  have "(any_step demo_rt)\<^sup>*\<^sup>* demo6 demo8" using demo_steps(7,8) by (rule rtranclp_trans)
  then show a: "(any_step demo_rt)\<^sup>*\<^sup>* demo6 demo9"
    using demo_steps(9) by (rule rtranclp.rtrancl_into_rtrancl)
  show "(any_step demo_rt)\<^sup>*\<^sup>* demo5 demo9"
    using demo_steps(6) a by (rule converse_rtranclp_into_rtranclp)
qed

text \<open>C1: A scan record is never lost, and its tenant, endpoint, job document and creation time
  never change; accepted evidence, the terminal status and the final report are written at most
  once and never change afterwards; an undispatched state never comes back.\<close>

theorem scan_history:
  assumes "cloud_reachable rt s" and "(any_step rt)\<^sup>*\<^sup>* s s'"
    and "dict_get (cs_scans s) k = Some rec"
  shows "\<exists>rec'. dict_get (cs_scans s') k = Some rec'
    \<and> sr_scan_id rec' = k \<and> sr_tenant_id rec' = sr_tenant_id rec
    \<and> sr_endpoint_id rec' = sr_endpoint_id rec \<and> sr_job_document rec' = sr_job_document rec
    \<and> sr_created_at rec' = sr_created_at rec
    \<and> (sr_upload rec \<noteq> None \<longrightarrow> sr_upload rec' = sr_upload rec)
    \<and> (sr_terminal_status rec \<noteq> None \<longrightarrow> sr_terminal_status rec' = sr_terminal_status rec)
    \<and> (sr_final_report rec \<noteq> None \<longrightarrow> sr_final_report rec' = sr_final_report rec)
    \<and> (sr_state rec' = ''QUEUED'' \<or> sr_state rec' = ''DISPATCHED''
       \<longrightarrow> sr_state rec = ''QUEUED'' \<or> sr_state rec = ''DISPATCHED'')"
proof -
  have "dict_evolves scan_keeps (cs_scans s) (cs_scans s')"
    using cloud_reachable_keeps [OF assms(1,2)] by (simp add: cloud_keeps_def)
  then obtain rec' where "dict_get (cs_scans s') k = Some rec'" "scan_keeps rec rec'"
    using dict_evolvesD assms(3) by metis
  moreover have "sr_scan_id rec = k"
    using dict_allD [OF cloud_invD(1) [OF cloud_reachable_inv [OF assms(1)]] assms(3)]
    by (simp add: scan_ok_def)
  ultimately show ?thesis by (auto simp: scan_keeps_def)
qed

theorem scan_history_witness:
  "\<exists>rec'. dict_get (cs_scans demo9) ''s1'' = Some rec'
    \<and> sr_upload rec' = sr_upload (the (dict_get (cs_scans demo5) ''s1''))
    \<and> sr_upload rec' \<noteq> None \<and> sr_state rec' = ''COMPLETE''"
proof -
  obtain rec where rec: "dict_get (cs_scans demo5) ''s1'' = Some rec" "sr_state rec = ''ANALYZING''"
    using demo_states(3) by auto
  have "sr_upload rec \<noteq> None"
    using dict_allD [OF cloud_invD(1) [OF cloud_reachable_inv [OF demo_reachable(6)]] rec(1)] rec(2)
    by (simp add: scan_ok_def)
  with scan_history [OF demo_reachable(6) demo_run(2) rec(1)] rec demo_states(6) show ?thesis by auto
qed

section \<open>Isolation\<close>

text \<open>C2: An operation on behalf of one tenant leaves every row of every other tenant exactly as it
  was, in all six tables, and creates none.\<close>

theorem tenant_isolation:
  assumes "cloud_reachable rt s" and "cloud_step rt (Some t) s s'" and "u \<noteq> t"
  shows "(sr_tenant_id rec = u \<longrightarrow> (dict_get (cs_scans s') k = Some rec \<longleftrightarrow> dict_get (cs_scans s) k = Some rec))
    \<and> (at_tenant_id task = u \<longrightarrow> (dict_get (cs_tasks s') k = Some task \<longleftrightarrow> dict_get (cs_tasks s) k = Some task))
    \<and> (ep_tenant_id ep = u \<longrightarrow> (dict_get (cs_endpoints s') k = Some ep \<longleftrightarrow> dict_get (cs_endpoints s) k = Some ep))
    \<and> (cr_tenant_id c = u \<longrightarrow> (dict_get (cs_credentials s') k = Some c \<longleftrightarrow> dict_get (cs_credentials s) k = Some c))
    \<and> (eg_tenant_id g = u \<longrightarrow> (dict_get (cs_enrollment_grants s') k = Some g
         \<longleftrightarrow> dict_get (cs_enrollment_grants s) k = Some g))
    \<and> (iv_tenant_id iv = u \<longrightarrow> (dict_get (cs_inventory_states s') ik = Some iv
         \<longleftrightarrow> dict_get (cs_inventory_states s) ik = Some iv))"
  using cloud_step_good [OF assms(2) cloud_reachable_inv [OF assms(1)]] assms(3)
  by (cases ik) (simp add: good_step_def tenant_isolated_def others_unchanged_def)

theorem tenant_isolation_witness:
  "dict_get (cs_scans (snd (record_scan_status (demo_device\<lparr>dp_tenant_id := ''t2''\<rparr>) ''s1'' demo_result ''k'' ''d'' 0 0 demo5))) ''s1''
    = dict_get (cs_scans demo5) ''s1'' \<and> dict_get (cs_scans demo5) ''s1'' \<noteq> None"
proof -
  let ?dev = "demo_device\<lparr>dp_tenant_id := ''t2''\<rparr>"
  obtain rec where rec: "dict_get (cs_scans demo5) ''s1'' = Some rec" using demo_states(3) by auto
  have t: "sr_tenant_id rec = ''t1''"
  proof -
    have "map_option sr_tenant_id (dict_get (cs_scans demo5) ''s1'') = Some ''t1''" by code_simp
    with rec show ?thesis by simp
  qed
  have "cloud_step demo_rt (Some ''t2'') demo5
    (snd (record_scan_status ?dev ''s1'' demo_result ''k'' ''d'' 0 0 demo5))"
    using cloud_step.status [of demo_rt ?dev] by simp
  from tenant_isolation [OF demo_reachable(6) this, of "''t1''" rec "''s1''"] t rec
  show ?thesis by auto
qed

section \<open>Idempotency\<close>

lemma idempotent_replays:
  assumes "dict_get (cs_idempotency s) (t, oper, k) = Some (d, r)"
  shows "idempotent t oper k d body s = (Inr r, s)"
    and "d' \<noteq> d \<Longrightarrow> idempotent t oper k d' body s =
      (Inl (IdempotencyConflict ''idempotency key was reused with different content''), s)"
  using assms by (auto simp: idempotent_def replay_def)

lemma ingest_scan_remembered:
  assumes "ingest_scan rt dev k u key d tasks now aud s = (Inr r, s')"
  shows "dict_get (cs_idempotency s') (dp_tenant_id dev, ''ingest:'' @ k, key) = Some (d, r)"
proof (cases "dict_get (cs_idempotency s) (dp_tenant_id dev, ''ingest:'' @ k, key)")
  case (Some dr)
  with assms show ?thesis
    by (auto simp: ingest_scan_def Let_def idempotent_def replay_def split: if_splits prod.splits)
next
  case None
  then have run: "ingest_scan_body rt (''ingest:'' @ k) dev k u key d tasks now aud s = (Inr r, s')"
    using assms by (simp add: ingest_scan_def Let_def idempotent_def replay_def)
  have changed: "s' \<noteq> s"
  proof
    assume "s' = s"
    with run show False
      by (auto simp: ingest_scan_body_def Let_def audit_def split: option.splits if_splits sum.splits
          dest!: arg_cong [where f = cs_audit_events])
  qed
  with ingest_scan_body_effect [OF run] show ?thesis by auto
qed

text \<open>C3: Once evidence was accepted under an idempotency key, the same request returns the same
  record for ever and changes nothing, and a request with another digest under the key is refused
  and changes nothing.\<close>

theorem ingest_idempotent:
  assumes "cloud_reachable rt s" and "\<And>a. a \<in> set tasks \<Longrightarrow> new_task a"
    and "ingest_scan rt dev k u key d tasks now aud s = (Inr r, s1)"
    and "(any_step rt)\<^sup>*\<^sup>* s1 s2"
  shows "ingest_scan rt dev k u' key d tasks' now' aud' s2 = (Inr r, s2)
    \<and> (d' \<noteq> d \<longrightarrow> ingest_scan rt dev k u' key d' tasks' now' aud' s2 =
      (Inl (IdempotencyConflict ''idempotency key was reused with different content''), s2))"
proof -
  have "any_step rt s s1"
    using cloud_step.ingest [where rt = rt and tasks = tasks and s = s and dev = dev and k = k and u = u
        and key = key and d = d and now = now and aud = aud, OF assms(2)] assms(3)
    unfolding any_step_def by auto
  then have "cloud_reachable rt s1"
    using assms(1) unfolding cloud_reachable_def by (rule rtranclp.rtrancl_into_rtrancl [rotated])
  then have "dict_evolves (=) (cs_idempotency s1) (cs_idempotency s2)"
    using cloud_reachable_keeps [OF _ assms(4)] by (simp add: cloud_keeps_def)
  then have "dict_get (cs_idempotency s2) (dp_tenant_id dev, ''ingest:'' @ k, key) = Some (d, r)"
    using dict_evolvesD [OF _ ingest_scan_remembered [OF assms(3)]] by blast
  then show ?thesis
    by (simp_all add: ingest_scan_def Let_def idempotent_replays)
qed

theorem ingest_idempotent_witness:
  "snd (ingest_scan demo_rt demo_device ''s1'' [] ''k3'' ''d'' [] 1 2 demo9) = demo9
   \<and> is_ok (fst (ingest_scan demo_rt demo_device ''s1'' [] ''k3'' ''d'' [] 1 2 demo9))"
proof -
  let ?tasks = "[demo_task ''a1'' OSV, demo_task ''a2'' DEPSCAN]"
  have "\<not> isl (fst (ingest_scan demo_rt demo_device ''s1'' demo_upload ''k3'' ''d'' ?tasks 4000000 0 demo4))"
    by code_simp
  then obtain r where "fst (ingest_scan demo_rt demo_device ''s1'' demo_upload ''k3'' ''d'' ?tasks 4000000 0 demo4) = Inr r"
    by (blast dest: not_islD)
  then have run: "ingest_scan demo_rt demo_device ''s1'' demo_upload ''k3'' ''d'' ?tasks 4000000 0 demo4 = (Inr r, demo5)"
    by (simp add: demo5_def prod_eq_iff)
  have new: "new_task a" if "a \<in> set ?tasks" for a using that demo_new(3) by auto
  show ?thesis
    using ingest_idempotent [OF demo_reachable(5) new run demo_run(2)] by simp
qed

section \<open>Well-formed rows\<close>

text \<open>C4: In every reachable state, a scan under analysis has accepted evidence and no report, a
  complete scan has its report, a terminal status implies accepted evidence, accepted evidence
  names the scan and the endpoint of its record, an undispatched scan has neither, and every
  analysis task belongs to a scan of the same tenant and endpoint whose evidence was accepted.\<close>

theorem scan_rows_ok:
  assumes "cloud_reachable rt s"
  shows "(dict_get (cs_scans s) k = Some rec \<longrightarrow>
      (sr_state rec = ''ANALYZING'' \<longrightarrow> sr_upload rec \<noteq> None \<and> sr_final_report rec = None)
      \<and> (sr_state rec = ''COMPLETE'' \<longrightarrow> sr_final_report rec \<noteq> None)
      \<and> (sr_state rec = ''QUEUED'' \<or> sr_state rec = ''DISPATCHED'' \<or> sr_state rec = ''EXPIRED'' \<longrightarrow>
           sr_upload rec = None \<and> sr_terminal_status rec = None \<and> sr_final_report rec = None)
      \<and> (sr_terminal_status rec \<noteq> None \<longrightarrow> sr_upload rec \<noteq> None)
      \<and> (\<forall>u. sr_upload rec = Some u \<longrightarrow> (\<exists>result. jget ''result'' u = JObj result
           \<and> jget ''scan_id'' result = JStr k \<and> jget ''endpoint_id'' result = JStr (sr_endpoint_id rec))))
    \<and> (dict_get (cs_tasks s) j = Some task \<longrightarrow>
      (\<exists>rec. dict_get (cs_scans s) (at_scan_id task) = Some rec \<and> sr_upload rec \<noteq> None
         \<and> sr_tenant_id rec = at_tenant_id task \<and> sr_endpoint_id rec = at_endpoint_id task)
      \<and> (at_state task = RUNNING \<longleftrightarrow> at_leased_by task \<noteq> None)
      \<and> (at_state task = SUCCEEDED \<longleftrightarrow> at_result task \<noteq> None)
      \<and> (at_state task = FAILED \<longrightarrow> at_last_error task \<noteq> None))"
proof -
  note inv = cloud_reachable_inv [OF assms]
  have scan: "scan_ok k rec" if "dict_get (cs_scans s) k = Some rec"
    using dict_allD [OF cloud_invD(1) [OF inv] that] .
  have task: "task_ok j task" if "dict_get (cs_tasks s) j = Some task"
    using dict_allD [OF cloud_invD(2) [OF inv] that] .
  have attached: "\<exists>rec. dict_get (cs_scans s) (at_scan_id task) = Some rec \<and> sr_tenant_id rec = at_tenant_id task
      \<and> sr_endpoint_id rec = at_endpoint_id task \<and> sr_upload rec \<noteq> None"
    if "dict_get (cs_tasks s) j = Some task"
    using dict_allD [OF cloud_invD(3) [OF inv, unfolded tasks_attached_def] that] .
  show ?thesis
  proof (intro conjI impI)
    assume "dict_get (cs_tasks s) j = Some task"
    then show "\<exists>rec. dict_get (cs_scans s) (at_scan_id task) = Some rec \<and> sr_upload rec \<noteq> None
         \<and> sr_tenant_id rec = at_tenant_id task \<and> sr_endpoint_id rec = at_endpoint_id task"
      using attached by blast
  qed (use scan task in \<open>auto simp: scan_ok_def open_states_def evidence_of_def task_ok_def\<close>)
qed

theorem scan_rows_ok_witness:
  "cloud_reachable demo_rt demo5 \<and> (\<exists>rec. dict_get (cs_scans demo5) ''s1'' = Some rec
    \<and> sr_state rec = ''ANALYZING'' \<and> sr_upload rec \<noteq> None)"
  using scan_rows_ok [OF demo_reachable(6), of "''s1''"] demo_reachable(6) demo_states(3) by auto

text \<open>C5: The digest stored with an endpoint's inventory is the digest of the stored snapshot, in
  every reachable state, whatever sequence of full, differential and unchanged synchronisations
  produced it; it is a lowercase SHA-256 and the snapshot is within the section limit.\<close>

theorem inventory_digest_true:
  assumes "cloud_reachable rt s" and "get_inventory_state t e s = Some iv"
  shows "snapshot_hash rt (iv_snapshot iv) = Inr (iv_snapshot_hash iv)
    \<and> iv_tenant_id iv = t \<and> iv_endpoint_id iv = e
    \<and> length (iv_snapshot iv) \<le> max_inventory_sections
    \<and> length (iv_snapshot_hash iv) = 64 \<and> list_all lower_hex_digit (iv_snapshot_hash iv)"
  using dict_allD [OF cloud_invD(4) [OF cloud_reachable_inv [OF assms(1)]]] assms(2)
  by (auto simp: get_inventory_state_def inventory_ok_def list_all_iff)

theorem inventory_digest_true_witness:
  "\<exists>iv. get_inventory_state ''t1'' ''e1'' demo5 = Some iv
    \<and> snapshot_hash demo_rt (iv_snapshot iv) = Inr (iv_snapshot_hash iv)"
proof -
  have "get_inventory_state ''t1'' ''e1'' demo5 \<noteq> None" by code_simp
  then obtain iv where iv: "get_inventory_state ''t1'' ''e1'' demo5 = Some iv" by blast
  with inventory_digest_true [OF demo_reachable(6) iv] show ?thesis by blast
qed

section \<open>Credentials\<close>

text \<open>C6: An enrollment grant admits one endpoint: once an enrollment consumed it, every later
  enrollment that presents it and is not a replay is refused and changes nothing.\<close>

theorem grant_single_use:
  assumes "cloud_reachable rt s" and "dict_get (cs_enrollment_grants s) h = Some g"
    and "eg_consumed_at g \<noteq> None" and "(any_step rt)\<^sup>*\<^sup>* s s'"
    and "dict_get (cs_idempotency s') (t, ''enroll'', key) = None"
  shows "\<exists>e. enroll_endpoint t ep c key d (Some h) aud s' = (Inl e, s')"
proof -
  have "dict_evolves grant_keeps (cs_enrollment_grants s) (cs_enrollment_grants s')"
    using cloud_reachable_keeps [OF assms(1,4)] by (simp add: cloud_keeps_def)
  then obtain g' where "dict_get (cs_enrollment_grants s') h = Some g'" "eg_consumed_at g' \<noteq> None"
    using dict_evolvesD assms(2,3) by (metis grant_keeps_def)
  then have "\<exists>e. check_grant t ep c (Some h) s' = Inl e"
    by (auto simp: check_grant_def)
  with assms(5) show ?thesis
    by (auto simp: enroll_endpoint_def idempotent_def replay_def enroll_endpoint_body_def)
qed

theorem grant_single_use_witness:
  "\<exists>e. enroll_endpoint ''t1'' demo_endpoint (demo_credential ''c2'' ''h2'' 1) ''other'' ''d'' (Some ''gh'') 0 demo3
    = (Inl e, demo3)"
proof -
  have "map_option eg_consumed_at (dict_get (cs_enrollment_grants demo2) ''gh'') = Some (Some 1000000)"
    by code_simp
  then obtain g where g: "dict_get (cs_enrollment_grants demo2) ''gh'' = Some g" "eg_consumed_at g \<noteq> None"
    by auto
  have "dict_get (cs_idempotency demo3) (''t1'', ''enroll'', ''other'') = None" by code_simp
  moreover have "(any_step demo_rt)\<^sup>*\<^sup>* demo2 demo3" using demo_steps(3) by blast
  ultimately show ?thesis using grant_single_use [OF demo_reachable(3) g] by blast
qed

text \<open>C7: A rotation hands the endpoint to the new credential: it authenticates with the next
  generation until it expires, and every older credential of the endpoint stops authenticating,
  the rotated one no later than the end of the overlap.\<close>

theorem rotation_supersedes:
  assumes "cloud_reachable rt s" and "new_credential c (dp_tenant_id dev) (dp_endpoint_id dev)"
    and "dict_get (cs_credentials s) (cr_token_hash c) = None"
    and "dict_get (cs_idempotency s) (dp_tenant_id dev, ''rotate:'' @ dp_endpoint_id dev, key) = None"
    and "rotate_credential dev eg ec c ov key d aud s = (Inr r, s')"
  shows "(now < cr_expires_at c \<longrightarrow> authenticate_device (cr_token_hash c) now s' = Some
       (dev\<lparr>dp_credential_id := cr_credential_id c, dp_generation := dp_generation dev + 1\<rparr>))
    \<and> (\<forall>k old. k \<noteq> cr_token_hash c \<longrightarrow> dict_get (cs_credentials s') k = Some old \<longrightarrow>
         cr_endpoint_id old = dp_endpoint_id dev \<longrightarrow>
         (\<exists>limit. cr_valid_until old = Some limit \<and> limit \<le> cr_expires_at old
           \<and> (cr_generation old = dp_generation dev \<longrightarrow> limit \<le> cr_issued_at c + seconds ov)
           \<and> (\<forall>now. limit \<le> now \<longrightarrow> authenticate_device k now s' = None)))"
proof -
  have run: "rotate_credential_body (''rotate:'' @ dp_endpoint_id dev) dev eg ec c ov key d aud s = (Inr r, s')"
    using assms(4,5) by (simp add: rotate_credential_def Let_def idempotent_def replay_def)
  have "s' \<noteq> s"
  proof
    assume "s' = s"
    with run show False
      by (auto simp: rotate_credential_body_def Let_def audit_def split: option.splits if_splits prod.splits
          dest!: arg_cong [where f = cs_audit_events])
  qed
  then obtain ep h cur where gen: "cr_generation c = dp_generation dev + 1"
    and mem: "(h, cur) \<in> set (cs_credentials s)" "cr_endpoint_id cur = dp_endpoint_id dev"
      "cr_generation cur = dp_generation dev"
    and creds: "cs_credentials s' = dict_set (cr_token_hash c) c (dict_set h
        (cur\<lparr>cr_superseded_at := Some (cr_issued_at c),
          cr_valid_until := Some (min (cr_expires_at cur) (cr_issued_at c + seconds ov))\<rparr>)
        (cs_credentials s))"
    using rotate_credential_body_effect [OF run] by auto
  note inv = cloud_reachable_inv [OF assms(1)]
  have "good_step rt (Some (dp_tenant_id dev)) s s'"
    using rotate_credential_good [OF inv assms(2,3), of eg ec ov key d aud] assms(5) by simp
  then have ok': "credentials_ok (cs_endpoints s') (cs_credentials s')"
    by (simp add: good_step_def cloud_inv_def)
  have get: "dict_get (cs_credentials s) h = Some cur"
    using mem cloud_invD(7) [OF inv] by (simp add: dict_get_mem credentials_ok_def dict_all_def)
  have new: "dict_get (cs_credentials s') (cr_token_hash c) = Some c" by (simp add: creds)
  show ?thesis
  proof (intro conjI impI allI)
    assume "now < cr_expires_at c"
    with new assms(2) gen show "authenticate_device (cr_token_hash c) now s' = Some
       (dev\<lparr>dp_credential_id := cr_credential_id c, dp_generation := dp_generation dev + 1\<rparr>)"
      by (simp add: authenticate_device_def new_credential_def)
  next
    fix k old
    assume k: "k \<noteq> cr_token_hash c" "dict_get (cs_credentials s') k = Some old"
      "cr_endpoint_id old = dp_endpoint_id dev"
    have "cr_superseded_at old \<noteq> None"
    proof
      assume "cr_superseded_at old = None"
      then have "cr_generation old = cr_generation c"
        using credentials_okD [OF ok' k(2)] credentials_okD [OF ok' new] k(3) assms(2)
        by (auto simp: credential_ok_def new_credential_def)
      with ok' k new assms(2) show False
        unfolding credentials_ok_def new_credential_def
        using unique_generationsD [of "cs_credentials s'" k old "cr_token_hash c" c] by auto
    qed
    then obtain limit where limit: "cr_valid_until old = Some limit" "limit \<le> cr_expires_at old"
      using credentials_okD [OF ok' k(2)] by (auto simp: credential_ok_def)
    have "limit \<le> cr_issued_at c + seconds ov" if "cr_generation old = dp_generation dev"
    proof (cases "k = h")
      case False
      with k creds have "dict_get (cs_credentials s) k = Some old" by simp
      with False get mem that k(3) have False
        using unique_generationsD [of "cs_credentials s" k old h cur] cloud_invD(7) [OF inv]
        by (auto simp: credentials_ok_def)
      then show ?thesis ..
    qed (use k creds limit in auto)
    with limit k(2) show "\<exists>limit. cr_valid_until old = Some limit \<and> limit \<le> cr_expires_at old
        \<and> (cr_generation old = dp_generation dev \<longrightarrow> limit \<le> cr_issued_at c + seconds ov)
        \<and> (\<forall>now. limit \<le> now \<longrightarrow> authenticate_device k now s' = None)"
      by (auto simp: authenticate_device_def)
  qed
qed

theorem rotation_supersedes_witness:
  "authenticate_device ''h2'' 2000000
     (snd (rotate_credential demo_device 1 ''c1'' (demo_credential ''c2'' ''h2'' 2) 60 ''kr'' ''d'' 0 demo2))
   = Some (demo_device\<lparr>dp_credential_id := ''c2'', dp_generation := 2\<rparr>)"
proof -
  let ?c = "demo_credential ''c2'' ''h2'' 2"
  have new: "new_credential ?c (dp_tenant_id demo_device) (dp_endpoint_id demo_device)"
    by (simp add: demo_new demo_device_def)
  have fresh: "dict_get (cs_credentials demo2) (cr_token_hash ?c) = None"
    "dict_get (cs_idempotency demo2) (dp_tenant_id demo_device, ''rotate:'' @ dp_endpoint_id demo_device, ''kr'') = None"
    by code_simp+
  have "\<not> isl (fst (rotate_credential demo_device 1 ''c1'' ?c 60 ''kr'' ''d'' 0 demo2))" by code_simp
  then obtain r s' where run: "rotate_credential demo_device 1 ''c1'' ?c 60 ''kr'' ''d'' 0 demo2 = (Inr r, s')"
    by (metis not_islD prod.collapse)
  from rotation_supersedes [OF demo_reachable(3) new fresh run, of 2000000] run show ?thesis
    by (simp add: demo_credential_def demo_device_def)
qed

section \<open>Dispatch\<close>

lemma claim_loop_claimed:
  "claim_loop rt dev now clk cs s = (Inr (Some c), s') \<Longrightarrow>
    (\<exists>rec \<in> set cs. sr_tenant_id rec = dp_tenant_id dev \<and> sr_endpoint_id rec = dp_endpoint_id dev
      \<and> job_dispatch_eligibility rt rec (dp_endpoint_id dev) now = ELIGIBLE
      \<and> c = rec\<lparr>sr_state := ''DISPATCHED'', sr_updated_at := now\<rparr>)
    \<and> dict_get (cs_scans s') (sr_scan_id c) = Some c"
proof (induction rt dev now clk cs s rule: claim_loop.induct)
  case (2 rt dev now clk rec cs s)
  show ?case
  proof (cases "sr_tenant_id rec \<noteq> dp_tenant_id dev \<or> sr_endpoint_id rec \<noteq> dp_endpoint_id dev
      \<or> (sr_state rec \<noteq> ''QUEUED'' \<and> sr_state rec \<noteq> ''DISPATCHED'')")
    case False
    with 2 show ?thesis
      by (cases "job_dispatch_eligibility rt rec (dp_endpoint_id dev) now")
        (auto simp: Let_def split: sum.splits)
  qed (use 2 in auto)
qed simp

text \<open>C8: A job handed to a device is a stored scan of its own tenant and endpoint, under an
  authorization that is granted, names the endpoint, has begun and has not ended, before the
  deadline; a job that was already dispatched is handed out again only when its lease and the
  grace period have passed.\<close>

theorem dispatch_authorized:
  assumes "cloud_reachable rt s" and "claim_next_job rt dev now clk s = (Inr (Some c), s')"
  shows "sr_tenant_id c = dp_tenant_id dev \<and> sr_endpoint_id c = dp_endpoint_id dev
    \<and> sr_state c = ''DISPATCHED'' \<and> sr_updated_at c = now
    \<and> dict_get (cs_scans s') (sr_scan_id c) = Some c
    \<and> (\<exists>auth allowed valid_from expires_at deadline.
        jget ''authorization'' (sr_job_document c) = JObj auth
        \<and> jget ''authorized'' auth = JBool True
        \<and> jget ''allowed_endpoint_ids'' auth = JArr allowed \<and> JStr (dp_endpoint_id dev) \<in> set allowed
        \<and> timestamp rt (jget ''valid_from'' auth) = Some valid_from \<and> valid_from \<le> now
        \<and> timestamp rt (jget ''expires_at'' auth) = Some expires_at \<and> now < expires_at
        \<and> timestamp rt (jget ''deadline'' (sr_job_document c)) = Some deadline \<and> now < deadline)
    \<and> (\<exists>rec. dict_get (cs_scans s) (sr_scan_id c) = Some rec \<and> sr_upload rec = None
        \<and> (sr_state rec = ''QUEUED'' \<or> sr_state rec = ''DISPATCHED'' \<and>
            (\<exists>timeout. jget ''timeout_seconds'' (sr_job_document rec) = JInt timeout \<and>
              sr_updated_at rec + seconds (timeout + job_dispatch_grace_seconds) \<le> now)))"
proof -
  note inv = cloud_reachable_inv [OF assms(1)]
  define u where "u = (case dict_get (cs_endpoints s) (dp_endpoint_id dev) of None \<Rightarrow> s
     | Some e \<Rightarrow> if ep_tenant_id e = dp_tenant_id dev
         then s\<lparr>cs_endpoints := dict_set (dp_endpoint_id dev) (e\<lparr>ep_last_seen_at := now\<rparr>) (cs_endpoints s)\<rparr>
         else s)"
  have scans: "cs_scans u = cs_scans s" by (simp add: u_def split: option.split)
  have "claim_loop rt dev now clk (sort_key sr_created_at (dict_values (cs_scans u))) u = (Inr (Some c), s')"
    using assms(2) unfolding claim_next_job_def Let_def u_def [symmetric] .
  from claim_loop_claimed [OF this] obtain rec where
    mem: "rec \<in> set (sort_key sr_created_at (dict_values (cs_scans s)))"
    and own: "sr_tenant_id rec = dp_tenant_id dev" "sr_endpoint_id rec = dp_endpoint_id dev"
    and el: "job_dispatch_eligibility rt rec (dp_endpoint_id dev) now = ELIGIBLE"
    and c: "c = rec\<lparr>sr_state := ''DISPATCHED'', sr_updated_at := now\<rparr>"
    and stored: "dict_get (cs_scans s') (sr_scan_id c) = Some c"
    unfolding scans by auto
  have get: "dict_get (cs_scans s) (sr_scan_id rec) = Some rec"
    by (rule candidates_current(2) [OF cloud_invD(1) [OF inv] mem])
  obtain auth deadline valid_from expires_at allowed where auth:
    "jget ''authorization'' (sr_job_document rec) = JObj auth"
    "jget ''authorized'' auth = JBool True"
    "jget ''allowed_endpoint_ids'' auth = JArr allowed" "JStr (dp_endpoint_id dev) \<in> set allowed"
    "timestamp rt (jget ''deadline'' (sr_job_document rec)) = Some deadline"
    "timestamp rt (jget ''valid_from'' auth) = Some valid_from"
    "timestamp rt (jget ''expires_at'' auth) = Some expires_at"
    "valid_from \<le> now" "now < expires_at" "now < deadline"
    "sr_state rec = ''QUEUED'' \<or> sr_state rec = ''DISPATCHED''"
    using eligible_authorized [OF el] by blast
  have "sr_upload rec = None"
    using dict_allD [OF cloud_invD(1) [OF inv] get] auth(11) by (auto simp: scan_ok_def open_states_def)
  moreover have "sr_state rec = ''DISPATCHED'' \<longrightarrow>
      (\<exists>timeout. jget ''timeout_seconds'' (sr_job_document rec) = JInt timeout \<and>
        sr_updated_at rec + seconds (timeout + job_dispatch_grace_seconds) \<le> now)"
    using eligible_again [OF el] by blast
  ultimately show ?thesis using own stored get auth unfolding c by auto
qed

theorem dispatch_authorized_witness:
  "\<exists>c. fst (claim_next_job demo_rt demo_device 3000000 (\<lambda>_. 0) demo3) = Inr (Some c)
    \<and> sr_endpoint_id c = ''e1'' \<and> sr_state c = ''DISPATCHED''"
proof -
  have "(case fst (claim_next_job demo_rt demo_device 3000000 (\<lambda>_. 0) demo3) of
      Inr (Some c) \<Rightarrow> True | _ \<Rightarrow> False)"
    by code_simp
  then obtain c where c: "fst (claim_next_job demo_rt demo_device 3000000 (\<lambda>_. 0) demo3) = Inr (Some c)"
    by (auto split: sum.splits option.splits)
  then obtain s' where run: "claim_next_job demo_rt demo_device 3000000 (\<lambda>_. 0) demo3 = (Inr (Some c), s')"
    by (cases "claim_next_job demo_rt demo_device 3000000 (\<lambda>_. 0) demo3") auto
  from dispatch_authorized [OF demo_reachable(4) run] c show ?thesis by (simp add: demo_device_def)
qed

section \<open>Analysis leases and reports\<close>





section \<open>Failures\<close>

text \<open>C11: An evidence upload that is refused, for whatever reason, changes nothing.\<close>

theorem ingest_atomic:
  assumes "ingest_scan rt dev k u key d tasks now aud s = (Inl e, s')"
  shows "s' = s"
proof -
  consider "s' = s" | "ingest_scan_body rt (''ingest:'' @ k) dev k u key d tasks now aud s = (Inl e, s')"
    using idempotent_effect [OF assms [unfolded ingest_scan_def Let_def]] by blast
  then show ?thesis
    by cases (auto dest!: ingest_scan_body_effect)
qed

theorem ingest_atomic_witness:
  "\<exists>e. ingest_scan demo_rt demo_device ''s1'' [] ''k9'' ''d'' [] 1 2 demo4 = (Inl e, demo4)"
proof -
  have "isl (fst (ingest_scan demo_rt demo_device ''s1'' [] ''k9'' ''d'' [] 1 2 demo4))" by code_simp
  then obtain e s' where run: "ingest_scan demo_rt demo_device ''s1'' [] ''k9'' ''d'' [] 1 2 demo4 = (Inl e, s')"
    by (cases "ingest_scan demo_rt demo_device ''s1'' [] ''k9'' ''d'' [] 1 2 demo4") (auto simp: isl_def)
  with ingest_atomic [OF run] show ?thesis by blast
qed

text \<open>A rejection accepted from the owning endpoint puts the scan in the state REJECTED whatever its
  state was, so a scan whose evidence is being analysed leaves the set of scans that are
  finalized: its report is never asked for again, although its tasks may all have ended.\<close>

lemma rejection_hides_scan:
  assumes "cloud_reachable rt s" and "owned_scan dev k s = Some rec" and "k \<noteq> []"
    and "dict_get (cs_idempotency s) (dp_tenant_id dev, ''rejection:'' @ sha, key) = None"
    and "payload = [(''scan_id'', JStr k), (''document_sha256'', JStr sha), (''reason'', JStr reason)]"
    and "record_rejection rt dev payload key d now aud s = (r, s')"
  shows "r = Inr RTrue
    \<and> map_option sr_state (dict_get (cs_scans s') k) = Some ''REJECTED''
    \<and> next_scan_ready_for_finalization s' \<noteq> Some k"
proof -
  have sub: "subscript (JObj payload) ''document_sha256'' = Inr (JStr sha)"
    "subscript (JObj payload) ''reason'' = Inr (JStr reason)" "jget ''scan_id'' payload = JStr k"
    by (simp_all add: assms(5) subscript_def jget_def dict_get_def)
  have found: "rejected_scan dev (JStr k) s = Inr (Some (k, rec))"
    using assms(2,3) by (simp add: rejected_scan_def hashable_def owned_scan_Some)
  have run: "r = Inr RTrue" "cs_scans s' = dict_set k (rec\<lparr>sr_state := ''REJECTED'', sr_updated_at := now\<rparr>) (cs_scans s)"
    using assms(6) sub found assms(4)
    by (auto simp: record_rejection_def Let_def idempotent_def replay_def record_rejection_body_def)
  have "any_step rt s s'"
    using cloud_step.reject [of rt dev s payload key d now aud] assms(6) by (auto simp: any_step_def)
  then have "cloud_reachable rt s'"
    using assms(1) unfolding cloud_reachable_def by (rule rtranclp.rtrancl_into_rtrancl [rotated])
  then have ok: "dict_all scan_ok (cs_scans s')" using cloud_reachable_inv cloud_invD(1) by blast
  have key: "sr_scan_id v = i" if "scan_ok i v" for i v using that by (simp add: scan_ok_def)
  have "next_scan_ready_for_finalization s' \<noteq> Some k"
  proof
    assume "next_scan_ready_for_finalization s' = Some k"
    then obtain x where x: "x \<in> set (dict_values (cs_scans s'))" "sr_state x = ''ANALYZING''" "sr_scan_id x = k"
      by (auto simp: next_scan_ready_for_finalization_def dest!: find_SomeD)
    have "dict_get (cs_scans s') k = Some x"
      using keyed_values(2) [where key = sr_scan_id, OF ok key x(1)] x(3) by simp
    with run(2) x(2) show False by auto
  qed
  with run show ?thesis by simp
qed

lemma rejection_hides_scan_concrete:
  "next_scan_ready_for_finalization demo8 = Some ''s1'' \<and>
   next_scan_ready_for_finalization (snd (record_rejection demo_rt demo_device
     [(''scan_id'', JStr ''s1''), (''document_sha256'', JStr ''x''), (''reason'', JStr ''INVALID_JSON'')]
     ''kx'' ''d'' 9 9 demo8)) \<noteq> Some ''s1''"
proof -
  let ?p = "[(''scan_id'', JStr ''s1''), (''document_sha256'', JStr ''x''), (''reason'', JStr ''INVALID_JSON'')]"
  have "owned_scan demo_device ''s1'' demo8 \<noteq> None" by code_simp
  then obtain rec where own: "owned_scan demo_device ''s1'' demo8 = Some rec" by blast
  have "dict_get (cs_idempotency demo8) (dp_tenant_id demo_device, ''rejection:'' @ ''x'', ''kx'') = None"
    by code_simp
  moreover have "next_scan_ready_for_finalization demo8 = Some ''s1''" by code_simp
  ultimately show ?thesis
    using rejection_hides_scan [OF demo_reachable(9) own _ _ refl, of "''x''" "''kx''"
        "''INVALID_JSON''" "''d''" 9 9 "fst (record_rejection demo_rt demo_device ?p ''kx'' ''d'' 9 9 demo8)"
        "snd (record_rejection demo_rt demo_device ?p ''kx'' ''d'' 9 9 demo8)"]
    by simp
qed

end
