(* ===== verification/Canonical_Text.thy ===== *)
theory Canonical_Text
  imports Snapshots
begin

text \<open>
  The canonical text of a JSON value determines the value: two values that have the same text
  have the same canonical form. This is what makes a digest of the text identify the content,
  for the audit chain, the snapshots and the requests. Of the float printer it assumes what
  Python documents: \<open>repr\<close> of a float reads back as the same float and is written with the
  characters of a number, at least one of which an integer does not have.
\<close>

section \<open>Decimal numbers\<close>

definition digit_value :: "char \<Rightarrow> nat" where
  "digit_value c = code_point c - 48"

definition read_nat :: "string \<Rightarrow> nat" where
  "read_nat s = foldl (\<lambda>a c. 10 * a + digit_value c) 0 s"

lemma code_point_char_of [simp]: "n < 256 \<Longrightarrow> code_point (char_of n) = n"
  by (simp add: code_point_def)

lemma char_of_code_point [simp]: "char_of (code_point c) = c"
  by (simp add: code_point_def)

lemma read_show_nat [simp]: "read_nat (show_nat n) = n"
proof (induction n rule: show_nat.induct)
  case (1 n)
  have "read_nat (show_nat n) = (if n < 10 then n else 10 * read_nat (show_nat (n div 10)) + n mod 10)"
    by (subst show_nat.simps) (simp add: read_nat_def digit_value_def)
  with 1 show ?case by auto
qed

lemma show_nat_digits: "c \<in> set (show_nat n) \<Longrightarrow> 48 \<le> code_point c \<and> code_point c \<le> 57"
proof (induction n rule: show_nat.induct)
  case (1 n)
  then show ?case by (subst (asm) (2) show_nat.simps) (auto split: if_splits)
qed

lemma show_nat_nonempty [simp]: "show_nat n \<noteq> []"
  by (subst show_nat.simps) simp

lemma show_int_inj: "show_int i = show_int j \<Longrightarrow> i = j"
proof -
  have minus: "CHR ''-'' # s \<noteq> show_nat n" for s n
  proof
    assume "CHR ''-'' # s = show_nat n"
    then have "CHR ''-'' \<in> set (show_nat n)" by (metis list.set_intros(1))
    from show_nat_digits [OF this] show False by (simp add: code_point_def)
  qed
  assume "show_int i = show_int j"
  moreover have "show_nat n = show_nat m \<longleftrightarrow> n = m" for n m
    by (metis read_show_nat)
  ultimately show ?thesis
    using minus minus [symmetric] by (auto simp: show_int_def split: if_splits)
qed

section \<open>Quoted strings\<close>

definition hex_value :: "char \<Rightarrow> nat" where
  "hex_value c = (if code_point c < 58 then code_point c - 48 else code_point c - 87)"

definition unescape_letter :: "char \<Rightarrow> char" where
  "unescape_letter c = (if c = CHR ''n'' then char_of (10::nat) else if c = CHR ''r'' then char_of (13::nat)
     else if c = CHR ''t'' then char_of (9::nat) else if c = CHR ''f'' then char_of (12::nat)
     else if c = CHR ''b'' then char_of (8::nat) else c)"

text \<open>One character of a quoted string, read back.\<close>

definition unescape :: "string \<Rightarrow> (char \<times> string) option" where
  "unescape s =
    (case s of
       [] \<Rightarrow> None
     | c # r \<Rightarrow>
       if c \<noteq> CHR 0x5C then Some (c, r)
       else (case r of
           [] \<Rightarrow> None
         | e # r' \<Rightarrow>
           if e = CHR ''u''
           then Some (char_of (16 * hex_value (r' ! 2) + hex_value (r' ! 3)), drop 4 r')
           else Some (unescape_letter e, r')))"

lemma hex_value_digit [simp]: "n < 16 \<Longrightarrow> hex_value (hex_digit n) = n"
  by (auto simp: hex_value_def hex_digit_def)

lemma char_eqI: "code_point c = n \<Longrightarrow> c = char_of n"
  by auto

lemma unescape_escape [simp]: "unescape (json_escape_char c @ x) = Some (c, x)"
proof -
  consider "code_point c \<in> {34, 92, 10, 13, 9, 12, 8}" | "code_point c < 32" "code_point c \<notin> {34, 92, 10, 13, 9, 12, 8}"
    | "32 \<le> code_point c" "code_point c \<notin> {34, 92, 10, 13, 9, 12, 8}" by linarith
  then show ?thesis
  proof cases
    case 1
    then show ?thesis
      by (auto dest!: char_eqI simp: json_escape_char_def unescape_def unescape_letter_def)
        (simp_all add: char_of_def bit_0)
  next
    case 2
    then have "unescape (json_escape_char c @ x) = Some (char_of (16 * (code_point c div 16) + code_point c mod 16), x)"
      by (simp add: json_escape_char_def unescape_def Let_def)
    then show ?thesis by simp
  next
    case 3
    then have "c \<noteq> CHR 0x5C" by (auto simp: code_point_def)
    with 3 show ?thesis by (simp add: json_escape_char_def unescape_def Let_def)
  qed
qed

lemma escape_not_quote: "json_escape_char c @ x \<noteq> CHR 0x22 # y"
  by (auto simp: json_escape_char_def Let_def code_point_def)

lemma quoted_inj:
  "concat (map json_escape_char a) @ CHR 0x22 # s = concat (map json_escape_char b) @ CHR 0x22 # t \<Longrightarrow>
    a = b \<and> s = t"
proof (induction a arbitrary: b)
  case Nil
  then show ?case using escape_not_quote [symmetric] by (cases b) auto
next
  case (Cons c a)
  note IH = Cons.IH
  show ?case
  proof (cases b)
    case Nil
    with Cons.prems escape_not_quote show ?thesis by auto
  next
    case (Cons d b')
    with Cons.prems have "unescape (json_escape_char c @ (concat (map json_escape_char a) @ CHR 0x22 # s))
        = unescape (json_escape_char d @ (concat (map json_escape_char b') @ CHR 0x22 # t))"
      by simp
    with Cons IH show ?thesis by simp
  qed
qed

lemma json_quote_inj: "json_quote a @ s = json_quote b @ t \<Longrightarrow> a = b \<and> s = t"
  using quoted_inj [of a s b t] by (simp add: json_quote_def)

section \<open>Lists of members\<close>

definition delimiter :: "char \<Rightarrow> bool" where
  "delimiter c \<longleftrightarrow> c = CHR '','' \<or> c = CHR '']'' \<or> c = CHR 0x7D"

text \<open>What may follow a value inside a canonical text: nothing, or a delimiter.\<close>

definition stops :: "string \<Rightarrow> bool" where
  "stops s \<longleftrightarrow> (case s of [] \<Rightarrow> True | c # _ \<Rightarrow> delimiter c)"

lemma stops_simps [simp]: "stops []" "stops (c # s) = delimiter c"
  by (simp_all add: stops_def)

lemma join_with_Cons: "join_with sep (x # xs) = x @ concat (map (\<lambda>y. sep @ y) xs)"
  by (induction xs arbitrary: x) auto

lemma separated_inj:
  assumes "\<And>x y s t. x \<in> set xs \<Longrightarrow> y \<in> set ys \<Longrightarrow> stops s \<Longrightarrow> stops t \<Longrightarrow> f x @ s = f y @ t \<Longrightarrow> x = y \<and> s = t"
    and "c = CHR '']'' \<or> c = CHR 0x7D"
    and "concat (map (\<lambda>y. CHR '','' # f y) xs) @ c # s = concat (map (\<lambda>y. CHR '','' # f y) ys) @ c # t"
  shows "xs = ys \<and> s = t"
  using assms(1,3)
proof (induction xs arbitrary: ys)
  case Nil
  then show ?case using assms(2) by (cases ys) auto
next
  case (Cons x xs)
  note IH = Cons.IH and inj = Cons.prems(1) and eq = Cons.prems(2)
  show ?case
  proof (cases ys)
    case Nil
    with eq assms(2) show ?thesis by auto
  next
    case (Cons y ys')
    have stop: "stops (concat (map (\<lambda>y. CHR '','' # f y) zs) @ c # r)" for zs r
      using assms(2) by (cases zs) (auto simp: delimiter_def)
    from eq Cons have "f x @ (concat (map (\<lambda>y. CHR '','' # f y) xs) @ c # s)
        = f y @ (concat (map (\<lambda>y. CHR '','' # f y) ys') @ c # t)" by simp
    from inj [OF _ _ stop stop this] Cons
    have "x = y" and rest: "concat (map (\<lambda>y. CHR '','' # f y) xs) @ c # s = concat (map (\<lambda>y. CHR '','' # f y) ys') @ c # t"
      by auto
    moreover have "xs = ys' \<and> s = t"
      by (rule IH [OF _ rest], rule inj; simp add: Cons)
    ultimately show ?thesis using Cons by simp
  qed
qed

lemma join_inj:
  assumes inj: "\<And>x y s t. x \<in> set xs \<Longrightarrow> y \<in> set ys \<Longrightarrow> stops s \<Longrightarrow> stops t \<Longrightarrow> f x @ s = f y @ t \<Longrightarrow> x = y \<and> s = t"
    and head: "\<And>x s. x \<in> set xs \<union> set ys \<Longrightarrow> \<not> stops (f x @ s)"
    and c: "c = CHR '']'' \<or> c = CHR 0x7D"
    and eq: "join_with '','' (map f xs) @ c # s = join_with '','' (map f ys) @ c # t"
  shows "xs = ys \<and> s = t"
proof (cases xs; cases ys)
  assume "xs = []" "ys = []"
  with eq show ?thesis by simp
next
  fix y ys' assume "xs = []" "ys = y # ys'"
  then have "c # s = f y @ (concat (map (\<lambda>z. CHR '','' # f z) ys') @ c # t)"
    using eq by (simp add: join_with_Cons o_def)
  moreover have "stops (c # s)" using c by (simp add: delimiter_def)
  ultimately show ?thesis using head [of y] \<open>ys = y # ys'\<close> by simp
next
  fix x xs' assume "xs = x # xs'" "ys = []"
  then have "c # t = f x @ (concat (map (\<lambda>z. CHR '','' # f z) xs') @ c # s)"
    using eq by (simp add: join_with_Cons o_def)
  moreover have "stops (c # t)" using c by (simp add: delimiter_def)
  ultimately show ?thesis using head [of x] \<open>xs = x # xs'\<close> by simp
next
  fix x xs' y ys' assume xs: "xs = x # xs'" and ys: "ys = y # ys'"
  have "concat (map (\<lambda>y. CHR '','' # f y) xs) @ c # s = concat (map (\<lambda>y. CHR '','' # f y) ys) @ c # t"
    using eq by (simp add: xs ys join_with_Cons o_def)
  from separated_inj [OF inj c this] show ?thesis .
qed

section \<open>Values\<close>

text \<open>The characters of a number.\<close>

definition number_char :: "char \<Rightarrow> bool" where
  "number_char c \<longleftrightarrow> (48 \<le> code_point c \<and> code_point c \<le> 57) \<or> c = CHR ''-'' \<or> c = CHR ''+''
     \<or> c = CHR ''.'' \<or> c = CHR ''e''"

definition integer_char :: "char \<Rightarrow> bool" where
  "integer_char c \<longleftrightarrow> (48 \<le> code_point c \<and> code_point c \<le> 57) \<or> c = CHR ''-''"

text \<open>What Python documents of \<open>float.__repr__\<close>.\<close>

definition float_repr_ok :: "runtime \<Rightarrow> bool" where
  "float_repr_ok rt \<longleftrightarrow> inj (rt_float_repr rt) \<and>
    (\<forall>q. rt_float_repr rt q \<noteq> [] \<and> integer_char (hd (rt_float_repr rt q))
      \<and> (\<forall>c \<in> set (rt_float_repr rt q). number_char c)
      \<and> (\<exists>c \<in> set (rt_float_repr rt q). \<not> integer_char c))"

text \<open>The text of a value that is neither a string nor a collection has no delimiter.\<close>

definition scalar :: "json \<Rightarrow> bool" where
  "scalar v \<longleftrightarrow> (case v of JStr _ \<Rightarrow> False | JArr _ \<Rightarrow> False | JObj _ \<Rightarrow> False | _ \<Rightarrow> True)"

lemma delimiter_facts:
  "number_char c \<Longrightarrow> \<not> delimiter c" "integer_char c \<Longrightarrow> number_char c"
  by (auto simp: number_char_def integer_char_def delimiter_def code_point_def)

lemma show_int_chars: "c \<in> set (show_int i) \<Longrightarrow> integer_char c"
  using show_nat_digits by (auto simp: show_int_def integer_char_def split: if_splits)

lemma show_int_nonempty [simp]: "show_int i \<noteq> []"
  by (simp add: show_int_def)

lemma takeWhile_stops:
  assumes "\<forall>c \<in> set a. \<not> delimiter c" "\<forall>c \<in> set b. \<not> delimiter c" "stops s" "stops t" "a @ s = b @ t"
  shows "a = b \<and> s = t"
proof -
  have tw: "takeWhile (\<lambda>c. \<not> delimiter c) (x @ r) = x" if "\<forall>c \<in> set x. \<not> delimiter c" "stops r" for x r
    using that by (cases r) (auto simp: takeWhile_append)
  from assms tw have "a = b" by metis
  with assms(5) show ?thesis by simp
qed

lemma float_repr_okD:
  assumes "float_repr_ok rt"
  shows "rt_float_repr rt q \<noteq> []" "integer_char (hd (rt_float_repr rt q))"
    "c \<in> set (rt_float_repr rt q) \<Longrightarrow> number_char c" "show_int i \<noteq> rt_float_repr rt q"
    "rt_float_repr rt p = rt_float_repr rt q \<Longrightarrow> p = q"
  using assms show_int_chars [of _ i] unfolding float_repr_ok_def by (blast, blast, blast, metis, blast dest: injD)

lemma scalar_text:
  assumes "scalar v" "json_finite v" "float_repr_ok rt"
  shows "\<forall>c \<in> set (dumps rt v). \<not> delimiter c"
proof (cases v)
  case (JInt i)
  then show ?thesis using show_int_chars delimiter_facts by auto
next
  case (JFloat x)
  with assms(2) obtain q where "x = Finite q" by (cases x) auto
  with JFloat show ?thesis using float_repr_okD(3) [OF assms(3)] delimiter_facts by auto
qed (use assms in \<open>auto simp: scalar_def delimiter_def\<close>)

definition head_class :: "char \<Rightarrow> nat" where
  "head_class c = (if c = CHR ''n'' then 0 else if c = CHR ''t'' \<or> c = CHR ''f'' then 1
     else if integer_char c then 2 else if c = CHR 0x22 then 3 else if c = CHR ''['' then 4
     else if c = CHR 0x7B then 5 else 6)"

definition value_class :: "json \<Rightarrow> nat" where
  "value_class v = (case v of JNull \<Rightarrow> 0 | JBool _ \<Rightarrow> 1 | JInt _ \<Rightarrow> 2 | JFloat _ \<Rightarrow> 2 | JStr _ \<Rightarrow> 3
     | JArr _ \<Rightarrow> 4 | JObj _ \<Rightarrow> 5)"

lemma head_integer: "integer_char c \<Longrightarrow> head_class c = 2"
  by (auto simp: head_class_def integer_char_def code_point_def)

lemma dumps_head:
  assumes "json_finite v" "float_repr_ok rt"
  shows "\<exists>c r. dumps rt v = c # r \<and> head_class c = value_class v"
proof (cases v)
  case (JInt i)
  obtain c r where cr: "show_int i = c # r" by (cases "show_int i") auto
  then have "integer_char c" using show_int_chars [of c i] by simp
  with cr JInt head_integer show ?thesis by (simp add: value_class_def)
next
  case (JFloat x)
  with assms obtain q where q: "x = Finite q" by (cases x) auto
  obtain c r where cr: "rt_float_repr rt q = c # r"
    using float_repr_okD(1) [OF assms(2)] by (cases "rt_float_repr rt q") auto
  with float_repr_okD(2) [OF assms(2), of q] have "integer_char c" by simp
  with q cr JFloat head_integer show ?thesis by (simp add: value_class_def)
qed (auto simp: value_class_def head_class_def integer_char_def code_point_def json_quote_def dumps_members_def)

lemma dumps_not_stops: "json_finite v \<Longrightarrow> float_repr_ok rt \<Longrightarrow> \<not> stops (dumps rt v @ s)"
  using dumps_head [of v rt]
  by (auto simp: delimiter_def head_class_def value_class_def integer_char_def code_point_def split: json.splits if_splits)

lemma scalar_text_inj:
  assumes "float_repr_ok rt" "scalar v" "value_class v = value_class w" "json_finite v" "json_finite w"
    and "dumps rt v = dumps rt w"
  shows "v = w"
  using assms(2-6) float_repr_okD(4) [OF assms(1)] float_repr_okD(4) [OF assms(1), symmetric]
    float_repr_okD(5) [OF assms(1)]
  by (cases v; cases w) (auto simp: value_class_def scalar_def dest: show_int_inj split: pyfloat.splits if_splits)

lemma value_class_eq:
  assumes "float_repr_ok rt" "json_finite v" "json_finite w" "dumps rt v @ s = dumps rt w @ t"
  shows "value_class v = value_class w"
  using dumps_head [OF assms(2,1)] dumps_head [OF assms(3,1)] assms(4) by force

lemma scalar_class: "value_class v = value_class w \<Longrightarrow> scalar v \<Longrightarrow> scalar w"
  by (cases v; cases w) (auto simp: value_class_def scalar_def)

lemma scalar_prefix_inj:
  assumes "float_repr_ok rt" "scalar v" "json_finite v" "json_finite w" "stops s" "stops t"
    and "dumps rt v @ s = dumps rt w @ t"
  shows "v = w \<and> s = t"
proof -
  have cls: "value_class v = value_class w" using value_class_eq assms(1,3,4,7) by blast
  then have "scalar w" using scalar_class assms(2) by blast
  then have "dumps rt v = dumps rt w \<and> s = t"
    using takeWhile_stops [OF scalar_text scalar_text] assms by blast
  with scalar_text_inj [OF assms(1,2) cls assms(3,4)] show ?thesis by blast
qed

lemma canon_members:
  assumes "canon (JObj d) = JObj d"
  shows "\<And>kv. kv \<in> set d \<Longrightarrow> canon (snd kv) = snd kv"
    and "dumps rt (JObj d) =
      CHR 0x7B # join_with '','' (map (\<lambda>(k, v). json_quote k @ CHR '':'' # dumps rt v) d) @ [CHR 0x7D]"
proof -
  have sorted: "sort_key fst (map_values canon d) = d" using assms by simp
  then have "set (map_values canon d) = set d" by (metis set_sort)
  have d: "map_values canon d = d"
  proof -
    have "map_values canon d = map_values canon (sort_key fst (map_values canon d))" using sorted by simp
    also have "\<dots> = sort_key fst (map_values canon d)" by (simp flip: sort_key_map_values)
    finally show ?thesis using sorted by simp
  qed
  then show "canon (snd kv) = snd kv" if "kv \<in> set d" for kv
  proof -
    have "map (\<lambda>kv. (fst kv, canon (snd kv))) d = map (\<lambda>kv. kv) d" using d by (simp add: map_values_def)
    then have "(fst kv, canon (snd kv)) = kv" using that by (simp only: map_eq_conv)
    then show ?thesis by (metis snd_conv)
  qed
  have "sort_key fst d = d" using sorted d by simp
  then show "dumps rt (JObj d) =
      CHR 0x7B # join_with '','' (map (\<lambda>(k, v). json_quote k @ CHR '':'' # dumps rt v) d) @ [CHR 0x7D]"
    by (simp add: dumps_members_def sort_key_map_values)
      (simp add: map_values_def o_def case_prod_unfold)
qed

theorem dumps_prefix_inj:
  assumes "float_repr_ok rt"
  shows "canon v = v \<Longrightarrow> canon w = w \<Longrightarrow> json_finite v \<Longrightarrow> json_finite w \<Longrightarrow> stops s \<Longrightarrow> stops t \<Longrightarrow>
    dumps rt v @ s = dumps rt w @ t \<Longrightarrow> v = w \<and> s = t"
proof (induction v arbitrary: w s t rule: json_induct)
  case (JArr xs)
  then have "value_class w = 4"
    using value_class_eq [OF assms, of "JArr xs" w s t] by (simp add: value_class_def)
  then obtain ys where w: "w = JArr ys" by (auto simp: value_class_def split: json.splits)
  have "xs = ys \<and> s = t"
  proof (rule join_inj [where f = "dumps rt" and c = "CHR '']''"])
    show "join_with '','' (map (dumps rt) xs) @ CHR '']'' # s = join_with '','' (map (dumps rt) ys) @ CHR '']'' # t"
      using JArr.prems(7) w by simp
    show "\<not> stops (dumps rt x @ r)" if "x \<in> set xs \<union> set ys" for x r
      using that JArr.prems(3,4) w by (intro dumps_not_stops assms) auto
    have "map canon xs = xs" "map canon ys = ys" using JArr.prems(1,2) w by auto
    then have "canon x = x" if "x \<in> set xs \<union> set ys" for x using that by (metis UnE map_eq_conv map_ident)
    then show "x = y \<and> r = q"
      if "x \<in> set xs" "y \<in> set ys" "stops r" "stops q" "dumps rt x @ r = dumps rt y @ q" for x y r q
      using that JArr.prems(3,4) w by (intro JArr.IH) auto
  qed auto
  with w show ?case by simp
next
  case (JObj d)
  then have "value_class w = 5"
    using value_class_eq [OF assms, of "JObj d" w s t] by (simp add: value_class_def)
  then obtain e where w: "w = JObj e" by (auto simp: value_class_def split: json.splits)
  let ?f = "\<lambda>(k, v). json_quote k @ CHR '':'' # dumps rt v"
  note d = canon_members(1) [OF JObj.prems(1)] canon_members(2) [OF JObj.prems(1), of rt]
  note e = canon_members(1) [OF JObj.prems(2) [unfolded w]] canon_members(2) [OF JObj.prems(2) [unfolded w], of rt]
  have "d = e \<and> s = t"
  proof (rule join_inj [where f = ?f and c = "CHR 0x7D"])
    show "join_with '','' (map ?f d) @ CHR 0x7D # s = join_with '','' (map ?f e) @ CHR 0x7D # t"
      using JObj.prems(7) w d(2) e(2) by simp
    show "\<not> stops (?f x @ r)" if "x \<in> set d \<union> set e" for x r
      by (cases x) (simp add: json_quote_def delimiter_def)
    show "x = y \<and> r = q"
      if x: "x \<in> set d" "y \<in> set e" "stops r" "stops q" "?f x @ r = ?f y @ q" for x y r q
    proof -
      obtain k v where kv: "x = (k, v)" by (cases x)
      obtain l u where lu: "y = (l, u)" by (cases y)
      have "k = l" and vu: "dumps rt v @ r = dumps rt u @ q"
        using json_quote_inj [of k "CHR '':'' # dumps rt v @ r" l "CHR '':'' # dumps rt u @ q"] x(5)
        by (auto simp: kv lu)
      have "canon v = v" "canon u = u" "json_finite v" "json_finite u"
        using d(1) [OF x(1)] e(1) [OF x(2)] JObj.prems(3,4) x(1,2) w by (auto simp: kv lu)
      from JObj.IH [OF x(1) [unfolded kv] this x(3,4) vu] \<open>k = l\<close> show ?thesis by (simp add: kv lu)
    qed
  qed auto
  with w show ?case by simp
next
  case (JStr a)
  then have "value_class w = 3"
    using value_class_eq [OF assms, of "JStr a" w s t] by (simp add: value_class_def)
  then obtain b where "w = JStr b" by (auto simp: value_class_def split: json.splits)
  with JStr json_quote_inj [of a s b t] show ?case by simp
next
  case JNull
  show ?case by (rule scalar_prefix_inj [OF assms]) (use JNull in \<open>auto simp: scalar_def\<close>)
next
  case (JBool b)
  show ?case by (rule scalar_prefix_inj [OF assms]) (use JBool in \<open>auto simp: scalar_def\<close>)
next
  case (JInt i)
  show ?case by (rule scalar_prefix_inj [OF assms]) (use JInt in \<open>auto simp: scalar_def\<close>)
next
  case (JFloat x)
  show ?case by (rule scalar_prefix_inj [OF assms]) (use JFloat in \<open>auto simp: scalar_def\<close>)
qed

text \<open>Equal canonical texts come from values with the same canonical form.\<close>

lemma dumps_inj:
  assumes "float_repr_ok rt" and "json_finite v" and "json_finite w" and "dumps rt v = dumps rt w"
  shows "canon v = canon w"
  using dumps_prefix_inj [OF assms(1), of "canon v" "canon w" "[]" "[]"] assms(2-4) by simp

section \<open>Digests\<close>

text \<open>Two different texts among the given ones with one digest.\<close>

definition sha256_collision :: "runtime \<Rightarrow> string list \<Rightarrow> bool" where
  "sha256_collision rt texts \<longleftrightarrow> (\<exists>a \<in> set texts. \<exists>b \<in> set texts. a \<noteq> b \<and> rt_sha256 rt a = rt_sha256 rt b)"

lemma sha256_collision_mono: "sha256_collision rt xs \<Longrightarrow> set xs \<subseteq> set ys \<Longrightarrow> sha256_collision rt ys"
  unfolding sha256_collision_def by blast

text \<open>Equal digests of two values: the same canonical content, or their texts collide.\<close>

lemma digest_text_inj:
  assumes "float_repr_ok rt" and "json_finite v" and "json_finite w"
    and "digest_text rt v = digest_text rt w"
  shows "canon v = canon w \<or> sha256_collision rt [dumps rt v, dumps rt w]"
  using dumps_inj [OF assms(1-3)] assms(4) by (auto simp: digest_text_def sha256_collision_def)

end
