(* ===== verification/Audit_Log.thy ===== *)
theory Audit_Log
  imports Canonical_Text "HOL-Library.Sublist"
begin

text \<open>
  The hash-chained audit log of \<^verbatim>\<open>app/storage/audit.py\<close>. The table is the list of its rows in
  the order of \<open>audit_id\<close>; a transaction that raises leaves it as it was, so an operation returns
  either an exception or its result with the new rows.
\<close>

datatype storage_error =
    StorageError string
  | IdempotencyConflictError string
  | IntegrityError string
  | PyErr py_error

definition lift_py :: "py_error + 'a \<Rightarrow> storage_error + 'a" where
  "lift_py r = (case r of Inl e \<Rightarrow> Inl (PyErr e) | Inr x \<Rightarrow> Inr x)"

lemma lift_py_Inr [simp]: "lift_py r = Inr x \<longleftrightarrow> r = Inr x"
  by (auto simp: lift_py_def split: sum.splits)

record audit_row =
  al_event_id :: string
  al_event_type :: string
  al_actor :: "string option"
  al_resource_type :: "string option"
  al_resource_id :: "string option"
  al_scan_id :: "string option"
  al_endpoint_id :: "string option"
  al_authorization_scope_id :: "string option"
  al_outcome :: string
  al_details_json :: string
  al_previous_hash :: "string option"
  al_event_hash :: string
  al_created_at :: string

definition opt_json :: "string option \<Rightarrow> json" where
  "opt_json v = (case v of None \<Rightarrow> JNull | Some s \<Rightarrow> JStr s)"

lemma opt_json_inj [simp]: "opt_json a = opt_json b \<longleftrightarrow> a = b"
  by (auto simp: opt_json_def split: option.splits)

text \<open>The columns that are hashed, as the dictionary \<open>content\<close> of the code.\<close>

definition audit_content :: "audit_row \<Rightarrow> jobj" where
  "audit_content r =
    [(''event_id'', JStr (al_event_id r)), (''event_type'', JStr (al_event_type r)),
     (''actor'', opt_json (al_actor r)), (''resource_type'', opt_json (al_resource_type r)),
     (''resource_id'', opt_json (al_resource_id r)), (''scan_id'', opt_json (al_scan_id r)),
     (''endpoint_id'', opt_json (al_endpoint_id r)),
     (''authorization_scope_id'', opt_json (al_authorization_scope_id r)),
     (''outcome'', JStr (al_outcome r)), (''details_json'', JStr (al_details_json r)),
     (''created_at'', JStr (al_created_at r))]"

definition audit_event_hash :: "runtime \<Rightarrow> string option \<Rightarrow> jobj \<Rightarrow> string" where
  "audit_event_hash rt previous_hash content =
    rt_sha256 rt (dumps rt (JObj ((''previous_hash'', opt_json previous_hash) # content)))"

text \<open>What the caller passes, identifiers already defaulted as the code does.\<close>

record audit_request =
  aq_event_id :: string
  aq_event_type :: string
  aq_outcome :: string
  aq_actor :: "string option"
  aq_resource_type :: "string option"
  aq_resource_id :: "string option"
  aq_scan_id :: "string option"
  aq_endpoint_id :: "string option"
  aq_authorization_scope_id :: "string option"
  aq_details :: jobj
  aq_created_at :: string
  aq_return_existing :: bool

definition last_hash :: "audit_row list \<Rightarrow> string option" where
  "last_hash rows = (if rows = [] then None else Some (al_event_hash (last rows)))"

text \<open>The body of the transaction: the row is given without its two hashes.\<close>

definition audit_insert ::
    "runtime \<Rightarrow> bool \<Rightarrow> audit_row \<Rightarrow> audit_row list \<Rightarrow> storage_error + (string \<times> audit_row list)" where
  "audit_insert rt return_existing row rows =
    (case find (\<lambda>r. al_event_id r = al_event_id row) rows of
       Some existing \<Rightarrow>
         if audit_content existing \<noteq> audit_content row \<and> \<not> return_existing
         then Inl (IdempotencyConflictError ''audit event_id was reused with different content'')
         else Inr (al_event_hash existing, rows)
     | None \<Rightarrow>
         let previous_hash = last_hash rows;
             event_hash = audit_event_hash rt previous_hash (audit_content row)
         in if event_hash \<in> set (map al_event_hash rows)
            then Inl (IntegrityError ''UNIQUE constraint failed: audit_log.event_hash'')
            else Inr (event_hash,
              rows @ [row\<lparr>al_previous_hash := previous_hash, al_event_hash := event_hash\<rparr>]))"

definition record_audit_event ::
    "runtime \<Rightarrow> audit_request \<Rightarrow> audit_row list \<Rightarrow> storage_error + (string \<times> audit_row list)" where
  "record_audit_event rt q rows =
    ebind (lift_py (clean_identifier ''event_type'' 128 (JStr (aq_event_type q)))) (\<lambda>event_type.
    ebind (lift_py (clean_identifier ''outcome'' 64 (JStr (aq_outcome q)))) (\<lambda>outcome.
    ebind (lift_py (clean_identifier ''event_id'' 256 (JStr (aq_event_id q)))) (\<lambda>event_id.
    ebind (lift_py (canonical_json rt (JObj (aq_details q)))) (\<lambda>details_json.
    audit_insert rt (aq_return_existing q)
      \<lparr> al_event_id = event_id, al_event_type = event_type, al_actor = aq_actor q,
        al_resource_type = aq_resource_type q, al_resource_id = aq_resource_id q,
        al_scan_id = aq_scan_id q, al_endpoint_id = aq_endpoint_id q,
        al_authorization_scope_id = aq_authorization_scope_id q, al_outcome = outcome,
        al_details_json = details_json, al_previous_hash = None,
        al_event_hash = [], al_created_at = aq_created_at q \<rparr> rows))))"

definition has_audit_event :: "string \<Rightarrow> audit_row list \<Rightarrow> storage_error + bool" where
  "has_audit_event event_id rows =
    ebind (lift_py (clean_identifier ''event_id'' 256 (JStr event_id)))
      (\<lambda>k. Inr (\<exists>r \<in> set rows. al_event_id r = k))"

fun verify_from :: "runtime \<Rightarrow> string option \<Rightarrow> audit_row list \<Rightarrow> bool" where
  "verify_from rt previous_hash [] \<longleftrightarrow> True"
| "verify_from rt previous_hash (row # rows) \<longleftrightarrow>
    (let expected = audit_event_hash rt previous_hash (audit_content row) in
     if al_previous_hash row \<noteq> previous_hash \<or> al_event_hash row \<noteq> expected then False
     else verify_from rt (Some (al_event_hash row)) rows)"

definition verify_audit_chain :: "runtime \<Rightarrow> audit_row list \<Rightarrow> bool" where
  "verify_audit_chain rt rows = verify_from rt None rows"

section \<open>Recording keeps the chain\<close>

lemma verify_from_snoc:
  "verify_from rt p (rows @ [r]) \<longleftrightarrow> verify_from rt p rows \<and>
    (let q = (if rows = [] then p else Some (al_event_hash (last rows))) in
     al_previous_hash r = q \<and> al_event_hash r = audit_event_hash rt q (audit_content r))"
  by (induction rows arbitrary: p) (auto simp: Let_def)

lemma audit_content_hashes [simp]:
  "audit_content (r\<lparr>al_event_hash := x\<rparr>) = audit_content r"
  "audit_content (r\<lparr>al_previous_hash := y\<rparr>) = audit_content r"
  by (simp_all add: audit_content_def)

lemma audit_insert_Inr:
  assumes "audit_insert rt ret row rows = Inr (h, rows')"
  shows "(rows' = rows \<and> (\<exists>r \<in> set rows. al_event_id r = al_event_id row \<and> al_event_hash r = h)) \<or>
    (\<exists>r. rows' = rows @ [r] \<and> al_event_hash r = h \<and> al_previous_hash r = last_hash rows
      \<and> h = audit_event_hash rt (last_hash rows) (audit_content r) \<and> audit_content r = audit_content row
      \<and> al_event_id row \<notin> al_event_id ` set rows \<and> h \<notin> al_event_hash ` set rows)"
proof (cases "find (\<lambda>r. al_event_id r = al_event_id row) rows")
  case None
  then have "al_event_id row \<notin> al_event_id ` set rows" by (auto simp: find_None_iff)
  with None assms show ?thesis by (auto simp: audit_insert_def Let_def split: if_splits)
next
  case (Some r)
  with assms find_SomeD [OF Some] show ?thesis by (auto simp: audit_insert_def split: if_splits)
qed

lemma record_audit_event_insert:
  assumes "record_audit_event rt q rows = Inr (h, rows')"
  shows "\<exists>row. audit_insert rt (aq_return_existing q) row rows = Inr (h, rows')"
  using assms by (auto simp: record_audit_event_def ebind_Inr_iff)

lemma audit_insert_verifies:
  "audit_insert rt ret row rows = Inr (h, rows') \<Longrightarrow> verify_audit_chain rt rows \<Longrightarrow> verify_audit_chain rt rows'"
  by (auto dest!: audit_insert_Inr simp: verify_audit_chain_def verify_from_snoc Let_def last_hash_def)

section \<open>Two verified logs with one last hash\<close>

lemma audit_content_keys: "dict_ok ((''previous_hash'', v) # audit_content r)"
  by (simp add: dict_ok_def audit_content_def)

lemma audit_content_finite: "json_finite (JObj ((''previous_hash'', opt_json p) # audit_content r))"
  by (simp add: audit_content_def opt_json_def split: option.splits)

lemma audit_content_inj:
  assumes "canon (JObj ((''previous_hash'', opt_json p) # audit_content r))
    = canon (JObj ((''previous_hash'', opt_json q) # audit_content s))"
  shows "p = q \<and> audit_content r = audit_content s"
proof -
  have get: "map_option canon (dict_get ((''previous_hash'', opt_json p) # audit_content r) k)
      = map_option canon (dict_get ((''previous_hash'', opt_json q) # audit_content s) k)" for k
    using assms dict_get_canon_obj [OF audit_content_keys] unfolding canon_JObj by (metis json.inject(6))
  have canon_opt: "canon (opt_json v) = opt_json v" for v by (simp add: opt_json_def split: option.split)
  show ?thesis
    using get [of "''previous_hash''"] get [of "''event_id''"] get [of "''event_type''"] get [of "''actor''"]
      get [of "''resource_type''"] get [of "''resource_id''"] get [of "''scan_id''"] get [of "''endpoint_id''"]
      get [of "''authorization_scope_id''"] get [of "''outcome''"] get [of "''details_json''"] get [of "''created_at''"]
    by (simp add: audit_content_def dict_get_Cons canon_opt)
qed

lemma audit_row_eqI:
  "audit_content r = audit_content s \<Longrightarrow> al_previous_hash r = al_previous_hash s \<Longrightarrow>
    al_event_hash r = al_event_hash s \<Longrightarrow> r = (s :: audit_row)"
  by (simp add: audit_content_def)

text \<open>The text whose digest is the hash of an event, and the texts of a log.\<close>

definition audit_text :: "runtime \<Rightarrow> string option \<Rightarrow> audit_row \<Rightarrow> string" where
  "audit_text rt previous_hash r = dumps rt (JObj ((''previous_hash'', opt_json previous_hash) # audit_content r))"

definition audit_texts :: "runtime \<Rightarrow> audit_row list \<Rightarrow> string list" where
  "audit_texts rt rows = map (\<lambda>r. audit_text rt (al_previous_hash r) r) rows"

lemma audit_event_hash_inj:
  assumes "float_repr_ok rt"
    and "audit_event_hash rt p (audit_content r) = audit_event_hash rt q (audit_content s)"
  shows "(p = q \<and> audit_content r = audit_content s) \<or> sha256_collision rt [audit_text rt p r, audit_text rt q s]"
  using digest_text_inj [OF assms(1) audit_content_finite audit_content_finite] assms(2) audit_content_inj
  by (simp add: digest_text_def audit_event_hash_def audit_text_def) blast

lemma verified_logs_equal:
  assumes "float_repr_ok rt"
  shows "verify_audit_chain rt xs \<Longrightarrow> verify_audit_chain rt ys \<Longrightarrow> last_hash xs = last_hash ys \<Longrightarrow>
    xs = ys \<or> sha256_collision rt (audit_texts rt xs @ audit_texts rt ys)"
proof (induction xs arbitrary: ys rule: rev_induct)
  case Nil
  then show ?case by (auto simp: last_hash_def split: if_splits)
next
  case (snoc x xs)
  have prev: "al_previous_hash r = last_hash rs \<and> al_event_hash r = audit_event_hash rt (last_hash rs) (audit_content r)"
    if "verify_audit_chain rt (rs @ [r])" for rs r
    using that by (auto simp: verify_audit_chain_def verify_from_snoc last_hash_def Let_def)
  obtain ys' y where ys: "ys = ys' @ [y]"
    using snoc.prems(3) by (cases ys rule: rev_cases) (auto simp: last_hash_def)
  have hash: "al_event_hash x = al_event_hash y" using snoc.prems(3) ys by (simp add: last_hash_def)
  note px = prev [OF snoc.prems(1)] and py = prev [OF snoc.prems(2) [unfolded ys]]
  have "(last_hash xs = last_hash ys' \<and> audit_content x = audit_content y) \<or>
      sha256_collision rt [audit_text rt (last_hash xs) x, audit_text rt (last_hash ys') y]"
    using audit_event_hash_inj [OF assms] px py hash by metis
  then show ?case
  proof (elim disjE conjE)
    assume same: "last_hash xs = last_hash ys'" "audit_content x = audit_content y"
    have "verify_audit_chain rt xs" "verify_audit_chain rt ys'"
      using snoc.prems(1,2) ys by (simp_all add: verify_audit_chain_def verify_from_snoc)
    from snoc.IH [OF this same(1)] show ?thesis
    proof
      assume "xs = ys'"
      moreover have "x = y" using same(1) audit_row_eqI [OF same(2) _ hash] px py by simp
      ultimately show ?thesis using ys by simp
    next
      assume "sha256_collision rt (audit_texts rt xs @ audit_texts rt ys')"
      then have "sha256_collision rt (audit_texts rt (xs @ [x]) @ audit_texts rt ys)"
        by (rule sha256_collision_mono) (auto simp: audit_texts_def ys)
      then show ?thesis by blast
    qed
  next
    assume "sha256_collision rt [audit_text rt (last_hash xs) x, audit_text rt (last_hash ys') y]"
    then have "sha256_collision rt (audit_texts rt (xs @ [x]) @ audit_texts rt ys)"
      by (rule sha256_collision_mono) (simp add: audit_texts_def ys px py)
    then show ?thesis by blast
  qed
qed

end
