(* ===== verification/Retry.thy ===== *)
theory Retry
  imports Prelude
begin

text \<open>
  The retry policy of \<^verbatim>\<open>app/storage/retry.py\<close>. Seconds are rationals: the floats of the code
  without their rounding. The random source is a parameter \<open>draw a b\<close>, \<open>Random.uniform(a, b)\<close>,
  which lies between its bounds.
\<close>

record retry_policy =
  rp_max_attempts :: int
  rp_base_delay_seconds :: rat
  rp_multiplier :: rat
  rp_max_delay_seconds :: rat
  rp_jitter_ratio :: rat

definition default_retry_policy :: retry_policy where
  "default_retry_policy = \<lparr> rp_max_attempts = 8, rp_base_delay_seconds = 1, rp_multiplier = 2,
     rp_max_delay_seconds = 3600, rp_jitter_ratio = 1 / 5 \<rparr>"

text \<open>\<open>__post_init__\<close>.\<close>

definition make_retry_policy :: "retry_policy \<Rightarrow> py_error + retry_policy" where
  "make_retry_policy p =
    (if \<not> (1 \<le> rp_max_attempts p \<and> rp_max_attempts p \<le> 100)
     then Inl (ValueError ''max_attempts must be between 1 and 100'')
     else if rp_base_delay_seconds p \<le> 0 then Inl (ValueError ''base_delay_seconds must be positive'')
     else if rp_multiplier p < 1 then Inl (ValueError ''multiplier must be at least 1'')
     else if rp_max_delay_seconds p < rp_base_delay_seconds p
     then Inl (ValueError ''max_delay_seconds cannot be below base delay'')
     else if \<not> (0 \<le> rp_jitter_ratio p \<and> rp_jitter_ratio p \<le> 1)
     then Inl (ValueError ''jitter_ratio must be between 0 and 1'')
     else Inr p)"

definition base_delay :: "retry_policy \<Rightarrow> nat \<Rightarrow> rat" where
  "base_delay p exponent =
    min (rp_max_delay_seconds p) (rp_base_delay_seconds p * rp_multiplier p ^ exponent)"

definition delay_for_attempt :: "retry_policy \<Rightarrow> int \<Rightarrow> (rat \<Rightarrow> rat \<Rightarrow> rat) \<Rightarrow> py_error + rat" where
  "delay_for_attempt p attempt draw =
    (if attempt < 1 then Inl (ValueError ''attempt must be at least 1'')
     else
       let exponent = min (attempt - 1) 63;
           delay = base_delay p (nat exponent);
           jitter = delay * rp_jitter_ratio p
       in Inr (max 0 (min (rp_max_delay_seconds p) (delay + draw (- jitter) jitter))))"

definition uniform_draw :: "(rat \<Rightarrow> rat \<Rightarrow> rat) \<Rightarrow> bool" where
  "uniform_draw draw \<longleftrightarrow> (\<forall>a b. a \<le> b \<longrightarrow> a \<le> draw a b \<and> draw a b \<le> b)"

lemma base_delay_pos: "make_retry_policy p = Inr q \<Longrightarrow> 0 < base_delay p n"
  by (auto simp: make_retry_policy_def base_delay_def split: if_splits)

lemma base_delay_mono:
  assumes "make_retry_policy p = Inr q" and "m \<le> n"
  shows "base_delay p m \<le> base_delay p n"
proof -
  have "rp_multiplier p ^ m \<le> rp_multiplier p ^ n"
    using assms by (auto simp: make_retry_policy_def power_increasing split: if_splits)
  then have "rp_base_delay_seconds p * rp_multiplier p ^ m \<le> rp_base_delay_seconds p * rp_multiplier p ^ n"
    using assms(1) by (auto simp: make_retry_policy_def mult_left_mono split: if_splits)
  then show ?thesis by (simp add: base_delay_def min_def)
qed

end
