(* ===== verification/Upload_Queue.thy ===== *)
theory Upload_Queue
  imports Audit_Log Retry
begin

text \<open>
  The durable upload queue of \<^verbatim>\<open>app/storage/upload_queue.py\<close>. The table is the list of its
  rows in the order of \<open>upload_id\<close>, which SQLite never reuses. An operation is one immediate
  transaction: it returns an exception, with nothing changed, or its result and the new tables.
  A payload given as a mapping is kept as the value its canonical JSON text reads back to;
  epoch seconds are rationals.
\<close>

section \<open>Rows\<close>

datatype upload_status = UPLOAD_PENDING | UPLOAD_IN_FLIGHT | UPLOAD_SUCCEEDED | UPLOAD_DEAD

datatype upload_body = JsonBody json | RawBody string

record upload_row =
  up_id :: nat
  up_kind :: string
  up_method :: string
  up_endpoint :: string
  up_payload :: upload_body
  up_payload_hash :: string
  up_content_type :: string
  up_idempotency_key :: string
  up_request_id :: string
  up_status :: upload_status
  up_attempt_count :: int
  up_max_attempts :: int
  up_next_attempt_at :: rat
  up_leased_until :: "rat option"
  up_lease_token :: "string option"
  up_last_error :: "string option"
  up_metadata :: json
  up_created_at :: string
  up_updated_at :: string
  up_delivered_at :: "string option"
  up_causal_group :: "string option"
  up_predecessor :: "nat option"
  up_superseded_by :: "nat option"
  up_resync_for :: "nat option"

text \<open>\<open>ob_seq\<close> is the autoincrement counter, the largest identifier ever given.\<close>

record outbox =
  ob_rows :: "upload_row list"
  ob_seq :: nat
  ob_audit :: "audit_row list"

text \<open>
  The services of one call: the run time, \<open>json.loads\<close> and SHA-256 on raw bytes, the redaction of
  secrets in error texts by regular expressions, the fresh lease tokens, and the clock as text.
\<close>

record queue_env =
  qe_rt :: runtime
  qe_loads :: "string \<Rightarrow> json option"
  qe_sha256_bytes :: "string \<Rightarrow> string"
  qe_redact :: "string \<Rightarrow> string"
  qe_token :: "nat \<Rightarrow> string"
  qe_now_text :: string

definition body_hash :: "queue_env \<Rightarrow> upload_body \<Rightarrow> string" where
  "body_hash env body = (case body of
     JsonBody v \<Rightarrow> rt_sha256 (qe_rt env) (dumps (qe_rt env) v) | RawBody b \<Rightarrow> qe_sha256_bytes env b)"

definition body_json :: "queue_env \<Rightarrow> upload_body \<Rightarrow> json option" where
  "body_json env body = (case body of JsonBody v \<Rightarrow> Some v | RawBody b \<Rightarrow> qe_loads env b)"

text \<open>\<open>clean_error(value, max_length)\<close>, the redaction being a parameter.\<close>

definition clean_error :: "queue_env \<Rightarrow> string \<Rightarrow> nat \<Rightarrow> string" where
  "clean_error env value max_length =
    take max_length (map (\<lambda>c. if code_point c \<ge> 32 then c else CHR '' '') (qe_redact env value))"

section \<open>Causal groups\<close>

definition causal_upload_kinds :: "string list" where
  "causal_upload_kinds = [''inventory-snapshot'', ''scan-result'', ''scan-status'']"

text \<open>The \<open>lower\<close> of SQLite changes ASCII letters only.\<close>

definition normalized_kind :: "string \<Rightarrow> string" where
  "normalized_kind kind =
    replace_char (CHR ''_'') ''-'' (py_casefold (py_strip kind))"

definition sql_lower :: "string \<Rightarrow> string" where
  "sql_lower s = map (\<lambda>c. let n = code_point c in if 65 \<le> n \<and> n \<le> 90 then char_of (n + 32) else c) s"

text \<open>The first candidate that is a valid identifier.\<close>

fun first_identifier :: "json list \<Rightarrow> string option" where
  "first_identifier [] = None"
| "first_identifier (v # vs) =
    (case v of
       JStr _ \<Rightarrow> (case clean_identifier ''endpoint_id'' 256 v of
          Inl _ \<Rightarrow> first_identifier vs | Inr e \<Rightarrow> Some e)
     | _ \<Rightarrow> first_identifier vs)"

definition nested_endpoint :: "string \<Rightarrow> jobj \<Rightarrow> json list" where
  "nested_endpoint k d = (case jget k d of JObj e \<Rightarrow> [jget ''endpoint_id'' e] | _ \<Rightarrow> [])"

definition causal_group :: "queue_env \<Rightarrow> string \<Rightarrow> jobj \<Rightarrow> upload_body \<Rightarrow> string option" where
  "causal_group env kind metadata body =
    (if normalized_kind kind \<notin> set causal_upload_kinds then None
     else
       let candidates = jget ''endpoint_id'' metadata #
         (case body_json env body of
            Some (JObj d) \<Rightarrow>
              jget ''endpoint_id'' d # nested_endpoint ''result'' d @ nested_endpoint ''inventory_sync'' d
          | _ \<Rightarrow> [])
       in case first_identifier candidates of
            Some e \<Rightarrow> Some (''endpoint:'' @ rt_sha256 (qe_rt env) e)
          | None \<Rightarrow> Some ''endpoint:unscoped'')"

section \<open>Table access\<close>

definition row_of :: "nat \<Rightarrow> upload_row list \<Rightarrow> upload_row option" where
  "row_of i rows = find (\<lambda>r. up_id r = i) rows"

definition update_rows :: "(upload_row \<Rightarrow> bool) \<Rightarrow> (upload_row \<Rightarrow> upload_row) \<Rightarrow> upload_row list \<Rightarrow> upload_row list" where
  "update_rows p f rows = map (\<lambda>r. if p r then f r else r) rows"

text \<open>\<open>SELECT upload_id ... WHERE causal_group=? AND upload_id<? ORDER BY upload_id DESC LIMIT 1\<close>.\<close>

definition latest_in_group :: "string \<Rightarrow> nat \<Rightarrow> upload_row list \<Rightarrow> nat option" where
  "latest_in_group g bound rows =
    map_option up_id (find (\<lambda>r. up_causal_group r = Some g \<and> up_id r < bound) (rev rows))"

definition metadata_obj :: "upload_row \<Rightarrow> jobj" where
  "metadata_obj r = (case up_metadata r of JObj d \<Rightarrow> d | _ \<Rightarrow> [])"

definition legacy_row :: "upload_row \<Rightarrow> bool" where
  "legacy_row r \<longleftrightarrow> up_causal_group r = None
     \<and> sql_lower (replace_char (CHR ''_'') ''-'' (up_kind r)) \<in> set causal_upload_kinds"

text \<open>\<open>_backfill_causal_links\<close>: the rows are selected first, then updated one by one.\<close>

fun backfill_loop :: "queue_env \<Rightarrow> upload_row list \<Rightarrow> upload_row list \<Rightarrow> upload_row list" where
  "backfill_loop env [] rows = rows"
| "backfill_loop env (r # rs) rows =
    (case causal_group env (up_kind r) (metadata_obj r) (up_payload r) of
       None \<Rightarrow> backfill_loop env rs rows
     | Some g \<Rightarrow>
       let predecessor = (if up_resync_for r = None then latest_in_group g (up_id r) rows else None)
       in backfill_loop env rs
            (update_rows (\<lambda>x. up_id x = up_id r \<and> up_causal_group x = None)
               (\<lambda>x. x\<lparr>up_causal_group := Some g,
                      up_predecessor := (case up_predecessor x of None \<Rightarrow> predecessor | Some p \<Rightarrow> Some p)\<rparr>)
               rows))"

definition backfill :: "queue_env \<Rightarrow> upload_row list \<Rightarrow> upload_row list" where
  "backfill env rows = backfill_loop env (filter legacy_row rows) rows"

section \<open>Enqueue\<close>

record enqueue_request =
  nq_kind :: string
  nq_payload :: upload_body
  nq_idempotency_key :: string
  nq_endpoint :: string
  nq_method :: string
  nq_content_type :: string
  nq_request_id :: string
  nq_metadata :: jobj
  nq_max_attempts :: int
  nq_next_attempt :: rat

definition upload_methods :: "string list" where
  "upload_methods = [''POST'', ''PUT'', ''PATCH'', ''DELETE'']"

text \<open>The validation of the arguments: the request with its cleaned fields.\<close>

definition clean_request :: "runtime \<Rightarrow> enqueue_request \<Rightarrow> storage_error + enqueue_request" where
  "clean_request rt q =
    ebind (lift_py (clean_identifier ''kind'' 128 (JStr (nq_kind q)))) (\<lambda>kind.
    ebind (lift_py (clean_identifier ''idempotency_key'' 256 (JStr (nq_idempotency_key q)))) (\<lambda>key.
    ebind (lift_py (clean_identifier ''endpoint'' 2048 (JStr (nq_endpoint q)))) (\<lambda>endpoint.
    if \<not> starts_with ''/'' endpoint \<or> starts_with ''//'' endpoint
    then Inl (PyErr (ValueError ''upload endpoint must be an absolute API path''))
    else ebind (lift_py (clean_identifier ''method'' 16 (JStr (map upper_char (nq_method q))))) (\<lambda>verb.
    if verb \<notin> set upload_methods then Inl (PyErr (ValueError ''upload queue method is not supported''))
    else if \<not> (1 \<le> nq_max_attempts q \<and> nq_max_attempts q \<le> 100)
    then Inl (PyErr (ValueError ''max_attempts must be between 1 and 100''))
    else ebind (case nq_payload q of
                  RawBody b \<Rightarrow> Inr (RawBody b)
                | JsonBody v \<Rightarrow> ebind (lift_py (canonical_json rt v)) (\<lambda>_. Inr (JsonBody (canon v)))) (\<lambda>body.
    ebind (lift_py (clean_identifier ''request_id'' 256 (JStr (nq_request_id q)))) (\<lambda>request_id.
    ebind (lift_py (canonical_json rt (JObj (nq_metadata q)))) (\<lambda>_.
    Inr (q\<lparr>nq_kind := kind, nq_idempotency_key := key, nq_endpoint := endpoint, nq_method := verb,
           nq_payload := body, nq_request_id := request_id\<rparr>))))))))"

text \<open>The insertion of a row: the new identifier, and the two unique indexes.\<close>

definition insert_upload :: "upload_row \<Rightarrow> outbox \<Rightarrow> storage_error + (nat \<times> outbox)" where
  "insert_upload row ob =
    (let i = ob_seq ob + 1 in
     if up_idempotency_key row \<in> set (map up_idempotency_key (ob_rows ob))
     then Inl (IntegrityError ''UNIQUE constraint failed: upload_queue.idempotency_key'')
     else if up_resync_for row \<noteq> None \<and> up_resync_for row \<in> set (map up_resync_for (ob_rows ob))
     then Inl (IntegrityError ''UNIQUE constraint failed: upload_queue.resync_for_upload_id'')
     else Inr (i, ob\<lparr>ob_rows := ob_rows ob @ [row\<lparr>up_id := i\<rparr>], ob_seq := i\<rparr>))"

definition new_upload_row :: "queue_env \<Rightarrow> enqueue_request \<Rightarrow> string option \<Rightarrow> nat option \<Rightarrow> upload_row" where
  "new_upload_row env q causal predecessor =
    \<lparr> up_id = 0, up_kind = nq_kind q, up_method = nq_method q, up_endpoint = nq_endpoint q,
      up_payload = nq_payload q, up_payload_hash = body_hash env (nq_payload q),
      up_content_type = nq_content_type q, up_idempotency_key = nq_idempotency_key q,
      up_request_id = nq_request_id q, up_status = UPLOAD_PENDING, up_attempt_count = 0,
      up_max_attempts = nq_max_attempts q, up_next_attempt_at = nq_next_attempt q,
      up_leased_until = None, up_lease_token = None, up_last_error = None,
      up_metadata = canon (JObj (nq_metadata q)), up_created_at = qe_now_text env,
      up_updated_at = qe_now_text env, up_delivered_at = None, up_causal_group = causal,
      up_predecessor = predecessor, up_superseded_by = None, up_resync_for = None \<rparr>"

definition enqueue_upload ::
    "queue_env \<Rightarrow> enqueue_request \<Rightarrow> outbox \<Rightarrow> storage_error + ((nat \<times> bool) \<times> outbox)" where
  "enqueue_upload env request ob =
    ebind (clean_request (qe_rt env) request) (\<lambda>q.
    let causal = causal_group env (nq_kind q) (nq_metadata q) (nq_payload q);
        ob = ob\<lparr>ob_rows := backfill env (ob_rows ob)\<rparr>
    in case find (\<lambda>r. up_idempotency_key r = nq_idempotency_key q) (ob_rows ob) of
         Some existing \<Rightarrow>
           if (up_kind existing, up_method existing, up_endpoint existing, up_payload_hash existing,
               up_content_type existing)
              \<noteq> (nq_kind q, nq_method q, nq_endpoint q, body_hash env (nq_payload q), nq_content_type q)
           then Inl (IdempotencyConflictError ''upload idempotency key was reused with different content'')
           else Inr ((up_id existing, False), ob)
       | None \<Rightarrow>
           let predecessor = (case causal of None \<Rightarrow> None
                 | Some g \<Rightarrow> latest_in_group g (ob_seq ob + 1) (ob_rows ob))
           in ebind (insert_upload (new_upload_row env q causal predecessor) ob)
                (\<lambda>(i, ob). Inr ((i, True), ob)))"

section \<open>Claim\<close>

definition expire_leases :: "queue_env \<Rightarrow> rat \<Rightarrow> upload_row list \<Rightarrow> upload_row list" where
  "expire_leases env current rows =
    (let lapsed = (\<lambda>r. up_status r = UPLOAD_IN_FLIGHT
           \<and> (case up_leased_until r of None \<Rightarrow> False | Some t \<Rightarrow> t \<le> current));
         rows = update_rows (\<lambda>r. lapsed r \<and> up_max_attempts r \<le> up_attempt_count r)
           (\<lambda>r. r\<lparr>up_status := UPLOAD_DEAD, up_lease_token := None, up_leased_until := None,
                  up_last_error := (case up_last_error r of
                     None \<Rightarrow> Some ''upload lease expired at retry limit'' | Some e \<Rightarrow> Some e),
                  up_updated_at := qe_now_text env\<rparr>) rows
     in update_rows (\<lambda>r. lapsed r \<and> up_attempt_count r < up_max_attempts r)
          (\<lambda>r. r\<lparr>up_status := UPLOAD_PENDING, up_lease_token := None, up_leased_until := None,
                 up_next_attempt_at := current, up_updated_at := qe_now_text env\<rparr>) rows)"

definition status_of :: "nat option \<Rightarrow> upload_row list \<Rightarrow> upload_status option" where
  "status_of i rows = (case i of None \<Rightarrow> None | Some i \<Rightarrow> map_option up_status (row_of i rows))"

text \<open>The two joins of the query: the predecessor, or its replacement, was delivered.\<close>

definition unblocked :: "upload_row list \<Rightarrow> upload_row \<Rightarrow> bool" where
  "unblocked rows r \<longleftrightarrow>
    (case up_predecessor r of
       None \<Rightarrow> True
     | Some p \<Rightarrow>
       (case row_of p rows of
          None \<Rightarrow> False
        | Some pr \<Rightarrow> up_status pr = UPLOAD_SUCCEEDED
            \<or> status_of (up_superseded_by pr) rows = Some UPLOAD_SUCCEEDED))"

definition claimable :: "rat \<Rightarrow> upload_row list \<Rightarrow> upload_row \<Rightarrow> bool" where
  "claimable current rows r \<longleftrightarrow> up_status r = UPLOAD_PENDING \<and> up_next_attempt_at r \<le> current
     \<and> up_attempt_count r < up_max_attempts r \<and> unblocked rows r"

text \<open>The update of the selected rows, one token each, and the leases handed out.\<close>

definition take_lease :: "queue_env \<Rightarrow> rat \<Rightarrow> nat \<Rightarrow> int \<Rightarrow> upload_row \<Rightarrow> upload_row" where
  "take_lease env until n attempt_count x =
    x\<lparr>up_status := UPLOAD_IN_FLIGHT, up_attempt_count := attempt_count,
      up_lease_token := Some (qe_token env n), up_leased_until := Some until,
      up_updated_at := qe_now_text env\<rparr>"

fun lease_rows ::
    "queue_env \<Rightarrow> rat \<Rightarrow> nat \<Rightarrow> upload_row list \<Rightarrow> upload_row list \<Rightarrow> upload_row list \<times> upload_row list" where
  "lease_rows env until n [] rows = ([], rows)"
| "lease_rows env until n (r # rs) rows =
    (let lease = take_lease env until n (up_attempt_count r + 1);
         matching = (\<lambda>x. up_id x = up_id r \<and> up_status x = UPLOAD_PENDING);
         (leases, rows') = lease_rows env until (n + 1) rs (update_rows matching lease rows)
     in (if \<exists>x \<in> set rows. matching x then (lease r # leases, rows') else (leases, rows')))"

definition claim_uploads ::
    "queue_env \<Rightarrow> int \<Rightarrow> rat \<Rightarrow> rat \<Rightarrow> outbox \<Rightarrow> storage_error + (upload_row list \<times> outbox)" where
  "claim_uploads env limit lease_seconds current ob =
    (if \<not> (1 \<le> limit \<and> limit \<le> 1000)
     then Inl (PyErr (ValueError ''limit must be between 1 and 1000''))
     else if \<not> (1 \<le> lease_seconds \<and> lease_seconds \<le> 86400)
     then Inl (PyErr (ValueError ''lease_seconds must be between 1 and 86400''))
     else
       let rows = expire_leases env current (backfill env (ob_rows ob));
           selected = take (nat limit) (sort_key up_next_attempt_at (filter (claimable current rows) rows));
           (leases, rows') = lease_rows env (current + lease_seconds) 0 selected rows
       in Inr (leases, ob\<lparr>ob_rows := rows'\<rparr>))"

section \<open>Outcomes of a delivery\<close>

text \<open>\<open>WHERE upload_id=? AND status='IN_FLIGHT' AND lease_token=?\<close>.\<close>

definition holds_lease :: "nat \<Rightarrow> string \<Rightarrow> upload_row \<Rightarrow> bool" where
  "holds_lease i token r \<longleftrightarrow> up_id r = i \<and> up_status r = UPLOAD_IN_FLIGHT \<and> up_lease_token r = Some token"

definition mark_upload_succeeded ::
    "queue_env \<Rightarrow> nat \<Rightarrow> string \<Rightarrow> string \<Rightarrow> outbox \<Rightarrow> storage_error + (bool \<times> outbox)" where
  "mark_upload_succeeded env i lease_token now ob =
    ebind (lift_py (clean_identifier ''lease_token'' 256 (JStr lease_token))) (\<lambda>token.
    Inr (\<exists>r \<in> set (ob_rows ob). holds_lease i token r,
      ob\<lparr>ob_rows := update_rows (holds_lease i token)
        (\<lambda>r. r\<lparr>up_status := UPLOAD_SUCCEEDED, up_lease_token := None, up_leased_until := None,
               up_last_error := None, up_delivered_at := Some now, up_updated_at := now\<rparr>)
        (ob_rows ob)\<rparr>))"

definition mark_upload_failed ::
    "queue_env \<Rightarrow> nat \<Rightarrow> string \<Rightarrow> string \<Rightarrow> bool \<Rightarrow> rat option \<Rightarrow> retry_policy option \<Rightarrow>
     (rat \<Rightarrow> rat \<Rightarrow> rat) \<Rightarrow> rat \<Rightarrow> outbox \<Rightarrow> storage_error + (upload_status \<times> outbox)" where
  "mark_upload_failed env i lease_token error permanent retry_after policy draw current ob =
    ebind (lift_py (clean_identifier ''lease_token'' 256 (JStr lease_token))) (\<lambda>token.
    case find (holds_lease i token) (ob_rows ob) of
      None \<Rightarrow> Inl (StorageError ''upload lease is no longer valid'')
    | Some row \<Rightarrow>
      let terminal = (permanent \<or> up_max_attempts row \<le> up_attempt_count row);
          status = (if terminal then UPLOAD_DEAD else UPLOAD_PENDING)
      in ebind (if terminal then Inr current
                else case retry_after of
                  Some s \<Rightarrow> Inr (current + max 0 s)
                | None \<Rightarrow> lift_py (ebind (case policy of
                      Some p \<Rightarrow> Inr p
                    | None \<Rightarrow> make_retry_policy (default_retry_policy\<lparr>rp_max_attempts := up_max_attempts row\<rparr>))
                    (\<lambda>p. ebind (delay_for_attempt p (up_attempt_count row) draw) (\<lambda>d. Inr (current + d)))))
           (\<lambda>next_attempt.
           Inr (status, ob\<lparr>ob_rows := update_rows (\<lambda>r. up_id r = i)
             (\<lambda>r. r\<lparr>up_status := status, up_next_attempt_at := next_attempt, up_lease_token := None,
                    up_leased_until := None, up_last_error := Some (clean_error env error 1024),
                    up_updated_at := qe_now_text env\<rparr>) (ob_rows ob)\<rparr>)))"

section \<open>Full resynchronisation\<close>

text \<open>The row of the snapshot tables that the recovery upload is built from.\<close>

record snapshot_row =
  sn_endpoint_id :: string
  sn_scan_id :: string
  sn_schema_version :: string
  sn_policy_version :: "string option"
  sn_scanner_version :: "string option"
  sn_payload_hash :: string
  sn_payload :: json

definition full_sync :: "snapshot_row \<Rightarrow> jobj" where
  "full_sync sn =
    [(''endpoint_id'', JStr (sn_endpoint_id sn)), (''scan_id'', JStr (sn_scan_id sn)),
     (''schema_version'', JStr (sn_schema_version sn)), (''policy_version'', opt_json (sn_policy_version sn)),
     (''scanner_version'', opt_json (sn_scanner_version sn)), (''snapshot_hash'', JStr (sn_payload_hash sn)),
     (''previous_hash'', JNull), (''mode'', JStr ''full''), (''snapshot'', sn_payload sn)]"

definition storage_of_py :: "string \<Rightarrow> py_error + 'a \<Rightarrow> storage_error + 'a" where
  "storage_of_py message r = (case r of Inl _ \<Rightarrow> Inl (StorageError message) | Inr x \<Rightarrow> Inr x)"

text \<open>
  The checks on the leased row: the metadata, the payload and the scan identifier. A payload that
  is not JSON raises \<open>ValueError\<close> from the parser.
\<close>

definition resync_source ::
    "queue_env \<Rightarrow> upload_row \<Rightarrow> storage_error + (jobj \<times> jobj \<times> string)" where
  "resync_source env row =
    (case up_metadata row of
       JObj metadata \<Rightarrow>
         if truthy (jget ''causal_recovery'' metadata)
         then Inl (StorageError ''a full-resync upload cannot be superseded again'')
         else (case body_json env (up_payload row) of
           None \<Rightarrow> Inl (PyErr (ValueError ''invalid JSON payload''))
         | Some (JObj payload) \<Rightarrow>
           let sync = (if jget ''inventory_sync'' payload = JNull \<and> dict_has ''mode'' payload
                 then JObj payload else jget ''inventory_sync'' payload)
           in (case sync of
                JObj inventory_sync \<Rightarrow>
                  ebind (storage_of_py ''differential upload has no valid scan_id''
                    (clean_identifier ''scan_id'' 256
                      (if truthy (jget ''scan_id'' metadata) then jget ''scan_id'' metadata
                       else jget ''scan_id'' inventory_sync))) (\<lambda>scan_id.
                  Inr (metadata, payload, scan_id))
              | _ \<Rightarrow> Inl (StorageError ''upload does not contain differential inventory state''))
         | _ \<Rightarrow> Inl (StorageError ''differential upload payload is not a JSON object''))
     | _ \<Rightarrow> Inl (StorageError ''upload metadata is not a JSON object''))"

definition recovery_key :: "runtime \<Rightarrow> snapshot_row \<Rightarrow> string \<Rightarrow> string" where
  "recovery_key rt sn scan_id =
    ''full-resync:'' @ rt_sha256 rt (sn_endpoint_id sn @ '':'' @ scan_id @ '':'' @ sn_payload_hash sn)"

definition recovery_row ::
    "queue_env \<Rightarrow> upload_row \<Rightarrow> upload_body \<Rightarrow> jobj \<Rightarrow> string \<Rightarrow> string \<Rightarrow> rat \<Rightarrow> upload_row" where
  "recovery_row env row body metadata key request_id current =
    \<lparr> up_id = 0, up_kind = ''inventory_full_resync'', up_method = up_method row,
      up_endpoint = up_endpoint row, up_payload = body, up_payload_hash = body_hash env body,
      up_content_type = up_content_type row, up_idempotency_key = key, up_request_id = request_id,
      up_status = UPLOAD_PENDING, up_attempt_count = 0, up_max_attempts = up_max_attempts row,
      up_next_attempt_at = current, up_leased_until = None, up_lease_token = None,
      up_last_error = None, up_metadata = canon (JObj metadata), up_created_at = qe_now_text env,
      up_updated_at = qe_now_text env, up_delivered_at = None, up_causal_group = up_causal_group row,
      up_predecessor = up_predecessor row, up_superseded_by = None, up_resync_for = Some (up_id row) \<rparr>"

text \<open>The recovery upload: the one already queued under its key, or a new row.\<close>

definition recovery_upload :: "upload_row \<Rightarrow> upload_row \<Rightarrow> outbox \<Rightarrow> storage_error + ((nat \<times> bool) \<times> outbox)" where
  "recovery_upload row recovery ob =
    (case find (\<lambda>r. up_idempotency_key r = up_idempotency_key recovery) (ob_rows ob) of
       Some existing \<Rightarrow>
         if (up_endpoint existing, up_payload_hash existing, up_content_type existing)
            \<noteq> (up_endpoint row, up_payload_hash recovery, up_content_type row)
         then Inl (IdempotencyConflictError ''full-resync idempotency key has conflicting content'')
         else Inr ((up_id existing, False), ob)
     | None \<Rightarrow> ebind (insert_upload recovery ob) (\<lambda>(j, ob). Inr ((j, True), ob)))"

text \<open>The rejected row becomes dead and names its replacement.\<close>

definition supersede :: "queue_env \<Rightarrow> string \<Rightarrow> rat \<Rightarrow> nat \<Rightarrow> upload_row \<Rightarrow> upload_row" where
  "supersede env error current j r =
    r\<lparr>up_status := UPLOAD_DEAD, up_next_attempt_at := current, up_lease_token := None,
      up_leased_until := None, up_last_error := Some (clean_error env error 1024),
      up_updated_at := qe_now_text env, up_superseded_by := Some j\<rparr>"

text \<open>The transaction once the leased row and its snapshot are read.\<close>

definition resync_body ::
    "queue_env \<Rightarrow> upload_row \<Rightarrow> string \<Rightarrow> jobj \<Rightarrow> jobj \<Rightarrow> snapshot_row \<Rightarrow> string \<Rightarrow> string \<Rightarrow> string \<Rightarrow> rat \<Rightarrow>
     outbox \<Rightarrow> storage_error + ((nat \<times> bool) \<times> outbox)" where
  "resync_body env row token metadata payload sn scan_id error request_id current ob =
    (let recovery_payload = (if dict_has ''inventory_sync'' payload
           then dict_set ''inventory_sync'' (JObj (full_sync sn)) payload else full_sync sn);
         recovery_metadata = dict_update metadata
           [(''causal_recovery'', JBool True), (''resync_for_upload_id'', JInt (int (up_id row))),
            (''snapshot_hash'', JStr (sn_payload_hash sn))]
     in ebind (lift_py (canonical_json (qe_rt env) (JObj recovery_payload))) (\<lambda>_.
        ebind (lift_py (canonical_json (qe_rt env) (JObj recovery_metadata))) (\<lambda>_.
        ebind (recovery_upload row
            (recovery_row env row (JsonBody (canon (JObj recovery_payload))) recovery_metadata
              (recovery_key (qe_rt env) sn scan_id) request_id current) ob) (\<lambda>((j, created), ob).
        Inr ((j, created), ob\<lparr>ob_rows :=
          update_rows (holds_lease (up_id row) token) (supersede env error current j) (ob_rows ob)\<rparr>)))))"

definition schedule_full_resync ::
    "queue_env \<Rightarrow> (string \<Rightarrow> snapshot_row option) \<Rightarrow> nat \<Rightarrow> string \<Rightarrow> string \<Rightarrow> string \<Rightarrow> rat \<Rightarrow> outbox \<Rightarrow>
     storage_error + ((nat \<times> bool) \<times> outbox)" where
  "schedule_full_resync env snapshot_for i lease_token error request_id current ob =
    ebind (lift_py (clean_identifier ''lease_token'' 256 (JStr lease_token))) (\<lambda>token.
    case find (holds_lease i token) (ob_rows ob) of
      None \<Rightarrow> Inl (StorageError ''upload lease is no longer valid'')
    | Some row \<Rightarrow>
      ebind (resync_source env row) (\<lambda>(metadata, payload, scan_id).
      case snapshot_for scan_id of
        None \<Rightarrow> Inl (StorageError ''full-resync snapshot is no longer available'')
      | Some sn \<Rightarrow>
        resync_body env row token metadata payload sn scan_id error request_id current ob))"

section \<open>Dead letters\<close>

definition optional_metadata_identifier :: "jobj \<Rightarrow> string \<Rightarrow> string option" where
  "optional_metadata_identifier metadata field =
    (case clean_identifier field 256 (jget field metadata) of Inl _ \<Rightarrow> None | Inr s \<Rightarrow> Some s)"

definition requeue_details :: "queue_env \<Rightarrow> upload_row \<Rightarrow> string \<Rightarrow> int \<Rightarrow> jobj" where
  "requeue_details env row safe_reason retry_limit =
    [(''action'', JStr ''requeue''), (''kind'', JStr (up_kind row)),
     (''previous_attempt_count'', JInt (up_attempt_count row)),
     (''previous_error_sha256'', opt_json (map_option (rt_sha256 (qe_rt env)) (up_last_error row))),
     (''reason'', JStr safe_reason), (''retry_limit'', JInt retry_limit)]"

definition requeue_event ::
    "queue_env \<Rightarrow> upload_row \<Rightarrow> jobj \<Rightarrow> string \<Rightarrow> string \<Rightarrow> int \<Rightarrow> string \<Rightarrow> audit_request" where
  "requeue_event env row metadata operator safe_reason retry_limit audit_event_id =
    \<lparr> aq_event_id = audit_event_id, aq_event_type = ''upload.dead_letter_requeued'',
      aq_outcome = ''SUCCESS'', aq_actor = Some operator, aq_resource_type = Some ''upload_queue'',
      aq_resource_id = Some (show_nat (up_id row)),
      aq_scan_id = optional_metadata_identifier metadata ''scan_id'',
      aq_endpoint_id = optional_metadata_identifier metadata ''endpoint_id'',
      aq_authorization_scope_id = None,
      aq_details = requeue_details env row safe_reason retry_limit,
      aq_created_at = qe_now_text env, aq_return_existing = False \<rparr>"

definition operator_recovery :: "string \<Rightarrow> string \<Rightarrow> string \<Rightarrow> string \<Rightarrow> json" where
  "operator_recovery operator audit_event_id safe_reason recorded_at =
    JObj [(''action'', JStr ''requeue''), (''actor'', JStr operator), (''audit_event_id'', JStr audit_event_id),
      (''reason'', JStr safe_reason), (''recorded_at'', JStr recorded_at)]"

definition requeue_row :: "queue_env \<Rightarrow> int \<Rightarrow> rat \<Rightarrow> jobj \<Rightarrow> upload_row \<Rightarrow> upload_row" where
  "requeue_row env retry_limit current metadata r =
    r\<lparr>up_status := UPLOAD_PENDING, up_attempt_count := 0,
      up_max_attempts := retry_limit, up_next_attempt_at := current,
      up_lease_token := None, up_leased_until := None, up_last_error := None,
      up_delivered_at := None, up_metadata := canon (JObj metadata), up_updated_at := qe_now_text env\<rparr>"

text \<open>The transaction, once the arguments are validated.\<close>

definition requeue_body ::
    "queue_env \<Rightarrow> nat \<Rightarrow> string \<Rightarrow> string \<Rightarrow> int option \<Rightarrow> string \<Rightarrow> rat \<Rightarrow> outbox \<Rightarrow>
     storage_error + ((int \<times> string) \<times> outbox)" where
  "requeue_body env i operator safe_reason max_attempts audit_event_id current ob =
    (case row_of i (ob_rows ob) of
       None \<Rightarrow> Inl (StorageError ''upload does not exist'')
     | Some row \<Rightarrow>
       if up_status row \<noteq> UPLOAD_DEAD
       then Inl (StorageError ''only a DEAD upload can be requeued by an operator'')
       else if up_superseded_by row \<noteq> None
       then Inl (StorageError ''upload has a replacement; requeue the superseding upload instead'')
       else (case up_metadata row of
         JObj previous \<Rightarrow>
           let retry_limit = (case max_attempts of None \<Rightarrow> up_max_attempts row | Some m \<Rightarrow> m);
               metadata = dict_set ''operator_recovery''
                 (operator_recovery operator audit_event_id safe_reason (qe_now_text env)) previous
           in ebind (lift_py (canonical_json (qe_rt env) (JObj metadata))) (\<lambda>_.
              ebind (record_audit_event (qe_rt env)
                (requeue_event env row metadata operator safe_reason retry_limit audit_event_id)
                (ob_audit ob)) (\<lambda>(audit_hash, audit).
              Inr ((retry_limit, audit_hash),
                ob\<lparr>ob_audit := audit, ob_rows := update_rows
                  (\<lambda>r. up_id r = i \<and> up_status r = UPLOAD_DEAD \<and> up_superseded_by r = None)
                  (requeue_row env retry_limit current metadata) (ob_rows ob)\<rparr>)))
         | _ \<Rightarrow> Inl (StorageError ''upload metadata is not a JSON object'')))"

definition requeue_dead_upload ::
    "queue_env \<Rightarrow> nat \<Rightarrow> string \<Rightarrow> string \<Rightarrow> int option \<Rightarrow> string \<Rightarrow> rat \<Rightarrow> outbox \<Rightarrow>
     storage_error + ((int \<times> string) \<times> outbox)" where
  "requeue_dead_upload env i actor reason max_attempts audit_event_id current ob =
    ebind (lift_py (clean_identifier ''actor'' 256 (JStr actor))) (\<lambda>operator.
    ebind (lift_py (clean_identifier ''reason'' 512 (JStr reason))) (\<lambda>requested_reason.
    let safe_reason = py_strip (clean_error env requested_reason 512) in
    if safe_reason = [] then Inl (PyErr (ValueError ''reason must not be empty after sanitization''))
    else if (case max_attempts of None \<Rightarrow> False | Some m \<Rightarrow> \<not> (1 \<le> m \<and> m \<le> 100))
    then Inl (PyErr (ValueError ''max_attempts must be between 1 and 100''))
    else requeue_body env i operator safe_reason max_attempts audit_event_id current ob))"

section \<open>Diagnostics and retention\<close>

record queue_counts =
  qc_pending :: nat
  qc_in_flight :: nat
  qc_succeeded :: nat
  qc_dead :: nat

text \<open>Dead letters whose replacement was delivered are not counted.\<close>

definition counted :: "upload_row list \<Rightarrow> upload_row \<Rightarrow> bool" where
  "counted rows r \<longleftrightarrow>
    up_status r \<noteq> UPLOAD_DEAD \<or> status_of (up_superseded_by r) rows \<noteq> Some UPLOAD_SUCCEEDED"

definition queue_stats :: "outbox \<Rightarrow> queue_counts" where
  "queue_stats ob =
    (let count = (\<lambda>st. length (filter (\<lambda>r. counted (ob_rows ob) r \<and> up_status r = st) (ob_rows ob)))
     in \<lparr> qc_pending = count UPLOAD_PENDING, qc_in_flight = count UPLOAD_IN_FLIGHT,
          qc_succeeded = count UPLOAD_SUCCEEDED, qc_dead = count UPLOAD_DEAD \<rparr>)"

text \<open>The row without its payload, and the payload when it is asked for.\<close>

definition get_upload :: "nat \<Rightarrow> bool \<Rightarrow> outbox \<Rightarrow> (upload_row \<times> upload_body option) option" where
  "get_upload i include_payload ob =
    map_option (\<lambda>r. (r\<lparr>up_payload := RawBody []\<rparr>, if include_payload then Some (up_payload r) else None))
      (row_of i (ob_rows ob))"

text \<open>\<open>DELETE\<close> of some identifiers, with the \<open>ON DELETE SET NULL\<close> of the three references.\<close>

definition clear_ref :: "nat list \<Rightarrow> nat option \<Rightarrow> nat option" where
  "clear_ref gone ref = (case ref of None \<Rightarrow> None | Some i \<Rightarrow> if i \<in> set gone then None else Some i)"

definition clear_refs :: "nat list \<Rightarrow> upload_row \<Rightarrow> upload_row" where
  "clear_refs gone r = r\<lparr>up_predecessor := clear_ref gone (up_predecessor r),
     up_superseded_by := clear_ref gone (up_superseded_by r),
     up_resync_for := clear_ref gone (up_resync_for r)\<rparr>"

definition delete_uploads :: "nat list \<Rightarrow> upload_row list \<Rightarrow> upload_row list" where
  "delete_uploads gone rows = map (clear_refs gone) (filter (\<lambda>r. up_id r \<notin> set gone) rows)"

text \<open>A null \<open>delivered_at\<close> compares as unknown; texts compare by code point.\<close>

definition delivered_before :: "string \<Rightarrow> upload_row \<Rightarrow> bool" where
  "delivered_before older_than r \<longleftrightarrow>
    (case up_delivered_at r of None \<Rightarrow> False | Some t \<Rightarrow> t < older_than)"

definition resolved_dead :: "string \<Rightarrow> upload_row list \<Rightarrow> upload_row \<Rightarrow> bool" where
  "resolved_dead older_than rows r \<longleftrightarrow> up_status r = UPLOAD_DEAD \<and>
    (case up_superseded_by r of
       None \<Rightarrow> False
     | Some j \<Rightarrow>
       (case row_of j rows of
          None \<Rightarrow> False
        | Some s \<Rightarrow> up_status s = UPLOAD_SUCCEEDED \<and> delivered_before older_than s))"

definition old_delivery :: "string \<Rightarrow> upload_row list \<Rightarrow> upload_row \<Rightarrow> bool" where
  "old_delivery older_than rows r \<longleftrightarrow> up_status r = UPLOAD_SUCCEEDED \<and> delivered_before older_than r
    \<and> Some (up_id r) \<notin> set (map up_superseded_by rows)"

definition purge_succeeded_uploads ::
    "string \<Rightarrow> int \<Rightarrow> outbox \<Rightarrow> storage_error + (nat \<times> outbox)" where
  "purge_succeeded_uploads older_than limit ob =
    (if \<not> (1 \<le> limit \<and> limit \<le> 100000)
     then Inl (PyErr (ValueError ''limit must be between 1 and 100000''))
     else
       let rows = ob_rows ob;
           resolved = take (nat limit) (map up_id (filter (resolved_dead older_than rows) rows));
           rows' = delete_uploads resolved rows;
           remaining = nat limit - length resolved
       in if remaining = 0 then Inr (length resolved, ob\<lparr>ob_rows := rows'\<rparr>)
          else
            let delivered = take remaining (map up_id (filter (old_delivery older_than rows') rows'))
            in Inr (length resolved + length delivered, ob\<lparr>ob_rows := delete_uploads delivered rows'\<rparr>))"

end
