(* ===== verification/Upload_Invariants.thy ===== *)
theory Upload_Invariants
  imports Upload_Queue
begin

text \<open>
  The state machine of the upload queue: its operations as one step relation, the invariant they
  keep, and what a row keeps for its whole life. Every operation is a pointwise update of the rows,
  the insertion of one pending row, or a purge; the invariant is proved once for each of the three.
\<close>

section \<open>The invariant\<close>

definition active :: "upload_row \<Rightarrow> bool" where
  "active r \<longleftrightarrow> up_status r = UPLOAD_IN_FLIGHT \<or> up_status r = UPLOAD_SUCCEEDED"

text \<open>Counters and lease columns agree with the status; a replaced row is dead.\<close>

definition row_ok :: "upload_row \<Rightarrow> bool" where
  "row_ok r \<longleftrightarrow>
     1 \<le> up_max_attempts r \<and> up_max_attempts r \<le> 100 \<and> 0 \<le> up_attempt_count r \<and> up_attempt_count r \<le> up_max_attempts r
     \<and> (up_status r = UPLOAD_PENDING \<longrightarrow> up_attempt_count r < up_max_attempts r)
     \<and> (up_lease_token r = None \<longleftrightarrow> up_status r \<noteq> UPLOAD_IN_FLIGHT)
     \<and> (up_leased_until r = None \<longleftrightarrow> up_status r \<noteq> UPLOAD_IN_FLIGHT)
     \<and> (up_delivered_at r = None \<longleftrightarrow> up_status r \<noteq> UPLOAD_SUCCEEDED)
     \<and> (up_superseded_by r \<noteq> None \<longrightarrow> up_status r = UPLOAD_DEAD)
     \<and> \<not> legacy_row r
     \<and> (\<forall>p. up_predecessor r = Some p \<longrightarrow> p < up_id r)"

definition row_ids :: "upload_row list \<Rightarrow> nat set" where
  "row_ids rows = up_id ` set rows"

definition refers :: "upload_row list \<Rightarrow> nat option \<Rightarrow> bool" where
  "refers rows ref \<longleftrightarrow> (case ref of None \<Rightarrow> True | Some i \<Rightarrow> i \<in> row_ids rows)"

definition table_ok :: "upload_row list \<Rightarrow> bool" where
  "table_ok rows \<longleftrightarrow> sorted_wrt (<) (map up_id rows) \<and> distinct (map up_idempotency_key rows)
     \<and> (\<forall>r \<in> set rows. row_ok r \<and> refers rows (up_predecessor r) \<and> refers rows (up_superseded_by r)
          \<and> (active r \<longrightarrow> unblocked rows r))"

definition queue_inv :: "runtime \<Rightarrow> outbox \<Rightarrow> bool" where
  "queue_inv rt ob \<longleftrightarrow> table_ok (ob_rows ob) \<and> (\<forall>r \<in> set (ob_rows ob). up_id r \<le> ob_seq ob)
     \<and> verify_audit_chain rt (ob_audit ob)"

lemma table_ok_rowD:
  "table_ok rows \<Longrightarrow> r \<in> set rows \<Longrightarrow> row_ok r \<and> refers rows (up_predecessor r)
     \<and> refers rows (up_superseded_by r) \<and> (active r \<longrightarrow> unblocked rows r)"
  by (simp add: table_ok_def)

lemma table_ok_distinct: "table_ok rows \<Longrightarrow> distinct (map up_id rows)"
  by (simp add: table_ok_def strict_sorted_iff)

lemma row_of_iff:
  "distinct (map up_id rows) \<Longrightarrow> row_of i rows = Some r \<longleftrightarrow> r \<in> set rows \<and> up_id r = i"
  by (induction rows) (auto simp: row_of_def)

lemma row_of_None_iff: "row_of i rows = None \<longleftrightarrow> i \<notin> row_ids rows"
  by (auto simp: row_of_def row_ids_def find_None_iff)

lemma row_of_SomeD: "row_of i rows = Some r \<Longrightarrow> r \<in> set rows \<and> up_id r = i"
  unfolding row_of_def by (drule find_SomeD) simp

lemma row_of_mem: "table_ok rows \<Longrightarrow> r \<in> set rows \<Longrightarrow> row_of (up_id r) rows = Some r"
  by (simp add: row_of_iff table_ok_distinct)

lemma same_row: "table_ok rows \<Longrightarrow> r \<in> set rows \<Longrightarrow> s \<in> set rows \<Longrightarrow> up_id r = up_id s \<Longrightarrow> r = s"
  using row_of_mem by (metis option.inject)

lemma find_distinct: "distinct (map f xs) \<Longrightarrow> x \<in> set xs \<Longrightarrow> find (\<lambda>y. f y = f x) xs = Some x"
  by (induction xs) auto

lemma backfill_id: "table_ok rows \<Longrightarrow> backfill env rows = rows"
proof -
  assume "table_ok rows"
  then have "filter legacy_row rows = []" by (auto simp: filter_empty_conv table_ok_def row_ok_def)
  then show ?thesis by (simp add: backfill_def)
qed

section \<open>Pointwise updates\<close>

text \<open>What no operation changes in a row, and the moves; only with \<open>rv\<close> can a row be replaced.\<close>

definition row_identity ::
    "upload_row \<Rightarrow> nat \<times> string \<times> string \<times> string \<times> upload_body \<times> string \<times> string \<times> string \<times> string \<times> string
      \<times> string option" where
  "row_identity r = (up_id r, up_kind r, up_method r, up_endpoint r, up_payload r, up_payload_hash r,
     up_content_type r, up_idempotency_key r, up_request_id r, up_created_at r, up_causal_group r)"

definition row_moves :: "bool \<Rightarrow> upload_row list \<Rightarrow> upload_row \<Rightarrow> upload_row \<Rightarrow> bool" where
  "row_moves rv rows r r' \<longleftrightarrow> row_identity r' = row_identity r
     \<and> up_predecessor r' = up_predecessor r \<and> up_resync_for r' = up_resync_for r
     \<and> (up_status r = UPLOAD_SUCCEEDED \<longrightarrow> r' = r)
     \<and> (up_superseded_by r \<noteq> None \<longrightarrow> up_superseded_by r' = up_superseded_by r)
     \<and> (\<not> rv \<longrightarrow> up_superseded_by r' = up_superseded_by r)
     \<and> refers rows (up_superseded_by r')
     \<and> (active r' \<and> \<not> active r \<longrightarrow> unblocked rows r)
     \<and> row_ok r'"

definition rows_step :: "bool \<Rightarrow> upload_row list \<Rightarrow> upload_row list \<Rightarrow> bool" where
  "rows_step rv rows rows' \<longleftrightarrow> list_all2 (row_moves rv rows) rows rows'"

lemma row_identityD:
  "row_identity r' = row_identity r \<Longrightarrow> up_id r' = up_id r \<and> up_idempotency_key r' = up_idempotency_key r
    \<and> up_causal_group r' = up_causal_group r \<and> up_kind r' = up_kind r"
  by (simp add: row_identity_def)

lemma row_moves_refl: "table_ok rows \<Longrightarrow> r \<in> set rows \<Longrightarrow> row_moves rv rows r r"
  by (simp add: row_moves_def table_ok_def)

lemma rows_step_refl: "table_ok rows \<Longrightarrow> rows_step rv rows rows"
  by (simp add: rows_step_def list_all2_same row_moves_refl)

lemma rows_step_update:
  assumes "table_ok rows" and "\<And>r. r \<in> set rows \<Longrightarrow> p r \<Longrightarrow> row_moves rv rows r (f r)"
  shows "rows_step rv rows (update_rows p f rows)"
  using assms by (simp add: rows_step_def update_rows_def list.rel_map list_all2_same row_moves_refl)

lemma rows_step_maps:
  assumes "rows_step rv rows rows'"
  shows "map up_id rows' = map up_id rows" "map up_idempotency_key rows' = map up_idempotency_key rows"
proof -
  have "list_all2 (\<lambda>r r'. up_id r' = up_id r \<and> up_idempotency_key r' = up_idempotency_key r) rows rows'"
    using assms by (auto simp: rows_step_def row_moves_def elim!: list_all2_mono dest: row_identityD)
  then show "map up_id rows' = map up_id rows" "map up_idempotency_key rows' = map up_idempotency_key rows"
    by (induction) auto
qed

lemma rows_step_bwd: "rows_step rv rows rows' \<Longrightarrow> r' \<in> set rows' \<Longrightarrow> \<exists>r \<in> set rows. row_moves rv rows r r'"
  by (metis rows_step_def list_all2_conv_all_nth in_set_conv_nth)

lemma rows_step_fwd: "rows_step rv rows rows' \<Longrightarrow> r \<in> set rows \<Longrightarrow> \<exists>r' \<in> set rows'. row_moves rv rows r r'"
  by (metis rows_step_def list_all2_conv_all_nth in_set_conv_nth)

lemma rows_step_ids: "rows_step rv rows rows' \<Longrightarrow> row_ids rows' = row_ids rows"
  by (metis row_ids_def rows_step_maps(1) set_map)

lemma rows_step_refers: "rows_step rv rows rows' \<Longrightarrow> refers rows' = refers rows"
  by (auto simp: refers_def rows_step_ids fun_eq_iff split: option.splits)

lemma rows_step_row_of:
  assumes "table_ok rows" and "rows_step rv rows rows'" and "row_of i rows = Some r"
  shows "\<exists>r'. row_of i rows' = Some r' \<and> row_moves rv rows r r'"
proof -
  have "distinct (map up_id rows')"
    using table_ok_distinct [OF assms(1)] rows_step_maps(1) [OF assms(2)] by simp
  then show ?thesis
    using row_of_SomeD [OF assms(3)] rows_step_fwd [OF assms(2)]
    by (metis row_of_iff row_moves_def row_identityD)
qed

text \<open>A delivered row stays delivered, a replaced row keeps its replacement.\<close>

lemma rows_step_delivered:
  assumes "table_ok rows" and "rows_step rv rows rows'" and "status_of i rows = Some UPLOAD_SUCCEEDED"
  shows "status_of i rows' = Some UPLOAD_SUCCEEDED"
  using assms(3) rows_step_row_of [OF assms(1,2)]
  by (fastforce simp: status_of_def row_moves_def split: option.splits)

lemma rows_step_unblocked:
  assumes "table_ok rows" and "rows_step rv rows rows'" and "unblocked rows r"
    and "up_predecessor r' = up_predecessor r"
  shows "unblocked rows' r'"
proof (cases "up_predecessor r")
  case None
  with assms(4) show ?thesis by (simp add: unblocked_def)
next
  case (Some p)
  with assms(3) obtain pr where pr: "row_of p rows = Some pr" and
    del: "up_status pr = UPLOAD_SUCCEEDED \<or> status_of (up_superseded_by pr) rows = Some UPLOAD_SUCCEEDED"
    by (auto simp: unblocked_def split: option.splits)
  obtain pr' where pr': "row_of p rows' = Some pr'" "row_moves rv rows pr pr'"
    using rows_step_row_of [OF assms(1,2) pr] by blast
  have "up_superseded_by pr' = up_superseded_by pr" if "up_superseded_by pr \<noteq> None"
    using that pr'(2) by (simp add: row_moves_def)
  moreover have "status_of None rows \<noteq> Some UPLOAD_SUCCEEDED" by (simp add: status_of_def)
  ultimately have "up_status pr' = UPLOAD_SUCCEEDED \<or> status_of (up_superseded_by pr') rows' = Some UPLOAD_SUCCEEDED"
    using del rows_step_delivered [OF assms(1,2)] pr'(2) by (metis row_moves_def)
  with Some pr'(1) assms(4) show ?thesis by (simp add: unblocked_def)
qed

lemma rows_step_table_ok:
  assumes ok: "table_ok rows" and st: "rows_step rv rows rows'"
  shows "table_ok rows'"
proof -
  have "row_ok r' \<and> refers rows' (up_predecessor r') \<and> refers rows' (up_superseded_by r')
      \<and> (active r' \<longrightarrow> unblocked rows' r')" if "r' \<in> set rows'" for r'
  proof -
    obtain r where r: "r \<in> set rows" "row_moves rv rows r r'" using rows_step_bwd [OF st] \<open>r' \<in> set rows'\<close> by blast
    have "unblocked rows r" if "active r'"
      using that r table_ok_rowD [OF ok] by (metis row_moves_def)
    moreover have "up_predecessor r' = up_predecessor r" using r(2) by (simp add: row_moves_def)
    ultimately have "active r' \<longrightarrow> unblocked rows' r'" using rows_step_unblocked [OF ok st] by blast
    then show ?thesis
      using r table_ok_rowD [OF ok r(1)] by (simp add: row_moves_def rows_step_refers [OF st])
  qed
  then show ?thesis using ok rows_step_maps [OF st] by (simp add: table_ok_def)
qed

section \<open>Insertion and deletion\<close>

lemma row_of_append: "row_of i rows = Some r \<Longrightarrow> row_of i (rows @ [new]) = Some r"
  by (induction rows) (auto simp: row_of_def split: if_splits)

lemma status_of_append:
  "status_of i rows = Some st \<Longrightarrow> status_of i (rows @ [new]) = Some st"
  by (auto simp: status_of_def row_of_append split: option.splits)

lemma unblocked_append: "unblocked rows r \<Longrightarrow> unblocked (rows @ [new]) r"
  by (auto simp: unblocked_def row_of_append status_of_append split: option.splits)

lemma refers_append: "refers rows ref \<Longrightarrow> refers (rows @ [new]) ref"
  by (auto simp: refers_def row_ids_def split: option.splits)

lemma append_table_ok:
  assumes "table_ok rows" and "\<forall>r \<in> set rows. up_id r < up_id new"
    and "up_idempotency_key new \<notin> set (map up_idempotency_key rows)"
    and "row_ok new" and "\<not> active new"
    and "refers rows (up_predecessor new)" and "up_superseded_by new = None"
  shows "table_ok (rows @ [new])"
  using assms by (auto simp: table_ok_def sorted_wrt_append refers_append unblocked_append)
    (simp add: refers_def)

lemma insert_upload_Inr:
  assumes "insert_upload row ob = Inr (i, ob')"
  shows "i = ob_seq ob + 1 \<and> ob' = ob\<lparr>ob_rows := ob_rows ob @ [row\<lparr>up_id := i\<rparr>], ob_seq := i\<rparr>
    \<and> up_idempotency_key row \<notin> set (map up_idempotency_key (ob_rows ob))"
  using assms by (auto simp: insert_upload_def Let_def split: if_splits)

text \<open>An insertion of a pending row keeps the invariant.\<close>

lemma insert_upload_inv:
  assumes inv: "queue_inv rt ob" and ins: "insert_upload row ob = Inr (i, ob')"
    and "row_ok (row\<lparr>up_id := i\<rparr>)" and "up_status row = UPLOAD_PENDING"
    and "refers (ob_rows ob) (up_predecessor row)"
  shows "queue_inv rt ob'"
proof -
  note eff = insert_upload_Inr [OF ins]
  have "table_ok (ob_rows ob @ [row\<lparr>up_id := i\<rparr>])"
    using inv assms(3-) eff
    by (intro append_table_ok) (auto simp: queue_inv_def active_def row_ok_def le_imp_less_Suc)
  with inv eff show ?thesis by (auto simp: queue_inv_def le_SucI)
qed

lemma clear_refs_simps [simp]:
  "row_identity (clear_refs gone r) = row_identity r" "up_id (clear_refs gone r) = up_id r"
  "up_status (clear_refs gone r) = up_status r" "active (clear_refs gone r) = active r"
  "up_idempotency_key (clear_refs gone r) = up_idempotency_key r"
  "up_causal_group (clear_refs gone r) = up_causal_group r"
  "up_predecessor (clear_refs gone r) = clear_ref gone (up_predecessor r)"
  "up_superseded_by (clear_refs gone r) = clear_ref gone (up_superseded_by r)"
  by (simp_all add: clear_refs_def row_identity_def active_def)

lemma clear_refs_row_ok: "row_ok r \<Longrightarrow> row_ok (clear_refs gone r)"
  by (auto simp: clear_refs_def row_ok_def legacy_row_def clear_ref_def split: option.splits)

lemma row_of_delete:
  "row_of i (delete_uploads gone rows) =
    (if i \<in> set gone then None else map_option (clear_refs gone) (row_of i rows))"
  by (induction rows) (auto simp: row_of_def delete_uploads_def)

lemma clear_ref_None [simp]: "clear_ref gone None = None"
  by (simp add: clear_ref_def)

lemma clear_ref_Some [simp]: "clear_ref gone (Some i) = (if i \<in> set gone then None else Some i)"
  by (simp add: clear_ref_def)

lemma row_ids_delete: "row_ids (delete_uploads gone rows) = row_ids rows - set gone"
  by (simp add: row_ids_def delete_uploads_def image_image) (auto simp: image_iff)

lemma refers_delete: "refers rows ref \<Longrightarrow> refers (delete_uploads gone rows) (clear_ref gone ref)"
  by (auto simp: refers_def row_ids_delete clear_ref_def split: option.splits)

text \<open>Rows that may go: delivered rows that replace no remaining row, dead rows whose replacement was delivered.\<close>

definition settled :: "upload_row list \<Rightarrow> upload_row \<Rightarrow> bool" where
  "settled rows r \<longleftrightarrow>
    up_status r = UPLOAD_SUCCEEDED \<or> status_of (up_superseded_by r) rows = Some UPLOAD_SUCCEEDED"

definition purgeable :: "upload_row list \<Rightarrow> nat list \<Rightarrow> bool" where
  "purgeable rows gone \<longleftrightarrow> (\<forall>r \<in> set rows.
     (up_id r \<in> set gone \<longrightarrow> settled rows r) \<and>
     (\<forall>j \<in> set gone. up_superseded_by r = Some j \<and> status_of (Some j) rows = Some UPLOAD_SUCCEEDED
        \<longrightarrow> up_id r \<in> set gone))"

text \<open>A purge neither blocks nor unblocks a row.\<close>

lemma purge_unblocked:
  assumes ok: "table_ok rows" and pg: "purgeable rows gone" and r: "r \<in> set rows"
    and r': "up_predecessor r' = clear_ref gone (up_predecessor r)"
  shows "unblocked (delete_uploads gone rows) r' \<longleftrightarrow> unblocked rows r"
proof (cases "up_predecessor r")
  case None
  with r' show ?thesis by (simp add: unblocked_def)
next
  case (Some p)
  have "refers rows (Some p)" using table_ok_rowD [OF ok r] Some by simp
  then obtain pr where pr: "row_of p rows = Some pr"
    by (metis option.exhaust refers_def option.simps(5) row_of_None_iff)
  have mem: "pr \<in> set rows" "up_id pr = p" using row_of_SomeD [OF pr] by auto
  show ?thesis
  proof (cases "p \<in> set gone")
    case True
    then have "settled rows pr" using pg mem by (auto simp: purgeable_def)
    with Some True pr r' show ?thesis by (auto simp: unblocked_def settled_def)
  next
    case False
    have "status_of (Some j) rows \<noteq> Some UPLOAD_SUCCEEDED"
      if "up_superseded_by pr = Some j" "j \<in> set gone" for j
      using pg mem False that by (auto simp: purgeable_def)
    then have "status_of (clear_ref gone (up_superseded_by pr)) (delete_uploads gone rows) = Some UPLOAD_SUCCEEDED
        \<longleftrightarrow> status_of (up_superseded_by pr) rows = Some UPLOAD_SUCCEEDED"
      by (auto simp: status_of_def row_of_delete clear_ref_def option.map_comp o_def split: option.splits)
    with Some False pr r' show ?thesis by (simp add: unblocked_def row_of_delete)
  qed
qed

lemma sorted_wrt_map_filter: "sorted_wrt (<) (map f xs) \<Longrightarrow> sorted_wrt (<) (map f (filter p xs))"
  by (induction xs) auto

lemma purge_table_ok:
  assumes ok: "table_ok rows" and pg: "purgeable rows gone"
  shows "table_ok (delete_uploads gone rows)"
proof -
  let ?rows = "delete_uploads gone rows"
  have "row_ok r' \<and> refers ?rows (up_predecessor r') \<and> refers ?rows (up_superseded_by r')
      \<and> (active r' \<longrightarrow> unblocked ?rows r')" if mem: "r' \<in> set ?rows" for r'
  proof -
    obtain r where r: "r \<in> set rows" "up_id r \<notin> set gone"
      and r': "r' = clear_refs gone r"
      using mem unfolding delete_uploads_def set_map set_filter by blast
    note rk = table_ok_rowD [OF ok r(1)]
    have "row_ok r'" using rk by (simp add: r' clear_refs_row_ok)
    moreover have "refers ?rows (up_predecessor r')" "refers ?rows (up_superseded_by r')"
      using rk by (simp_all add: r' refers_delete)
    moreover have "unblocked ?rows r'" if "active r'"
      using rk that purge_unblocked [OF ok pg r(1), of r'] by (simp add: r')
    ultimately show ?thesis by blast
  qed
  moreover have "map up_id ?rows = map up_id (filter (\<lambda>r. up_id r \<notin> set gone) rows)"
    "map up_idempotency_key ?rows = map up_idempotency_key (filter (\<lambda>r. up_id r \<notin> set gone) rows)"
    by (simp_all add: delete_uploads_def)
  ultimately show ?thesis
    using ok by (simp add: table_ok_def sorted_wrt_map_filter distinct_map_filter)
qed

end
