(* ===== verification/Upload_Steps.thy ===== *)
theory Upload_Steps
  imports Upload_Invariants
begin

text \<open>
  The upload queue as a transition system: the effect of every operation, the step relation, the
  invariant and the history of a row by interpretation of the contracts of the prelude, and the
  order of delivery inside a causal group.
\<close>

section \<open>New rows are never legacy rows\<close>

definition kind_char :: "char \<Rightarrow> char" where
  "kind_char c = (let d = if c = CHR ''_'' then CHR ''-'' else c; n = code_point d
     in if 65 \<le> n \<and> n \<le> 90 then char_of (n + 32) else d)"

definition kind_letter :: "char \<Rightarrow> bool" where
  "kind_letter c \<longleftrightarrow> c = CHR ''-'' \<or> (97 \<le> code_point c \<and> code_point c \<le> 122)"

lemma kind_letter_code: "kind_letter c \<Longrightarrow> c \<noteq> CHR ''_'' \<and> (code_point c = 45 \<or> (97 \<le> code_point c \<and> code_point c \<le> 122))"
  by (auto simp: kind_letter_def code_point_def)

lemma casefold_kind_char:
  assumes "kind_letter (kind_char c)"
  shows "replace_char (CHR ''_'') ''-'' (casefold_char c) = [kind_char c] \<and> \<not> is_space c"
proof (cases "c = CHR ''_''")
  case True
  then show ?thesis by (simp add: kind_char_def casefold_char_def replace_char_def is_space_def code_point_def)
next
  case False
  show ?thesis
  proof (cases "65 \<le> code_point c \<and> code_point c \<le> 90")
    case True
    with False assms have "kind_char c = char_of (code_point c + 32)" by (simp add: kind_char_def Let_def)
    with True kind_letter_code [OF assms] show ?thesis
      by (simp add: casefold_char_def Let_def replace_char_def is_space_def)
  next
    case upper: False
    with False have "kind_char c = c" by (auto simp: kind_char_def Let_def)
    with upper False kind_letter_code [OF assms] show ?thesis
      by (auto simp: casefold_char_def Let_def replace_char_def is_space_def)
  qed
qed

lemma sql_lower_kind: "sql_lower (replace_char (CHR ''_'') ''-'' k) = map kind_char k"
  by (induction k) (auto simp: sql_lower_def replace_char_def kind_char_def Let_def)

lemma replace_char_concat: "replace_char c t (concat (map f k)) = concat (map (\<lambda>x. replace_char c t (f x)) k)"
  by (induction k) (auto simp: replace_char_def)

lemma py_strip_id: "\<forall>c \<in> set k. \<not> is_space c \<Longrightarrow> py_strip k = k"
proof -
  have id: "dropWhile is_space xs = xs" if "\<forall>c \<in> set xs. \<not> is_space c" for xs
    using that by (cases xs) auto
  show "\<forall>c \<in> set k. \<not> is_space c \<Longrightarrow> py_strip k = k" using id [of k] id [of "rev k"] by (simp add: py_strip_def)
qed

lemma causal_kinds_letters: "\<forall>w \<in> set causal_upload_kinds. \<forall>c \<in> set w. kind_letter c"
  by code_simp

lemma legacy_kind_normalized:
  assumes "sql_lower (replace_char (CHR ''_'') ''-'' k) \<in> set causal_upload_kinds"
  shows "normalized_kind k \<in> set causal_upload_kinds"
proof -
  have "\<forall>c \<in> set k. kind_letter (kind_char c)"
    using assms causal_kinds_letters by (auto simp: sql_lower_kind)
  then have letters: "\<forall>c \<in> set k. replace_char (CHR ''_'') ''-'' (casefold_char c) = [kind_char c] \<and> \<not> is_space c"
    using casefold_kind_char by blast
  then have "py_strip k = k" by (simp add: py_strip_id)
  moreover have "concat (map (\<lambda>c. replace_char (CHR ''_'') ''-'' (casefold_char c)) k) = map kind_char k"
    using letters by (induction k) auto
  ultimately show ?thesis using assms by (simp add: normalized_kind_def py_casefold_def replace_char_concat sql_lower_kind)
qed

lemma causal_group_not_legacy:
  "up_causal_group r = causal_group env (up_kind r) m b \<Longrightarrow> \<not> legacy_row r"
  using legacy_kind_normalized [of "up_kind r"]
  by (auto simp: legacy_row_def causal_group_def Let_def split: if_splits option.splits)

section \<open>Effects\<close>

text \<open>An enqueue finds an earlier upload or inserts a pending row.\<close>

definition group_latest :: "string option \<Rightarrow> outbox \<Rightarrow> nat option" where
  "group_latest causal ob = (case causal of None \<Rightarrow> None
     | Some g \<Rightarrow> latest_in_group g (ob_seq ob + 1) (ob_rows ob))"

definition enqueue_predecessor :: "queue_env \<Rightarrow> enqueue_request \<Rightarrow> outbox \<Rightarrow> nat option" where
  "enqueue_predecessor env q ob = group_latest (causal_group env (nq_kind q) (nq_metadata q) (nq_payload q)) ob"

lemma enqueue_effect:
  assumes "table_ok (ob_rows ob)" and "enqueue_upload env request ob = Inr ((i, created), ob')"
  shows "\<exists>q. clean_request (qe_rt env) request = Inr q \<and>
    ((\<not> created \<and> ob' = ob \<and> (\<exists>r \<in> set (ob_rows ob). up_id r = i \<and> up_idempotency_key r = nq_idempotency_key q
        \<and> up_payload_hash r = body_hash env (nq_payload q) \<and> up_kind r = nq_kind q \<and> up_endpoint r = nq_endpoint q))
     \<or> (created \<and> insert_upload (new_upload_row env q (causal_group env (nq_kind q) (nq_metadata q) (nq_payload q))
            (enqueue_predecessor env q ob)) ob = Inr (i, ob')))"
proof -
  have same: "ob\<lparr>ob_rows := backfill env (ob_rows ob)\<rparr> = ob" by (simp add: backfill_id [OF assms(1)])
  obtain q where q: "clean_request (qe_rt env) request = Inr q"
    using assms(2) by (auto simp: enqueue_upload_def ebind_Inr_iff)
  show ?thesis
  proof (cases "find (\<lambda>r. up_idempotency_key r = nq_idempotency_key q) (ob_rows ob)")
    case None
    with assms(2) q show ?thesis
      by (auto simp: enqueue_upload_def same Let_def ebind_Inr_iff enqueue_predecessor_def group_latest_def
        backfill_id [OF assms(1)] cong: option.case_cong)
  next
    case (Some r)
    with assms(2) q find_SomeD [OF Some] show ?thesis
      by (auto simp: enqueue_upload_def Let_def backfill_id [OF assms(1)] split: if_splits)
  qed
qed

lemma clean_request_attempts:
  "clean_request rt request = Inr q \<Longrightarrow> 1 \<le> nq_max_attempts q \<and> nq_max_attempts q \<le> 100"
  by (auto simp: clean_request_def ebind_Inr_iff split: if_splits)

lemma latest_in_group_Some:
  assumes "latest_in_group g bound rows = Some p"
  shows "\<exists>r \<in> set rows. up_id r = p \<and> p < bound \<and> up_causal_group r = Some g"
proof -
  obtain r where "find (\<lambda>r. up_causal_group r = Some g \<and> up_id r < bound) (rev rows) = Some r" and "p = up_id r"
    using assms by (auto simp: latest_in_group_def)
  then show ?thesis using find_SomeD by fastforce
qed

lemma new_upload_row_simps [simp]:
  "up_status (new_upload_row env q c p) = UPLOAD_PENDING"
  "up_predecessor (new_upload_row env q c p) = p"
  "up_causal_group (new_upload_row env q c p) = c"
  "up_superseded_by (new_upload_row env q c p) = None"
  "up_idempotency_key (new_upload_row env q c p) = nq_idempotency_key q"
  by (simp_all add: new_upload_row_def)

lemma enqueue_predecessor_ok:
  assumes "enqueue_predecessor env q ob = Some p"
  shows "p \<le> ob_seq ob \<and> p \<in> row_ids (ob_rows ob)"
  using assms latest_in_group_Some [of _ "ob_seq ob + 1" "ob_rows ob" p]
  by (fastforce simp: enqueue_predecessor_def group_latest_def row_ids_def split: option.splits)

lemma new_upload_row_ok:
  assumes "clean_request rt request = Inr q"
  shows "row_ok (new_upload_row env q (causal_group env (nq_kind q) (nq_metadata q) (nq_payload q))
      (enqueue_predecessor env q ob)\<lparr>up_id := ob_seq ob + 1\<rparr>)" (is "row_ok ?r")
proof -
  have "\<not> legacy_row ?r" by (rule causal_group_not_legacy) (simp add: new_upload_row_def)
  moreover have "p < ob_seq ob + 1" if "enqueue_predecessor env q ob = Some p" for p
    using enqueue_predecessor_ok [OF that] by simp
  ultimately show ?thesis
    using clean_request_attempts [OF assms] by (auto simp: row_ok_def new_upload_row_def split: option.split)
qed

text \<open>The other operations update the rows pointwise, in a few moves.\<close>

lemmas move_defs = row_moves_def row_identity_def row_ok_def legacy_row_def active_def

lemma refers_None [simp]: "refers rows None"
  by (simp add: refers_def)

lemma table_ok_row_ok: "table_ok rows \<Longrightarrow> r \<in> set rows \<Longrightarrow> row_ok r \<and> refers rows (up_superseded_by r)"
  by (simp add: table_ok_def)

lemma rows_steps_table_ok: "(rows_step rv)\<^sup>*\<^sup>* rows rows' \<Longrightarrow> table_ok rows \<Longrightarrow> table_ok rows'"
  by (induction rule: rtranclp_induct) (auto intro: rows_step_table_ok)

text \<open>The lease of a row ends without a delivery.\<close>

lemma release_moves:
  assumes ok: "table_ok rows" and r: "r \<in> set rows" "up_status r = UPLOAD_IN_FLIGHT"
    and same: "row_identity r' = row_identity r" "up_predecessor r' = up_predecessor r"
      "up_resync_for r' = up_resync_for r" "up_delivered_at r' = up_delivered_at r"
      "up_attempt_count r' = up_attempt_count r" "up_max_attempts r' = up_max_attempts r"
    and free: "up_lease_token r' = None" "up_leased_until r' = None"
    and st: "up_status r' = UPLOAD_DEAD \<or>
      (up_status r' = UPLOAD_PENDING \<and> up_attempt_count r < up_max_attempts r \<and> up_superseded_by r' = None)"
    and sup: "refers rows (up_superseded_by r')" "rv \<or> up_superseded_by r' = None"
  shows "row_moves rv rows r r'"
  using table_ok_row_ok [OF ok r(1)] assms(2-) by (auto simp: move_defs)

lemma expire_leases_moves:
  assumes "table_ok rows"
  shows "(rows_step rv)\<^sup>*\<^sup>* rows (expire_leases env current rows)"
proof -
  define lapsed where "lapsed r \<longleftrightarrow> up_status r = UPLOAD_IN_FLIGHT
           \<and> (case up_leased_until r of None \<Rightarrow> False | Some t \<Rightarrow> t \<le> current)" for r :: upload_row
  define d where "d r = r\<lparr>up_status := UPLOAD_DEAD, up_lease_token := None, up_leased_until := None,
                  up_last_error := (case up_last_error r of
                     None \<Rightarrow> Some ''upload lease expired at retry limit'' | Some e \<Rightarrow> Some e),
                  up_updated_at := qe_now_text env\<rparr>" for r :: upload_row
  define p where "p r = r\<lparr>up_status := UPLOAD_PENDING, up_lease_token := None, up_leased_until := None,
                 up_next_attempt_at := current, up_updated_at := qe_now_text env\<rparr>" for r :: upload_row
  define rows1 where "rows1 = update_rows (\<lambda>r. lapsed r \<and> up_max_attempts r \<le> up_attempt_count r) d rows"
  have unreplaced: "up_superseded_by r = None" if "table_ok rs" "r \<in> set rs" "lapsed r" for r rs
    using table_ok_row_ok [OF that(1,2)] that(3) by (auto simp: row_ok_def lapsed_def)
  have st1: "rows_step rv rows rows1"
    unfolding rows1_def
  proof (rule rows_step_update [OF assms])
    fix r assume "r \<in> set rows" "lapsed r \<and> up_max_attempts r \<le> up_attempt_count r"
    with unreplaced [OF assms] show "row_moves rv rows r (d r)"
      by (intro release_moves assms) (auto simp: lapsed_def d_def row_identity_def)
  qed
  note ok1 = rows_step_table_ok [OF assms st1]
  have "rows_step rv rows1 (update_rows (\<lambda>r. lapsed r \<and> up_attempt_count r < up_max_attempts r) p rows1)"
  proof (rule rows_step_update [OF ok1])
    fix r assume "r \<in> set rows1" "lapsed r \<and> up_attempt_count r < up_max_attempts r"
    with unreplaced [OF ok1] show "row_moves rv rows1 r (p r)"
      by (intro release_moves ok1) (auto simp: lapsed_def p_def row_identity_def)
  qed
  with st1 show ?thesis
    by (simp add: expire_leases_def lapsed_def [abs_def] d_def [abs_def] p_def [abs_def] rows1_def Let_def)
qed

lemma take_lease_moves:
  assumes ok: "table_ok rows" and x: "x \<in> set rows" "up_status x = UPLOAD_PENDING" "unblocked rows x"
  shows "row_moves rv rows x (take_lease env until n (up_attempt_count x + 1) x)"
  using table_ok_row_ok [OF ok x(1)] x(2,3) by (simp add: take_lease_def move_defs)

lemma lease_rows_moves:
  "table_ok rows \<Longrightarrow> distinct (map up_id sel) \<Longrightarrow>
    \<forall>r \<in> set sel. r \<in> set rows \<and> up_status r = UPLOAD_PENDING \<and> unblocked rows r \<Longrightarrow>
    lease_rows env until n sel rows = (leases, rows') \<Longrightarrow> (rows_step rv)\<^sup>*\<^sup>* rows rows'"
proof (induction sel arbitrary: n rows leases)
  case Nil
  then show ?case by simp
next
  case (Cons r sel)
  let ?m = "\<lambda>x. up_id x = up_id r \<and> up_status x = UPLOAD_PENDING"
  let ?l = "take_lease env until n (up_attempt_count r + 1)"
  let ?rows = "update_rows ?m ?l rows"
  have r: "r \<in> set rows" "up_status r = UPLOAD_PENDING" "unblocked rows r" using Cons.prems(3) by simp_all
  have only: "x = r" if "x \<in> set rows" "up_id x = up_id r" for x
    using same_row [OF Cons.prems(1)] that r(1) by blast
  have st: "rows_step rv rows ?rows"
    by (rule rows_step_update [OF Cons.prems(1)]) (use only take_lease_moves [OF Cons.prems(1) r] in blast)
  have "s \<in> set ?rows \<and> up_status s = UPLOAD_PENDING \<and> unblocked ?rows s" if "s \<in> set sel" for s
  proof -
    have "up_id s \<noteq> up_id r" using that Cons.prems(2) by (simp add: image_iff) metis
    then have "s \<in> set ?rows" using that Cons.prems(3) by (force simp: update_rows_def)
    then show ?thesis
      using that Cons.prems(3) rows_step_unblocked [OF Cons.prems(1) st] by auto
  qed
  moreover obtain leases' where "lease_rows env until (n + 1) sel ?rows = (leases', rows')"
    using Cons.prems(4) by (auto simp: Let_def split: prod.splits if_splits)
  ultimately have "(rows_step rv)\<^sup>*\<^sup>* ?rows rows'"
    using Cons.IH rows_step_table_ok [OF Cons.prems(1) st] Cons.prems(2) by auto
  with st show ?case by (rule converse_rtranclp_into_rtranclp)
qed

lemma claim_moves:
  assumes ok: "table_ok (ob_rows ob)" and "claim_uploads env limit secs current ob = Inr (leases, ob')"
  shows "\<exists>rows'. ob' = ob\<lparr>ob_rows := rows'\<rparr> \<and> (rows_step rv)\<^sup>*\<^sup>* (ob_rows ob) rows'"
proof -
  let ?rows = "expire_leases env current (ob_rows ob)"
  let ?sel = "take (nat limit) (sort_key up_next_attempt_at (filter (claimable current ?rows) ?rows))"
  obtain rows' where l: "lease_rows env (current + secs) 0 ?sel ?rows = (leases, rows')"
    and ob': "ob' = ob\<lparr>ob_rows := rows'\<rparr>"
    using assms(2) by (auto simp: claim_uploads_def Let_def backfill_id [OF ok] split: if_splits prod.splits)
  note st = expire_leases_moves [OF ok]
  note ok' = rows_steps_table_ok [OF st ok]
  have "distinct (map up_id ?sel)"
    using table_ok_distinct [OF ok'] by (auto simp: take_map [symmetric] distinct_map_sort_key distinct_map_filter)
  moreover have "\<forall>r \<in> set ?sel. r \<in> set ?rows \<and> up_status r = UPLOAD_PENDING \<and> unblocked ?rows r"
    by (auto simp: claimable_def dest!: in_set_takeD)
  ultimately show ?thesis
    using lease_rows_moves [OF ok' _ _ l] ob' rtranclp_trans [OF st] by blast
qed

lemma succeeded_moves:
  assumes ok: "table_ok (ob_rows ob)" and "mark_upload_succeeded env i token now ob = Inr (b, ob')"
  shows "\<exists>rows'. ob' = ob\<lparr>ob_rows := rows'\<rparr> \<and> rows_step rv (ob_rows ob) rows'"
proof -
  define f where "f r = r\<lparr>up_status := UPLOAD_SUCCEEDED, up_lease_token := None, up_leased_until := None,
               up_last_error := None, up_delivered_at := Some now, up_updated_at := now\<rparr>" for r :: upload_row
  have "row_moves rv (ob_rows ob) r (f r)" if "r \<in> set (ob_rows ob)" "holds_lease i t r" for r t
    using table_ok_rowD [OF ok that(1)] that(2) by (auto simp: f_def holds_lease_def move_defs)
  then have "rows_step rv (ob_rows ob) (update_rows (holds_lease i t) f (ob_rows ob))" for t
    by (rule rows_step_update [OF ok])
  with assms(2) show ?thesis
    by (auto simp: mark_upload_succeeded_def ebind_Inr_iff f_def [abs_def])
qed

lemma lease_holder:
  assumes ok: "table_ok rows" and "find (holds_lease i token) rows = Some row"
  shows "row \<in> set rows" "holds_lease i token row" "r \<in> set rows \<Longrightarrow> up_id r = i \<Longrightarrow> r = row"
proof -
  show mem: "row \<in> set rows" "holds_lease i token row" using find_SomeD [OF assms(2)] by auto
  show "r \<in> set rows \<Longrightarrow> up_id r = i \<Longrightarrow> r = row"
    using row_of_mem [OF ok] mem by (metis holds_lease_def option.inject)
qed

lemma mark_upload_failed_Inr:
  assumes "mark_upload_failed env i token error permanent retry_after policy draw current ob = Inr (st, ob')"
  shows "\<exists>t row next_attempt. find (holds_lease i t) (ob_rows ob) = Some row
    \<and> st = (if permanent \<or> up_max_attempts row \<le> up_attempt_count row then UPLOAD_DEAD else UPLOAD_PENDING)
    \<and> ob' = ob\<lparr>ob_rows := update_rows (\<lambda>r. up_id r = i)
             (\<lambda>r. r\<lparr>up_status := st, up_next_attempt_at := next_attempt, up_lease_token := None,
                    up_leased_until := None, up_last_error := Some (clean_error env error 1024),
                    up_updated_at := qe_now_text env\<rparr>) (ob_rows ob)\<rparr>"
proof -
  obtain t where t: "clean_identifier ''lease_token'' 256 (JStr token) = Inr t"
    using assms by (auto simp: mark_upload_failed_def ebind_Inr_iff)
  show ?thesis
  proof (cases "find (holds_lease i t) (ob_rows ob)")
    case None
    with t assms show ?thesis by (simp add: mark_upload_failed_def lift_py_def)
  next
    case (Some row)
    from assms show ?thesis
      unfolding mark_upload_failed_def t lift_py_def sum.case ebind_simps Some option.case Let_def ebind_Inr_iff
      using Some by blast
  qed
qed

lemma failed_moves:
  assumes ok: "table_ok (ob_rows ob)"
    and "mark_upload_failed env i token error permanent retry_after policy draw current ob = Inr (st, ob')"
  shows "\<exists>rows'. ob' = ob\<lparr>ob_rows := rows'\<rparr> \<and> rows_step rv (ob_rows ob) rows'"
proof -
  obtain t row next_attempt where row: "find (holds_lease i t) (ob_rows ob) = Some row"
    and st: "st = (if permanent \<or> up_max_attempts row \<le> up_attempt_count row then UPLOAD_DEAD else UPLOAD_PENDING)"
    and ob': "ob' = ob\<lparr>ob_rows := update_rows (\<lambda>r. up_id r = i)
             (\<lambda>r. r\<lparr>up_status := st, up_next_attempt_at := next_attempt, up_lease_token := None,
                    up_leased_until := None, up_last_error := Some (clean_error env error 1024),
                    up_updated_at := qe_now_text env\<rparr>) (ob_rows ob)\<rparr>"
    using mark_upload_failed_Inr [OF assms(2)] by blast
  note holder = lease_holder [OF ok row]
  have "up_superseded_by row = None"
    using table_ok_row_ok [OF ok holder(1)] holder(2) by (auto simp: row_ok_def holds_lease_def)
  then have mv: "row_moves rv (ob_rows ob) row (row\<lparr>up_status := st, up_next_attempt_at := next_attempt,
                    up_lease_token := None, up_leased_until := None,
                    up_last_error := Some (clean_error env error 1024), up_updated_at := qe_now_text env\<rparr>)"
    using holder(2) st by (intro release_moves ok holder(1)) (auto simp: holds_lease_def row_identity_def)
  have "rows_step rv (ob_rows ob) (update_rows (\<lambda>r. up_id r = i)
             (\<lambda>r. r\<lparr>up_status := st, up_next_attempt_at := next_attempt, up_lease_token := None,
                    up_leased_until := None, up_last_error := Some (clean_error env error 1024),
                    up_updated_at := qe_now_text env\<rparr>) (ob_rows ob))"
    by (rule rows_step_update [OF ok]) (use mv holder(3) in blast)
  then show ?thesis unfolding ob' by auto
qed

text \<open>A full resynchronisation inserts a recovery row, or finds it, then replaces the leased row.\<close>

lemma recovery_row_simps [simp]:
  "up_status (recovery_row env row body m key rid t) = UPLOAD_PENDING"
  "up_predecessor (recovery_row env row body m key rid t) = up_predecessor row"
  "up_causal_group (recovery_row env row body m key rid t) = up_causal_group row"
  "up_idempotency_key (recovery_row env row body m key rid t) = key"
  by (simp_all add: recovery_row_def)

lemma recovery_kind: "sql_lower (replace_char (CHR ''_'') ''-'' ''inventory_full_resync'') \<notin> set causal_upload_kinds"
  by code_simp

lemma recovery_row_ok:
  assumes "row_ok row" and "up_id row < j"
  shows "row_ok (recovery_row env row body m key rid t\<lparr>up_id := j\<rparr>)"
  using assms recovery_kind by (auto simp: row_ok_def recovery_row_def legacy_row_def)

lemma resync_effect:
  assumes "schedule_full_resync env snapshot_for i token error rid current ob = Inr ((j, created), ob')"
  shows "\<exists>t row body m key ob1. find (holds_lease i t) (ob_rows ob) = Some row
    \<and> ((ob1 = ob \<and> j \<in> row_ids (ob_rows ob)) \<or> insert_upload (recovery_row env row body m key rid current) ob = Inr (j, ob1))
    \<and> ob' = ob1\<lparr>ob_rows := update_rows (holds_lease (up_id row) t) (supersede env error current j) (ob_rows ob1)\<rparr>"
proof -
  obtain t where t: "lift_py (clean_identifier ''lease_token'' 256 (JStr token)) = Inr t"
    using assms by (auto simp: schedule_full_resync_def ebind_Inr_iff)
  obtain row where row: "find (holds_lease i t) (ob_rows ob) = Some row"
    using assms by (cases "find (holds_lease i t) (ob_rows ob)") (simp_all add: schedule_full_resync_def t)
  obtain m p sid where src: "resync_source env row = Inr (m, p, sid)"
    using assms by (auto simp: schedule_full_resync_def t row ebind_Inr_iff)
  obtain sn where sn: "snapshot_for sid = Some sn"
    using assms by (cases "snapshot_for sid") (simp_all add: schedule_full_resync_def t row src)
  have body: "resync_body env row t m p sn sid error rid current ob = Inr ((j, created), ob')"
    using assms by (simp add: schedule_full_resync_def t row src sn)
  then obtain b md key ob1 where
      rec: "recovery_upload row (recovery_row env row b md key rid current) ob = Inr ((j, created), ob1)"
    and ob': "ob' = ob1\<lparr>ob_rows := update_rows (holds_lease (up_id row) t) (supersede env error current j) (ob_rows ob1)\<rparr>"
    unfolding resync_body_def Let_def ebind_Inr_iff by auto
  have "(ob1 = ob \<and> j \<in> row_ids (ob_rows ob)) \<or> insert_upload (recovery_row env row b md key rid current) ob = Inr (j, ob1)"
  proof (cases "find (\<lambda>r. up_idempotency_key r = key) (ob_rows ob)")
    case None
    with rec show ?thesis by (auto simp: recovery_upload_def ebind_Inr_iff)
  next
    case (Some e)
    with rec find_SomeD [OF Some] show ?thesis by (auto simp: recovery_upload_def row_ids_def split: if_splits)
  qed
  with row ob' show ?thesis by blast
qed

lemma supersede_moves:
  assumes ok: "table_ok rows" and "j \<in> row_ids rows" and rv
  shows "rows_step rv rows (update_rows (holds_lease i t) (supersede env error current j) rows)"
proof (rule rows_step_update [OF ok])
  fix r assume "r \<in> set rows" "holds_lease i t r"
  with assms(2,3) show "row_moves rv rows r (supersede env error current j r)"
    by (intro release_moves ok) (auto simp: supersede_def row_identity_def holds_lease_def refers_def)
qed

text \<open>An operator requeue resets one dead, unreplaced row and records it in the audit log.\<close>

lemma requeue_body_Inr:
  assumes "requeue_body env i operator reason max_attempts event_id current ob = Inr (res, ob')"
  shows "\<exists>row limit metadata h audit. row_of i (ob_rows ob) = Some row \<and> up_status row = UPLOAD_DEAD
    \<and> up_superseded_by row = None \<and> limit = (case max_attempts of None \<Rightarrow> up_max_attempts row | Some m \<Rightarrow> m)
    \<and> record_audit_event (qe_rt env) (requeue_event env row metadata operator reason limit event_id) (ob_audit ob) = Inr (h, audit)
    \<and> res = (limit, h)
    \<and> ob' = ob\<lparr>ob_audit := audit, ob_rows := update_rows
         (\<lambda>r. up_id r = i \<and> up_status r = UPLOAD_DEAD \<and> up_superseded_by r = None)
         (requeue_row env limit current metadata) (ob_rows ob)\<rparr>"
proof -
  obtain row where row: "row_of i (ob_rows ob) = Some row" "up_status row = UPLOAD_DEAD" "up_superseded_by row = None"
    using assms by (auto simp: requeue_body_def split: option.splits if_splits)
  obtain prev where prev: "up_metadata row = JObj prev"
    using assms row by (auto simp: requeue_body_def split: json.splits)
  define limit where "limit = (case max_attempts of None \<Rightarrow> up_max_attempts row | Some m \<Rightarrow> m)"
  define metadata where "metadata = dict_set ''operator_recovery''
    (operator_recovery operator event_id reason (qe_now_text env)) prev"
  have "ebind (lift_py (canonical_json (qe_rt env) (JObj metadata))) (\<lambda>_.
      ebind (record_audit_event (qe_rt env) (requeue_event env row metadata operator reason limit event_id) (ob_audit ob))
        (\<lambda>(audit_hash, audit). Inr ((limit, audit_hash),
          ob\<lparr>ob_audit := audit, ob_rows := update_rows
            (\<lambda>r. up_id r = i \<and> up_status r = UPLOAD_DEAD \<and> up_superseded_by r = None)
            (requeue_row env limit current metadata) (ob_rows ob)\<rparr>))) = Inr (res, ob')"
    using assms by (simp add: requeue_body_def row prev Let_def limit_def metadata_def)
  then show ?thesis using row limit_def by (auto simp: ebind_Inr_iff)
qed

lemma requeue_effect:
  assumes "requeue_dead_upload env i actor reason max_attempts event_id current ob = Inr (res, ob')"
  shows "\<exists>operator safe_reason. requeue_body env i operator safe_reason max_attempts event_id current ob = Inr (res, ob')
    \<and> (\<forall>m. max_attempts = Some m \<longrightarrow> 1 \<le> m \<and> m \<le> 100)"
  using assms by (auto simp: requeue_dead_upload_def ebind_Inr_iff Let_def split: if_splits option.splits)

lemma requeue_moves:
  assumes ok: "table_ok (ob_rows ob)"
    and "requeue_dead_upload env i actor reason max_attempts event_id current ob = Inr (res, ob')"
  shows "\<exists>rows' q h audit. ob' = ob\<lparr>ob_rows := rows', ob_audit := audit\<rparr> \<and> rows_step rv (ob_rows ob) rows'
    \<and> record_audit_event (qe_rt env) q (ob_audit ob) = Inr (h, audit)"
proof -
  obtain op rs where body: "requeue_body env i op rs max_attempts event_id current ob = Inr (res, ob')"
    and lim: "\<forall>m. max_attempts = Some m \<longrightarrow> 1 \<le> m \<and> m \<le> 100"
    using requeue_effect [OF assms(2)] by blast
  obtain row limit metadata h audit where row: "row_of i (ob_rows ob) = Some row"
    and limit: "limit = (case max_attempts of None \<Rightarrow> up_max_attempts row | Some m \<Rightarrow> m)"
    and audit: "record_audit_event (qe_rt env) (requeue_event env row metadata op rs limit event_id) (ob_audit ob) = Inr (h, audit)"
    and ob': "ob' = ob\<lparr>ob_audit := audit, ob_rows := update_rows
         (\<lambda>r. up_id r = i \<and> up_status r = UPLOAD_DEAD \<and> up_superseded_by r = None)
         (requeue_row env limit current metadata) (ob_rows ob)\<rparr>"
    using requeue_body_Inr [OF body] by blast
  have mem: "row \<in> set (ob_rows ob)" using row_of_SomeD [OF row] by simp
  have bound: "1 \<le> limit" "limit \<le> 100"
    using lim table_ok_row_ok [OF ok mem] by (auto simp: limit row_ok_def split: option.splits)
  have "rows_step rv (ob_rows ob) (update_rows (\<lambda>r. up_id r = i \<and> up_status r = UPLOAD_DEAD \<and> up_superseded_by r = None)
         (requeue_row env limit current metadata) (ob_rows ob))"
  proof (rule rows_step_update [OF ok])
    fix r assume r: "r \<in> set (ob_rows ob)" "up_id r = i \<and> up_status r = UPLOAD_DEAD \<and> up_superseded_by r = None"
    show "row_moves rv (ob_rows ob) r (requeue_row env limit current metadata r)"
      using table_ok_row_ok [OF ok r(1)] r(2) bound by (simp add: requeue_row_def move_defs)
  qed
  with audit ob' show ?thesis by (intro exI conjI) auto
qed

text \<open>A purge is one or two deletions of purgeable rows.\<close>

lemma resolved_purgeable:
  assumes ok: "table_ok rows"
  shows "purgeable rows (take n (map up_id (filter (resolved_dead older_than rows) rows)))"
    (is "purgeable rows ?gone")
proof -
  have resolved: "\<exists>r \<in> set rows. up_id r = i \<and> resolved_dead older_than rows r" if "i \<in> set ?gone" for i
    using that by (auto dest!: in_set_takeD)
  have "settled rows r" if r: "r \<in> set rows" "up_id r \<in> set ?gone" for r
  proof -
    have "resolved_dead older_than rows r"
      using resolved [OF r(2)] row_of_mem [OF ok] r(1) by (metis option.inject)
    then show ?thesis by (auto simp: resolved_dead_def settled_def status_of_def split: option.splits)
  qed
  moreover have "status_of (Some j) rows \<noteq> Some UPLOAD_SUCCEEDED" if "j \<in> set ?gone" for j
    using resolved [OF that] row_of_mem [OF ok] by (auto simp: resolved_dead_def status_of_def)
  ultimately show ?thesis by (auto simp: purgeable_def)
qed

lemma delivered_purgeable:
  assumes ok: "table_ok rows"
  shows "purgeable rows (take n (map up_id (filter (old_delivery older_than rows) rows)))"
    (is "purgeable rows ?gone")
proof -
  have old: "\<exists>r \<in> set rows. up_id r = i \<and> old_delivery older_than rows r" if "i \<in> set ?gone" for i
    using that by (auto dest!: in_set_takeD)
  have "settled rows r" if r: "r \<in> set rows" "up_id r \<in> set ?gone" for r
  proof -
    have "old_delivery older_than rows r"
      using old [OF r(2)] row_of_mem [OF ok] r(1) by (metis option.inject)
    then show ?thesis by (simp add: old_delivery_def settled_def)
  qed
  moreover have "up_superseded_by r \<noteq> Some j" if "r \<in> set rows" "j \<in> set ?gone" for r j
    using old [OF that(2)] that(1) by (auto simp: old_delivery_def image_iff)
  ultimately show ?thesis by (auto simp: purgeable_def)
qed

lemma purge_effect:
  assumes ok: "table_ok (ob_rows ob)" and "purge_succeeded_uploads older_than limit ob = Inr (n, ob')"
  shows "\<exists>gone. purgeable (ob_rows ob) gone \<and>
    (ob' = ob\<lparr>ob_rows := delete_uploads gone (ob_rows ob)\<rparr> \<or>
     (\<exists>gone'. purgeable (delete_uploads gone (ob_rows ob)) gone'
        \<and> ob' = ob\<lparr>ob_rows := delete_uploads gone' (delete_uploads gone (ob_rows ob))\<rparr>))"
proof -
  let ?gone = "take (nat limit) (map up_id (filter (resolved_dead older_than (ob_rows ob)) (ob_rows ob)))"
  let ?rows = "delete_uploads ?gone (ob_rows ob)"
  let ?gone' = "take (nat limit - length ?gone) (map up_id (filter (old_delivery older_than ?rows) ?rows))"
  note pg = resolved_purgeable [OF ok, of "nat limit" older_than]
  have "ob' = ob\<lparr>ob_rows := ?rows\<rparr> \<or> ob' = ob\<lparr>ob_rows := delete_uploads ?gone' ?rows\<rparr>"
    using assms(2) unfolding purge_succeeded_uploads_def Let_def by (auto split: if_splits)
  then show ?thesis
    using pg delivered_purgeable [OF purge_table_ok [OF ok pg]] by blast
qed

text \<open>What a claim hands out: one lease per selected row, for rows that were pending or lapsed.\<close>

lemma update_rows_other: "x \<in> set rows \<Longrightarrow> \<not> p x \<Longrightarrow> x \<in> set (update_rows p f rows)"
  by (force simp: update_rows_def)

lemma lease_rows_keeps_leased:
  "x \<in> set rows \<Longrightarrow> up_status x \<noteq> UPLOAD_PENDING \<Longrightarrow> x \<in> set (snd (lease_rows env until n sel rows))"
proof (induction sel arbitrary: n rows)
  case (Cons r sel)
  have "x \<in> set (snd (lease_rows env until (n + 1) sel
      (update_rows (\<lambda>x. up_id x = up_id r \<and> up_status x = UPLOAD_PENDING)
        (take_lease env until n (up_attempt_count r + 1)) rows)))"
    by (rule Cons.IH [OF update_rows_other]) (use Cons.prems in auto)
  then show ?case by (auto simp: Let_def split: prod.split)
qed simp

lemma lease_rows_leases:
  "distinct (map up_id sel) \<Longrightarrow> \<forall>r \<in> set sel. r \<in> set rows \<and> up_status r = UPLOAD_PENDING \<Longrightarrow>
    lease_rows env until n sel rows = (leases, rows') \<Longrightarrow>
    map up_id leases = map up_id sel \<and> (\<forall>l \<in> set leases. l \<in> set rows' \<and> up_status l = UPLOAD_IN_FLIGHT
      \<and> up_leased_until l = Some until \<and> (\<exists>k. up_lease_token l = Some (qe_token env k))
      \<and> (\<exists>r \<in> set sel. up_id l = up_id r \<and> up_attempt_count l = up_attempt_count r + 1))"
proof (induction sel arbitrary: n rows leases rows')
  case Nil
  then show ?case by simp
next
  case (Cons r sel)
  let ?m = "\<lambda>x. up_id x = up_id r \<and> up_status x = UPLOAD_PENDING"
  let ?l = "take_lease env until n (up_attempt_count r + 1)"
  let ?rows = "update_rows ?m ?l rows"
  have r: "r \<in> set rows" "?m r" using Cons.prems(2) by simp_all
  have "s \<in> set ?rows" if "s \<in> set sel" for s
    by (rule update_rows_other) (use that Cons.prems(1,2) in \<open>auto simp: image_iff\<close>)
  then have rest: "\<forall>s \<in> set sel. s \<in> set ?rows \<and> up_status s = UPLOAD_PENDING" using Cons.prems(2) by simp
  obtain leases' where l': "lease_rows env until (n + 1) sel ?rows = (leases', rows')" and l: "leases = ?l r # leases'"
    using Cons.prems(3) r by (auto simp: Let_def split: prod.splits if_splits)
  have "?l r \<in> set ?rows" using r by (auto simp: update_rows_def image_iff)
  then have "?l r \<in> set rows'"
    using lease_rows_keeps_leased [of "?l r" ?rows env until "n + 1" sel] l' by (simp add: take_lease_def)
  with Cons.IH [OF _ rest l'] Cons.prems(1) show ?case
    by (auto simp: l) (auto simp: take_lease_def)
qed

lemma update_rows_origin:
  "r \<in> set (update_rows p f rows) \<Longrightarrow> \<exists>s \<in> set rows. (p s \<and> r = f s) \<or> (\<not> p s \<and> r = s)"
  by (auto simp: update_rows_def)

lemma expire_leases_origin:
  assumes "r \<in> set (expire_leases env current rows)" and "up_status r = UPLOAD_PENDING"
  shows "\<exists>s \<in> set rows. up_id s = up_id r \<and> up_attempt_count s = up_attempt_count r \<and>
    (up_status s = UPLOAD_PENDING \<or> (up_status s = UPLOAD_IN_FLIGHT \<and> (\<exists>t. up_leased_until s = Some t \<and> t \<le> current)))"
proof -
  define lapsed where "lapsed r \<longleftrightarrow> up_status r = UPLOAD_IN_FLIGHT
           \<and> (case up_leased_until r of None \<Rightarrow> False | Some t \<Rightarrow> t \<le> current)" for r :: upload_row
  have lapsedD: "up_status s = UPLOAD_IN_FLIGHT \<and> (\<exists>t. up_leased_until s = Some t \<and> t \<le> current)" if "lapsed s" for s
    using that by (auto simp: lapsed_def split: option.splits)
  obtain s1 where s1: "s1 \<in> set (update_rows (\<lambda>r. lapsed r \<and> up_max_attempts r \<le> up_attempt_count r)
           (\<lambda>r. r\<lparr>up_status := UPLOAD_DEAD, up_lease_token := None, up_leased_until := None,
                  up_last_error := (case up_last_error r of
                     None \<Rightarrow> Some ''upload lease expired at retry limit'' | Some e \<Rightarrow> Some e),
                  up_updated_at := qe_now_text env\<rparr>) rows)"
      and r: "up_id s1 = up_id r" "up_attempt_count s1 = up_attempt_count r" "up_status s1 = UPLOAD_PENDING \<or> lapsed s1"
    using update_rows_origin [OF assms(1) [unfolded expire_leases_def Let_def, folded lapsed_def]] assms(2) by auto
  obtain s where "s \<in> set rows" "up_id s = up_id s1" "up_attempt_count s = up_attempt_count s1"
      "up_status s = UPLOAD_PENDING \<or> lapsed s"
    using update_rows_origin [OF s1] r(3) by (auto simp: lapsed_def)
  with r lapsedD show ?thesis by metis
qed

lemma claim_leases:
  assumes ok: "table_ok (ob_rows ob)" and "claim_uploads env limit secs current ob = Inr (leases, ob')"
  shows "1 \<le> limit \<and> length leases \<le> nat limit \<and> distinct (map up_id leases) \<and> (\<forall>l \<in> set leases.
     l \<in> set (ob_rows ob') \<and> up_status l = UPLOAD_IN_FLIGHT \<and> up_leased_until l = Some (current + secs) \<and>
     (\<exists>k. up_lease_token l = Some (qe_token env k)) \<and>
     (\<exists>s \<in> set (ob_rows ob). up_id s = up_id l \<and> up_attempt_count l = up_attempt_count s + 1 \<and>
        (up_status s = UPLOAD_PENDING \<or> (up_status s = UPLOAD_IN_FLIGHT \<and> (\<exists>t. up_leased_until s = Some t \<and> t \<le> current)))))"
proof -
  let ?rows = "expire_leases env current (ob_rows ob)"
  let ?sel = "take (nat limit) (sort_key up_next_attempt_at (filter (claimable current ?rows) ?rows))"
  obtain rows' where l: "lease_rows env (current + secs) 0 ?sel ?rows = (leases, rows')"
    and ob': "ob' = ob\<lparr>ob_rows := rows'\<rparr>" and limit: "1 \<le> limit"
    using assms(2) by (auto simp: claim_uploads_def Let_def backfill_id [OF ok] split: if_splits prod.splits)
  have ok': "table_ok ?rows" by (rule rows_steps_table_ok [OF expire_leases_moves [OF ok] ok])
  have distinct: "distinct (map up_id ?sel)"
    using table_ok_distinct [OF ok'] by (auto simp: take_map [symmetric] distinct_map_sort_key distinct_map_filter)
  have sel: "\<forall>r \<in> set ?sel. r \<in> set ?rows \<and> up_status r = UPLOAD_PENDING"
    by (auto simp: claimable_def dest!: in_set_takeD)
  note leases = lease_rows_leases [OF distinct sel l]
  have "length leases = length ?sel" using leases by (metis length_map)
  moreover have "\<exists>s \<in> set (ob_rows ob). up_id s = up_id l \<and> up_attempt_count l = up_attempt_count s + 1 \<and>
      (up_status s = UPLOAD_PENDING \<or> (up_status s = UPLOAD_IN_FLIGHT \<and> (\<exists>t. up_leased_until s = Some t \<and> t \<le> current)))"
    if "l \<in> set leases" for l
    using that leases sel expire_leases_origin [of _ env current "ob_rows ob"] by metis
  ultimately show ?thesis using leases distinct limit ob' by auto
qed

text \<open>A claim puts nothing in flight but its leases.\<close>

lemma lease_rows_in_flight:
  "lease_rows env until n sel rows = (leases, rows') \<Longrightarrow> r' \<in> set rows' \<Longrightarrow> up_status r' = UPLOAD_IN_FLIGHT \<Longrightarrow>
    (r' \<in> set rows) \<or> up_id r' \<in> up_id ` set leases"
proof (induction sel arbitrary: n rows leases)
  case (Cons r sel)
  let ?m = "\<lambda>x. up_id x = up_id r \<and> up_status x = UPLOAD_PENDING"
  let ?l = "take_lease env until n (up_attempt_count r + 1)"
  obtain leases' where l': "lease_rows env until (n + 1) sel (update_rows ?m ?l rows) = (leases', rows')"
    and l: "leases = (if \<exists>x \<in> set rows. ?m x then ?l r # leases' else leases')"
    using Cons.prems(1) by (auto simp: Let_def split: prod.splits if_splits)
  show ?case
  proof (cases "up_id r' \<in> up_id ` set leases'")
    case True
    then show ?thesis by (auto simp: l)
  next
    case False
    then have "r' \<in> set (update_rows ?m ?l rows)" using Cons.IH [OF l' Cons.prems(2,3)] by blast
    then obtain s where "s \<in> set rows" "(?m s \<and> r' = ?l s) \<or> r' = s" using update_rows_origin by blast
    then show ?thesis by (auto simp: l take_lease_def)
  qed
qed simp

lemma expire_leases_in_flight:
  assumes "r \<in> set (expire_leases env current rows)" and "up_status r = UPLOAD_IN_FLIGHT"
  shows "r \<in> set rows"
proof -
  obtain s1 where s1: "s1 \<in> set (update_rows (\<lambda>r. (up_status r = UPLOAD_IN_FLIGHT
           \<and> (case up_leased_until r of None \<Rightarrow> False | Some t \<Rightarrow> t \<le> current)) \<and> up_max_attempts r \<le> up_attempt_count r)
           (\<lambda>r. r\<lparr>up_status := UPLOAD_DEAD, up_lease_token := None, up_leased_until := None,
                  up_last_error := (case up_last_error r of
                     None \<Rightarrow> Some ''upload lease expired at retry limit'' | Some e \<Rightarrow> Some e),
                  up_updated_at := qe_now_text env\<rparr>) rows)" and "r = s1"
    using update_rows_origin [OF assms(1) [unfolded expire_leases_def Let_def]] assms(2) by auto
  then show ?thesis using update_rows_origin [OF s1] assms(2) by auto
qed

lemma claim_in_flight:
  assumes ok: "table_ok (ob_rows ob)" and "claim_uploads env limit secs current ob = Inr (leases, ob')"
    and r': "r' \<in> set (ob_rows ob')" "up_status r' = UPLOAD_IN_FLIGHT"
  shows "r' \<in> set (ob_rows ob) \<or> up_id r' \<in> up_id ` set leases"
proof -
  obtain sel rows' where l: "lease_rows env (current + secs) 0 sel (expire_leases env current (ob_rows ob)) = (leases, rows')"
    and ob': "ob' = ob\<lparr>ob_rows := rows'\<rparr>"
    using assms(2) by (auto simp: claim_uploads_def Let_def backfill_id [OF ok] split: if_splits prod.splits)
  show ?thesis
    using lease_rows_in_flight [OF l _ r'(2)] r' expire_leases_in_flight by (auto simp: ob')
qed

section \<open>The abstract queue\<close>

text \<open>
  The specification the operations refine: pointwise moves of the rows, the insertion of a pending
  row, the deletion of settled rows, a new audit event.
\<close>

inductive queue_move :: "runtime \<Rightarrow> bool \<Rightarrow> outbox \<Rightarrow> outbox \<Rightarrow> bool" for rt rv where
  move_rows: "rows_step rv (ob_rows ob) rows' \<Longrightarrow> queue_move rt rv ob (ob\<lparr>ob_rows := rows'\<rparr>)"
| move_insert: "insert_upload row ob = Inr (i, ob') \<Longrightarrow> row_ok (row\<lparr>up_id := i\<rparr>) \<Longrightarrow>
    up_status row = UPLOAD_PENDING \<Longrightarrow> refers (ob_rows ob) (up_predecessor row) \<Longrightarrow>
    (\<not> rv \<Longrightarrow> up_predecessor row = group_latest (up_causal_group row) ob) \<Longrightarrow> queue_move rt rv ob ob'"
| move_purge: "purgeable (ob_rows ob) gone \<Longrightarrow>
    queue_move rt rv ob (ob\<lparr>ob_rows := delete_uploads gone (ob_rows ob)\<rparr>)"
| move_audit: "record_audit_event rt q (ob_audit ob) = Inr (h, audit) \<Longrightarrow>
    queue_move rt rv ob (ob\<lparr>ob_audit := audit\<rparr>)"

definition empty_outbox :: outbox where
  "empty_outbox = \<lparr>ob_rows = [], ob_seq = 0, ob_audit = []\<rparr>"

lemma queue_inv_empty: "queue_inv rt empty_outbox"
  by (simp add: queue_inv_def table_ok_def empty_outbox_def verify_audit_chain_def)

lemma rows_step_ids_le:
  "rows_step rv rows rows' \<Longrightarrow> \<forall>r \<in> set rows. up_id r \<le> n \<Longrightarrow> \<forall>r \<in> set rows'. up_id r \<le> n"
  using rows_step_ids [of rv rows rows'] by (auto simp: row_ids_def image_iff set_eq_iff) metis

lemma queue_inv_move: "queue_inv rt ob \<Longrightarrow> queue_move rt rv ob ob' \<Longrightarrow> queue_inv rt ob'"
proof (erule queue_move.cases)
  fix o' rows' assume "queue_inv rt ob" "ob = o'" "ob' = o'\<lparr>ob_rows := rows'\<rparr>" "rows_step rv (ob_rows o') rows'"
  then show "queue_inv rt ob'"
    using rows_step_table_ok rows_step_ids_le by (simp add: queue_inv_def) blast
next
  fix row o' i o'' assume "queue_inv rt ob" "ob = o'" "ob' = o''" "insert_upload row o' = Inr (i, o'')"
    "row_ok (row\<lparr>up_id := i\<rparr>)" "up_status row = UPLOAD_PENDING" "refers (ob_rows o') (up_predecessor row)"
    "\<not> rv \<Longrightarrow> up_predecessor row = group_latest (up_causal_group row) o'"
  then show "queue_inv rt ob'" by (auto intro: insert_upload_inv)
next
  fix o' gone assume "queue_inv rt ob" "ob = o'" "ob' = o'\<lparr>ob_rows := delete_uploads gone (ob_rows o')\<rparr>"
    "purgeable (ob_rows o') gone"
  then show "queue_inv rt ob'"
    using purge_table_ok by (auto simp: queue_inv_def delete_uploads_def)
next
  fix q o' h audit assume "queue_inv rt ob" "ob = o'" "ob' = o'\<lparr>ob_audit := audit\<rparr>"
    "record_audit_event rt q (ob_audit o') = Inr (h, audit)"
  then show "queue_inv rt ob'"
    using record_audit_event_insert audit_insert_verifies by (auto simp: queue_inv_def) blast
qed

text \<open>What the queue keeps: its identifiers, its content, its deliveries and its audit log.\<close>

definition row_keeps :: "upload_row \<Rightarrow> upload_row \<Rightarrow> bool" where
  "row_keeps r r' \<longleftrightarrow> row_identity r' = row_identity r
     \<and> (up_status r = UPLOAD_SUCCEEDED \<longrightarrow>
          up_status r' = UPLOAD_SUCCEEDED \<and> up_delivered_at r' = up_delivered_at r)"

definition queue_keeps :: "outbox \<Rightarrow> outbox \<Rightarrow> bool" where
  "queue_keeps ob ob' \<longleftrightarrow> ob_seq ob \<le> ob_seq ob' \<and> prefix (ob_audit ob) (ob_audit ob')
     \<and> (\<forall>r' \<in> set (ob_rows ob'). up_id r' \<le> ob_seq ob \<longrightarrow> (\<exists>r \<in> set (ob_rows ob). row_keeps r r'))"

lemma row_keeps_refl: "row_keeps r r"
  by (simp add: row_keeps_def)

lemma row_keeps_trans: "row_keeps r s \<Longrightarrow> row_keeps s t \<Longrightarrow> row_keeps r t"
  by (auto simp: row_keeps_def)

lemma row_keeps_id: "row_keeps r r' \<Longrightarrow> up_id r' = up_id r"
  by (simp add: row_keeps_def row_identity_def)

lemma queue_keeps_refl: "queue_keeps ob ob"
  by (auto simp: queue_keeps_def intro: row_keeps_refl)

lemma queue_keeps_trans:
  assumes "queue_keeps a b" and "queue_keeps b c"
  shows "queue_keeps a c"
proof -
  have "\<exists>r \<in> set (ob_rows a). row_keeps r r'" if r': "r' \<in> set (ob_rows c)" "up_id r' \<le> ob_seq a" for r'
  proof -
    obtain s where s: "s \<in> set (ob_rows b)" "row_keeps s r'"
      using assms r' by (fastforce simp: queue_keeps_def)
    then have "up_id s \<le> ob_seq a" using row_keeps_id r'(2) by fastforce
    then show ?thesis using s assms(1) row_keeps_trans by (auto simp: queue_keeps_def) metis
  qed
  then show ?thesis using assms by (auto simp: queue_keeps_def prefix_order.trans)
qed

lemma row_moves_keeps: "row_moves rv rows r r' \<Longrightarrow> row_keeps r r'"
  by (auto simp: row_moves_def row_keeps_def)

lemma audit_insert_prefix: "audit_insert rt ret row rows = Inr (h, rows') \<Longrightarrow> prefix rows rows'"
  by (auto dest!: audit_insert_Inr)

lemma queue_keeps_move: "queue_inv rt ob \<Longrightarrow> queue_move rt rv ob ob' \<Longrightarrow> queue_keeps ob ob'"
proof (erule queue_move.cases)
  fix o' rows' assume "queue_inv rt ob" "ob = o'" "ob' = o'\<lparr>ob_rows := rows'\<rparr>" "rows_step rv (ob_rows o') rows'"
  then show "queue_keeps ob ob'"
    using rows_step_bwd row_moves_keeps by (auto simp: queue_keeps_def) blast
next
  fix row o' i o'' assume inv: "queue_inv rt ob" and eq: "ob = o'" "ob' = o''"
    and "insert_upload row o' = Inr (i, o'')"
  then have "i = ob_seq ob + 1" "ob' = ob\<lparr>ob_rows := ob_rows ob @ [row\<lparr>up_id := i\<rparr>], ob_seq := i\<rparr>"
    using insert_upload_Inr by auto
  then show "queue_keeps ob ob'" by (auto simp: queue_keeps_def intro: row_keeps_refl)
next
  fix o' gone assume "ob = o'" "ob' = o'\<lparr>ob_rows := delete_uploads gone (ob_rows o')\<rparr>"
  then show "queue_keeps ob ob'"
    by (auto simp: queue_keeps_def delete_uploads_def row_keeps_def clear_refs_def row_identity_def intro!: bexI)
next
  fix q o' h audit assume "ob = o'" "ob' = o'\<lparr>ob_audit := audit\<rparr>"
    "record_audit_event rt q (ob_audit o') = Inr (h, audit)"
  then show "queue_keeps ob ob'"
    using record_audit_event_insert audit_insert_prefix
    by (auto simp: queue_keeps_def intro: row_keeps_refl) blast
qed

interpretation queue: monotone_history "\<lambda>ob. ob = empty_outbox" "queue_move rt rv" "queue_inv rt" queue_keeps
  for rt rv
  by unfold_locales
    (auto simp: queue_inv_empty queue_keeps_refl intro: queue_inv_move queue_keeps_trans queue_keeps_move)

section \<open>The operations refine the abstract queue\<close>

inductive queue_step :: "runtime \<Rightarrow> bool \<Rightarrow> outbox \<Rightarrow> outbox \<Rightarrow> bool" for rt rv where
  step_enqueue: "qe_rt env = rt \<Longrightarrow> enqueue_upload env q ob = Inr (res, ob') \<Longrightarrow> queue_step rt rv ob ob'"
| step_claim: "claim_uploads env limit secs current ob = Inr (leases, ob') \<Longrightarrow> queue_step rt rv ob ob'"
| step_succeeded: "mark_upload_succeeded env i token now ob = Inr (b, ob') \<Longrightarrow> queue_step rt rv ob ob'"
| step_failed: "mark_upload_failed env i token err permanent retry_after policy draw current ob = Inr (st, ob') \<Longrightarrow>
    queue_step rt rv ob ob'"
| step_requeue: "qe_rt env = rt \<Longrightarrow>
    requeue_dead_upload env i actor reason max_attempts event_id current ob = Inr (res2, ob') \<Longrightarrow>
    queue_step rt rv ob ob'"
| step_purge: "purge_succeeded_uploads older_than limit ob = Inr (n, ob') \<Longrightarrow> queue_step rt rv ob ob'"
| step_audit: "record_audit_event rt aq (ob_audit ob) = Inr (h, audit) \<Longrightarrow>
    queue_step rt rv ob (ob\<lparr>ob_audit := audit\<rparr>)"
| step_resync: "rv \<Longrightarrow>
    schedule_full_resync env snapshot_for i token err rid current ob = Inr (res, ob') \<Longrightarrow>
    queue_step rt rv ob ob'"

lemma queue_inv_table: "queue_inv rt ob \<Longrightarrow> table_ok (ob_rows ob)"
  by (simp add: queue_inv_def)

lemma rows_steps_moves:
  assumes "(rows_step rv)\<^sup>*\<^sup>* (ob_rows ob) rows'"
  shows "(queue_move rt rv)\<^sup>*\<^sup>* ob (ob\<lparr>ob_rows := rows'\<rparr>)"
  using assms
proof (induction rule: rtranclp_induct)
  case base
  then show ?case by simp
next
  case (step rows1 rows2)
  have "queue_move rt rv (ob\<lparr>ob_rows := rows1\<rparr>) (ob\<lparr>ob_rows := rows2\<rparr>)"
    using move_rows [of rv "ob\<lparr>ob_rows := rows1\<rparr>" rows2 rt] step.hyps(2) by simp
  with step.IH show ?case by (rule rtranclp.rtrancl_into_rtrancl)
qed

lemma enqueue_refines:
  assumes inv: "queue_inv rt ob" and enq: "enqueue_upload env request ob = Inr ((i, created), ob')"
  shows "(queue_move rt rv)\<^sup>*\<^sup>* ob ob'"
proof -
  obtain q where q: "clean_request (qe_rt env) request = Inr q" and
    cases: "ob' = ob \<or> insert_upload (new_upload_row env q (causal_group env (nq_kind q) (nq_metadata q) (nq_payload q))
            (enqueue_predecessor env q ob)) ob = Inr (i, ob')"
    using enqueue_effect [OF queue_inv_table [OF inv] enq] by blast
  from cases show ?thesis
  proof
    assume ins: "insert_upload (new_upload_row env q (causal_group env (nq_kind q) (nq_metadata q) (nq_payload q))
            (enqueue_predecessor env q ob)) ob = Inr (i, ob')"
    have "i = ob_seq ob + 1" using insert_upload_Inr [OF ins] by simp
    moreover have "refers (ob_rows ob) (enqueue_predecessor env q ob)"
      using enqueue_predecessor_ok by (auto simp: refers_def split: option.split)
    ultimately have "queue_move rt rv ob ob'"
      by (intro move_insert [OF ins]) (simp_all add: new_upload_row_ok [OF q, simplified enqueue_predecessor_def, simplified] enqueue_predecessor_def)
    then show ?thesis by blast
  qed simp
qed

lemma resync_refines:
  assumes inv: "queue_inv rt ob" and rv
    and "schedule_full_resync env snapshot_for i token err rid current ob = Inr ((j, created), ob')"
  shows "(queue_move rt rv)\<^sup>*\<^sup>* ob ob'"
proof -
  obtain t row body m key ob1 where row: "find (holds_lease i t) (ob_rows ob) = Some row"
    and ins: "(ob1 = ob \<and> j \<in> row_ids (ob_rows ob)) \<or> insert_upload (recovery_row env row body m key rid current) ob = Inr (j, ob1)"
    and ob': "ob' = ob1\<lparr>ob_rows := update_rows (holds_lease (up_id row) t) (supersede env err current j) (ob_rows ob1)\<rparr>"
    using resync_effect [OF assms(3)] by blast
  note ok = queue_inv_table [OF inv]
  note holder = lease_holder [OF ok row]
  have st1: "(queue_move rt rv)\<^sup>*\<^sup>* ob ob1" and j: "j \<in> row_ids (ob_rows ob1)"
  proof -
    have "(queue_move rt rv)\<^sup>*\<^sup>* ob ob1 \<and> j \<in> row_ids (ob_rows ob1)"
      if ins: "insert_upload (recovery_row env row body m key rid current) ob = Inr (j, ob1)"
    proof -
      note eff = insert_upload_Inr [OF ins]
      have "up_id row < j" using inv holder(1) eff by (auto simp: queue_inv_def)
      then have "row_ok (recovery_row env row body m key rid current\<lparr>up_id := j\<rparr>)"
        using table_ok_row_ok [OF ok holder(1)] by (intro recovery_row_ok) auto
      moreover have "refers (ob_rows ob) (up_predecessor row)"
        using table_ok_rowD [OF ok holder(1)] by simp
      ultimately have "queue_move rt rv ob ob1" using assms(2) by (intro move_insert [OF ins]) simp_all
      then show ?thesis using eff by (auto simp: row_ids_def)
    qed
    with ins show "(queue_move rt rv)\<^sup>*\<^sup>* ob ob1" "j \<in> row_ids (ob_rows ob1)" by auto
  qed
  have "table_ok (ob_rows ob1)" using queue.inv_steps [OF st1 inv] by (rule queue_inv_table)
  then have "(rows_step rv)\<^sup>*\<^sup>* (ob_rows ob1) (update_rows (holds_lease (up_id row) t) (supersede env err current j) (ob_rows ob1))"
    using supersede_moves [OF _ j assms(2)] by blast
  from rtranclp_trans [OF st1 rows_steps_moves [OF this]] show ?thesis unfolding ob' .
qed

lemma purge_refines:
  assumes inv: "queue_inv rt ob" and "purge_succeeded_uploads older_than limit ob = Inr (n, ob')"
  shows "(queue_move rt rv)\<^sup>*\<^sup>* ob ob'"
proof -
  obtain gone where pg: "purgeable (ob_rows ob) gone"
    and cases: "ob' = ob\<lparr>ob_rows := delete_uploads gone (ob_rows ob)\<rparr> \<or>
     (\<exists>gone'. purgeable (delete_uploads gone (ob_rows ob)) gone'
        \<and> ob' = ob\<lparr>ob_rows := delete_uploads gone' (delete_uploads gone (ob_rows ob))\<rparr>)"
    using purge_effect [OF queue_inv_table [OF inv] assms(2)] by blast
  let ?ob = "ob\<lparr>ob_rows := delete_uploads gone (ob_rows ob)\<rparr>"
  have st: "queue_move rt rv ob ?ob" by (rule move_purge [OF pg])
  have "queue_move rt rv ?ob (ob\<lparr>ob_rows := delete_uploads gone' (delete_uploads gone (ob_rows ob))\<rparr>)"
    if "purgeable (delete_uploads gone (ob_rows ob)) gone'" for gone'
    using move_purge [of ?ob gone' rt rv] that by simp
  with st cases show ?thesis by (auto intro: rtranclp.rtrancl_into_rtrancl)
qed

lemma queue_step_refines:
  assumes inv: "queue_inv rt ob" and "queue_step rt rv ob ob'"
  shows "(queue_move rt rv)\<^sup>*\<^sup>* ob ob'"
  using assms(2)
proof cases
  case (step_enqueue env q res)
  then show ?thesis using enqueue_refines [OF inv, of env q "fst res" "snd res"] by simp
next
  case (step_claim env limit secs current leases)
  then show ?thesis using claim_moves [OF queue_inv_table [OF inv]] rows_steps_moves by blast
next
  case (step_succeeded env i token now b)
  then show ?thesis using succeeded_moves [OF queue_inv_table [OF inv]] rows_steps_moves by blast
next
  case (step_failed env i token err permanent retry_after policy draw current st)
  then show ?thesis using failed_moves [OF queue_inv_table [OF inv]] rows_steps_moves by blast
next
  case (step_requeue env i actor reason max_attempts event_id current res2)
  obtain rows' q h audit where ob': "ob' = ob\<lparr>ob_rows := rows', ob_audit := audit\<rparr>"
    and rows: "rows_step rv (ob_rows ob) rows'" and audit: "record_audit_event rt q (ob_audit ob) = Inr (h, audit)"
    using requeue_moves [OF queue_inv_table [OF inv]] step_requeue by blast
  have "queue_move rt rv ob (ob\<lparr>ob_rows := rows'\<rparr>)" by (rule move_rows [OF rows])
  moreover have "queue_move rt rv (ob\<lparr>ob_rows := rows'\<rparr>) ob'"
    using move_audit [of rt q "ob\<lparr>ob_rows := rows'\<rparr>" h audit] audit by (simp add: ob')
  ultimately show ?thesis by (auto intro: rtranclp.rtrancl_into_rtrancl)
next
  case (step_purge older_than limit n)
  then show ?thesis using purge_refines [OF inv] by blast
next
  case (step_audit aq h audit)
  then show ?thesis using move_audit by blast
next
  case (step_resync env snapshot_for i token err rid current res)
  then show ?thesis using resync_refines [OF inv, of rv env snapshot_for i token err rid current "fst res" "snd res"] by simp
qed

interpretation upload: refined_history "\<lambda>ob. ob = empty_outbox" "queue_move rt rv" "queue_inv rt" queue_keeps
    "queue_step rt rv"
  for rt rv
  by unfold_locales (rule queue_step_refines)

section \<open>Delivery in causal order\<close>

text \<open>
  Without replacements, the link of a row leads over all the undelivered rows before it in its
  group, so deliveries follow the order of the queue.
\<close>

definition causal_links :: "upload_row list \<Rightarrow> bool" where
  "causal_links rows \<longleftrightarrow> (\<forall>r \<in> set rows. up_superseded_by r = None) \<and>
    (\<forall>a \<in> set rows. \<forall>b \<in> set rows. up_causal_group a \<noteq> None \<longrightarrow> up_causal_group b = up_causal_group a \<longrightarrow>
       up_id a < up_id b \<longrightarrow> up_status a \<noteq> UPLOAD_SUCCEEDED \<longrightarrow>
       (\<exists>p \<in> set rows. up_predecessor b = Some (up_id p) \<and> up_causal_group p = up_causal_group a
          \<and> up_id a \<le> up_id p))"

lemma causal_linksD:
  assumes "causal_links rows" and "a \<in> set rows" and "b \<in> set rows" and "up_causal_group a \<noteq> None"
    and "up_causal_group b = up_causal_group a" and "up_id a < up_id b" and "up_status a \<noteq> UPLOAD_SUCCEEDED"
  shows "\<exists>p \<in> set rows. up_predecessor b = Some (up_id p) \<and> up_causal_group p = up_causal_group a \<and> up_id a \<le> up_id p"
  using assms unfolding causal_links_def by blast

lemma delivery_order:
  assumes ok: "table_ok rows" and links: "causal_links rows"
  shows "a \<in> set rows \<Longrightarrow> b \<in> set rows \<Longrightarrow> up_causal_group a \<noteq> None \<Longrightarrow>
    up_causal_group b = up_causal_group a \<Longrightarrow> up_id a < up_id b \<Longrightarrow> active b \<Longrightarrow> up_status a = UPLOAD_SUCCEEDED"
proof (induction "up_id b" arbitrary: b rule: less_induct)
  case less
  show ?case
  proof (rule ccontr)
    assume a: "up_status a \<noteq> UPLOAD_SUCCEEDED"
    obtain p where p: "p \<in> set rows" "up_predecessor b = Some (up_id p)" "up_causal_group p = up_causal_group a"
        "up_id a \<le> up_id p"
      using causal_linksD [OF links less.prems(1-5) a] by blast
    have b: "unblocked rows b" "up_id p < up_id b"
      using table_ok_rowD [OF ok less.prems(2)] less.prems(6) p(2) by (auto simp: row_ok_def)
    have "up_superseded_by p = None" using links p(1) by (simp add: causal_links_def)
    then have del: "up_status p = UPLOAD_SUCCEEDED"
      using b(1) p(2) row_of_mem [OF ok p(1)] by (simp add: unblocked_def status_of_def)
    show False
    proof (cases "up_id a = up_id p")
      case True
      then have "a = p" using row_of_mem [OF ok] less.prems(1) p(1) by (metis option.inject)
      with a del show False by simp
    next
      case False
      with less.hyps [OF b(2) less.prems(1) p(1) less.prems(3) p(3)] p(4) del a show False
        by (simp add: active_def)
    qed
  qed
qed

lemma causal_links_rows_step:
  assumes links: "causal_links rows" and st: "rows_step False rows rows'"
  shows "causal_links rows'"
proof -
  have "\<exists>p' \<in> set rows'. up_predecessor b' = Some (up_id p') \<and> up_causal_group p' = up_causal_group a' \<and> up_id a' \<le> up_id p'"
    if h: "a' \<in> set rows'" "b' \<in> set rows'" "up_causal_group a' \<noteq> None" "up_causal_group b' = up_causal_group a'"
      "up_id a' < up_id b'" "up_status a' \<noteq> UPLOAD_SUCCEEDED" for a' b'
  proof -
    obtain a where a: "a \<in> set rows" "row_moves False rows a a'" using rows_step_bwd [OF st h(1)] by blast
    obtain b where b: "b \<in> set rows" "row_moves False rows b b'" using rows_step_bwd [OF st h(2)] by blast
    have "up_status a \<noteq> UPLOAD_SUCCEEDED" using a(2) h(6) by (auto simp: row_moves_def)
    then obtain p where p: "p \<in> set rows" "up_predecessor b = Some (up_id p)"
        "up_causal_group p = up_causal_group a" "up_id a \<le> up_id p"
      using causal_linksD [OF links a(1) b(1)] h(3-5) a(2) b(2) row_identityD unfolding row_moves_def by metis
    obtain p' where "p' \<in> set rows'" "row_moves False rows p p'" using rows_step_fwd [OF st p(1)] by blast
    with p a(2) b(2) row_identityD show ?thesis unfolding row_moves_def by metis
  qed
  moreover have "\<forall>r' \<in> set rows'. up_superseded_by r' = None"
    using links rows_step_bwd [OF st] by (fastforce simp: causal_links_def row_moves_def)
  ultimately show ?thesis by (simp add: causal_links_def)
qed

lemma find_rev_sorted:
  assumes "sorted_wrt (<) (map f xs)" and "find q (rev xs) = Some x" and "y \<in> set xs" and "q y"
  shows "f y \<le> (f x :: nat)"
  using assms
proof (induction xs rule: rev_induct)
  case (snoc z zs)
  then show ?case by (auto simp: sorted_wrt_append split: if_splits dest: find_SomeD)
qed simp

text \<open>The newest row of a group bounds every row of the group.\<close>

lemma latest_in_group_max:
  assumes "table_ok rows" and "r \<in> set rows" and "up_causal_group r = Some g" and "up_id r < bound"
  shows "\<exists>p \<in> set rows. latest_in_group g bound rows = Some (up_id p) \<and> up_causal_group p = Some g \<and> up_id r \<le> up_id p"
proof -
  let ?q = "\<lambda>r. up_causal_group r = Some g \<and> up_id r < bound"
  obtain p where p: "find ?q (rev rows) = Some p"
    using assms(2-4) find_NoneD [of ?q "rev rows" r] by (cases "find ?q (rev rows)") auto
  have "up_id r \<le> up_id p"
    using assms find_rev_sorted [of up_id rows ?q p r] p by (simp add: table_ok_def)
  then show ?thesis using find_SomeD [OF p] p by (auto simp: latest_in_group_def)
qed

lemma causal_links_insert:
  assumes inv: "queue_inv rt ob" and links: "causal_links (ob_rows ob)" and ins: "insert_upload row ob = Inr (i, ob')"
    and row: "row_ok (row\<lparr>up_id := i\<rparr>)" "up_status row = UPLOAD_PENDING"
    and pred: "up_predecessor row = group_latest (up_causal_group row) ob"
  shows "causal_links (ob_rows ob')"
proof -
  let ?new = "row\<lparr>up_id := i\<rparr>"
  note eff = insert_upload_Inr [OF ins]
  have rows: "ob_rows ob' = ob_rows ob @ [?new]" and i: "i = ob_seq ob + 1" using eff by auto
  have below: "up_id r < i" if "r \<in> set (ob_rows ob)" for r
    using inv that by (auto simp: queue_inv_def i le_imp_less_Suc)
  have "\<exists>p \<in> set (ob_rows ob'). up_predecessor b = Some (up_id p) \<and> up_causal_group p = up_causal_group a \<and> up_id a \<le> up_id p"
    if h: "a \<in> set (ob_rows ob')" "b \<in> set (ob_rows ob')" "up_causal_group a \<noteq> None" "up_causal_group b = up_causal_group a"
      "up_id a < up_id b" "up_status a \<noteq> UPLOAD_SUCCEEDED" for a b
  proof (cases "b \<in> set (ob_rows ob)")
    case True
    with h(5) below have "a \<in> set (ob_rows ob)" using h(1) rows by fastforce
    with causal_linksD [OF links this True h(3-6)] show ?thesis by (auto simp: rows)
  next
    case False
    with h(2) rows have b: "b = ?new" by simp
    have a: "a \<in> set (ob_rows ob)" using h(1,5) b rows by auto
    obtain g where g: "up_causal_group a = Some g" using h(3) by blast
    have "up_predecessor b = latest_in_group g i (ob_rows ob)"
      using pred h(4) g b i by (simp add: group_latest_def)
    then show ?thesis
      using latest_in_group_max [OF queue_inv_table [OF inv] a g below [OF a]] g by (auto simp: rows)
  qed
  moreover have "\<forall>r \<in> set (ob_rows ob'). up_superseded_by r = None"
    using links row rows by (auto simp: causal_links_def row_ok_def)
  ultimately show ?thesis by (simp add: causal_links_def)
qed

lemma causal_links_delete:
  assumes ok: "table_ok rows" and links: "causal_links rows" and pg: "purgeable rows gone"
  shows "causal_links (delete_uploads gone rows)"
proof -
  have "\<exists>p' \<in> set (delete_uploads gone rows). up_predecessor b' = Some (up_id p')
      \<and> up_causal_group p' = up_causal_group a' \<and> up_id a' \<le> up_id p'"
    if h: "a' \<in> set (delete_uploads gone rows)" "b' \<in> set (delete_uploads gone rows)" "up_causal_group a' \<noteq> None"
      "up_causal_group b' = up_causal_group a'" "up_id a' < up_id b'" "up_status a' \<noteq> UPLOAD_SUCCEEDED" for a' b'
  proof -
    obtain a where a: "a \<in> set rows" "a' = clear_refs gone a" using h(1) by (auto simp: delete_uploads_def)
    obtain b where b: "b \<in> set rows" "b' = clear_refs gone b" using h(2) by (auto simp: delete_uploads_def)
    obtain p where p: "p \<in> set rows" "up_predecessor b = Some (up_id p)"
        "up_causal_group p = up_causal_group a" "up_id a \<le> up_id p"
      using causal_linksD [OF links a(1) b(1)] h(3-6) a(2) b(2) by auto
    have "up_id p \<notin> set gone"
    proof
      assume "up_id p \<in> set gone"
      then have "settled rows p" using pg p(1) by (auto simp: purgeable_def)
      moreover have "up_superseded_by p = None" using links p(1) by (simp add: causal_links_def)
      ultimately have del: "up_status p = UPLOAD_SUCCEEDED" by (simp add: settled_def status_of_def)
      show False
      proof (cases "up_id a = up_id p")
        case True
        then have "a = p" using row_of_mem [OF ok] a(1) p(1) by (metis option.inject)
        with del h(6) a(2) show False by simp
      next
        case False
        with delivery_order [OF ok links a(1) p(1)] p(3,4) h(3,6) a(2) del show False by (simp add: active_def)
      qed
    qed
    then show ?thesis using p a(2) b(2) by (intro bexI [of _ "clear_refs gone p"]) (auto simp: delete_uploads_def)
  qed
  moreover have "\<forall>r' \<in> set (delete_uploads gone rows). up_superseded_by r' = None"
    using links by (auto simp: causal_links_def delete_uploads_def)
  ultimately show ?thesis by (simp add: causal_links_def)
qed

lemma causal_links_move:
  assumes "queue_inv rt ob" and "causal_links (ob_rows ob)" and "queue_move rt False ob ob'"
  shows "causal_links (ob_rows ob')"
  using assms(3)
proof cases
  case (move_rows rows')
  then show ?thesis using causal_links_rows_step [OF assms(2)] by simp
next
  case (move_insert row i)
  then show ?thesis using causal_links_insert [OF assms(1,2)] by blast
next
  case (move_purge gone)
  then show ?thesis using causal_links_delete [OF queue_inv_table [OF assms(1)] assms(2)] by simp
next
  case (move_audit q h audit)
  then show ?thesis using assms(2) by simp
qed

text \<open>The queue without replacements: the same contracts with the stronger invariant.\<close>

interpretation fifo: refined_history "\<lambda>ob. ob = empty_outbox" "queue_move rt False"
    "\<lambda>ob. queue_inv rt ob \<and> causal_links (ob_rows ob)" queue_keeps "queue_step rt False"
  for rt
proof unfold_locales
  show "queue_inv rt s \<and> causal_links (ob_rows s)" if "s = empty_outbox" for s
    using that by (simp add: queue_inv_empty) (simp add: causal_links_def empty_outbox_def)
  show "queue_inv rt t \<and> causal_links (ob_rows t)"
    if "queue_inv rt s \<and> causal_links (ob_rows s)" "queue_move rt False s t" for s t
    using that causal_links_move queue_inv_move by blast
qed (auto intro: queue_keeps_refl queue_keeps_trans queue_keeps_move queue_step_refines)

lemma queue_reachable_inv: "(queue_step rt rv)\<^sup>*\<^sup>* empty_outbox ob \<Longrightarrow> queue_inv rt ob"
  using upload.detail.inv_steps queue_inv_empty by blast

lemma queue_reachable_table: "(queue_step rt rv)\<^sup>*\<^sup>* empty_outbox ob \<Longrightarrow> table_ok (ob_rows ob)"
  using queue_reachable_inv queue_inv_table by blast

end
