(* ===== verification/Upload_Demo.thy ===== *)
theory Upload_Demo
  imports Upload_Steps "HOL-Library.Code_Target_Nat"
begin

text \<open>
  Two runs of the upload queue at concrete values. In the first, a result and a status are queued,
  delivered in order, and the delivered rows purged. In the second, the result is rejected as a
  delta and replaced by a full resynchronisation while a status waits behind it and another is queued.
\<close>

definition upload_rt :: runtime where
  "upload_rt = \<lparr> rt_sha256 = (\<lambda>s. if length s < 8 then s else ''h''), rt_float_repr = (\<lambda>q. case quotient_of q of (n, d) \<Rightarrow> show_int n @ ''.'' @ show_int d),
     rt_fromisoformat = (\<lambda>_. None), rt_isoformat = (\<lambda>_. []) \<rparr>"

definition upload_env :: "string \<Rightarrow> queue_env" where
  "upload_env now = \<lparr> qe_rt = upload_rt, qe_loads = (\<lambda>_. None), qe_sha256_bytes = (\<lambda>s. s),
     qe_redact = (\<lambda>s. s), qe_token = (\<lambda>n. now @ show_nat n), qe_now_text = now \<rparr>"

definition upload_request :: "string \<Rightarrow> string \<Rightarrow> jobj \<Rightarrow> enqueue_request" where
  "upload_request kind key payload = \<lparr> nq_kind = kind, nq_payload = JsonBody (JObj payload),
     nq_idempotency_key = key, nq_endpoint = ''/v1/x'', nq_method = ''post'',
     nq_content_type = ''application/json'', nq_request_id = ''r'' @ key,
     nq_metadata = [(''endpoint_id'', JStr ''e1''), (''scan_id'', JStr ''s1'')], nq_max_attempts = 3, nq_next_attempt = 0 \<rparr>"

definition delta_payload :: jobj where
  "delta_payload = [(''inventory_sync'', JObj [(''mode'', JStr ''delta'')])]"

definition demo_snapshot :: "string \<Rightarrow> snapshot_row option" where
  "demo_snapshot sid = Some \<lparr> sn_endpoint_id = ''e1'', sn_scan_id = sid, sn_schema_version = ''1'',
     sn_policy_version = None, sn_scanner_version = None, sn_payload_hash = ''h'', sn_payload = JObj [] \<rparr>"

text \<open>The rows as they are inserted, and the states of the two runs.\<close>

definition queued_row :: "nat \<Rightarrow> string \<Rightarrow> string \<Rightarrow> jobj \<Rightarrow> string \<Rightarrow> nat option \<Rightarrow> string \<Rightarrow> upload_row" where
  "queued_row i kind key payload hash predecessor now =
    \<lparr> up_id = i, up_kind = kind, up_method = ''POST'', up_endpoint = ''/v1/x'',
      up_payload = JsonBody (JObj payload), up_payload_hash = hash, up_content_type = ''application/json'',
      up_idempotency_key = key, up_request_id = ''r'' @ key, up_status = UPLOAD_PENDING, up_attempt_count = 0,
      up_max_attempts = 3, up_next_attempt_at = 0, up_leased_until = None, up_lease_token = None,
      up_last_error = None, up_metadata = JObj [(''endpoint_id'', JStr ''e1''), (''scan_id'', JStr ''s1'')],
      up_created_at = now, up_updated_at = now, up_delivered_at = None,
      up_causal_group = Some ''endpoint:e1'', up_predecessor = predecessor, up_superseded_by = None,
      up_resync_for = None \<rparr>"

definition delivered_row :: "string \<Rightarrow> upload_row \<Rightarrow> upload_row" where
  "delivered_row now r = r\<lparr>up_status := UPLOAD_SUCCEEDED, up_attempt_count := 1, up_delivered_at := Some now,
     up_updated_at := now\<rparr>"

abbreviation "result_row \<equiv> queued_row 1 ''scan_result'' ''k1'' delta_payload ''h'' None ''t1''"
abbreviation "status_row \<equiv> queued_row 2 ''scan-status'' ''k2'' [] ''{}'' (Some 1) ''t2''"

abbreviation "leased now until n r \<equiv> take_lease (upload_env now) until n 1 r"

definition "up1 = \<lparr> ob_rows = [result_row], ob_seq = 1, ob_audit = [] \<rparr>"
definition "up2 = \<lparr> ob_rows = [result_row, status_row], ob_seq = 2, ob_audit = [] \<rparr>"
definition "up3 = \<lparr> ob_rows = [leased ''t3'' 160 0 result_row, status_row], ob_seq = 2, ob_audit = [] \<rparr>"
definition "up4 = \<lparr> ob_rows = [delivered_row ''t4'' result_row, status_row], ob_seq = 2, ob_audit = [] \<rparr>"
definition "up5 = \<lparr> ob_rows = [delivered_row ''t4'' result_row, leased ''t5'' 260 0 status_row],
  ob_seq = 2, ob_audit = [] \<rparr>"
definition "up6 = \<lparr> ob_rows = [(leased ''t5'' 260 0 status_row)\<lparr>up_predecessor := None\<rparr>], ob_seq = 2, ob_audit = [] \<rparr>"

lemma up_run:
  "enqueue_upload (upload_env ''t1'') (upload_request ''scan_result'' ''k1'' delta_payload) empty_outbox = Inr ((1, True), up1)"
  "enqueue_upload (upload_env ''t2'') (upload_request ''scan-status'' ''k2'' []) up1 = Inr ((2, True), up2)"
  "claim_uploads (upload_env ''t3'') 10 60 100 up2 = Inr ([leased ''t3'' 160 0 result_row], up3)"
  "mark_upload_succeeded (upload_env ''t4'') 1 ''t30'' ''t4'' up3 = Inr (True, up4)"
  "claim_uploads (upload_env ''t5'') 10 60 200 up4 = Inr ([leased ''t5'' 260 0 status_row], up5)"
  "purge_succeeded_uploads ''t5'' 10 up5 = Inr (1, up6)"
  by code_simp+

abbreviation "replaced_row \<equiv> result_row\<lparr>up_status := UPLOAD_DEAD, up_attempt_count := 1, up_next_attempt_at := 110,
  up_last_error := Some ''409'', up_updated_at := ''t4'', up_superseded_by := Some 3\<rparr>"
abbreviation "later_row \<equiv> queued_row 4 ''scan-status'' ''k3'' [] ''{}'' (Some 3) ''t5''"

definition recovery_demo :: upload_row where
  "recovery_demo = recovery_row (upload_env ''t4'') result_row
     (JsonBody (canon (JObj (dict_set ''inventory_sync'' (JObj (full_sync (the (demo_snapshot ''s1'')))) delta_payload))))
     [(''endpoint_id'', JStr ''e1''), (''scan_id'', JStr ''s1''), (''causal_recovery'', JBool True),
      (''resync_for_upload_id'', JInt 1), (''snapshot_hash'', JStr ''h'')]
     ''full-resync:e1:s1:h'' ''rq'' 110\<lparr>up_id := 3\<rparr>"

definition "re4 = \<lparr> ob_rows = [replaced_row, status_row, recovery_demo], ob_seq = 3, ob_audit = [] \<rparr>"
definition "re5 = \<lparr> ob_rows = [replaced_row, status_row, recovery_demo, later_row], ob_seq = 4, ob_audit = [] \<rparr>"
definition "re6 = \<lparr> ob_rows = [replaced_row, status_row, leased ''t6'' 180 0 recovery_demo, later_row],
  ob_seq = 4, ob_audit = [] \<rparr>"
definition "re7 = \<lparr> ob_rows = [replaced_row, status_row, delivered_row ''t7'' recovery_demo, later_row],
  ob_seq = 4, ob_audit = [] \<rparr>"
definition "re8 = \<lparr> ob_rows = [replaced_row, leased ''t8'' 190 0 status_row, delivered_row ''t7'' recovery_demo,
  leased ''t8'' 190 1 later_row], ob_seq = 4, ob_audit = [] \<rparr>"
definition "re9 = \<lparr> ob_rows = [replaced_row, leased ''t8'' 190 0 status_row, delivered_row ''t7'' recovery_demo,
  delivered_row ''t9'' later_row], ob_seq = 4, ob_audit = [] \<rparr>"

lemma re_run:
  "schedule_full_resync (upload_env ''t4'') demo_snapshot 1 ''t30'' ''409'' ''rq'' 110 up3 = Inr ((3, True), re4)"
  "enqueue_upload (upload_env ''t5'') (upload_request ''scan-status'' ''k3'' []) re4 = Inr ((4, True), re5)"
  by code_simp+

lemma re_run_delivered:
  "claim_uploads (upload_env ''t6'') 10 60 120 re5 = Inr ([leased ''t6'' 180 0 recovery_demo], re6)"
  "mark_upload_succeeded (upload_env ''t7'') 3 ''t60'' ''t7'' re6 = Inr (True, re7)"
  by code_simp+

lemma re_run_overtaken:
  "claim_uploads (upload_env ''t8'') 10 60 130 re7
     = Inr ([leased ''t8'' 190 0 status_row, leased ''t8'' 190 1 later_row], re8)"
  "mark_upload_succeeded (upload_env ''t9'') 4 ''t81'' ''t9'' re8 = Inr (True, re9)"
  by code_simp+

lemma up_reachable:
  "(queue_step upload_rt rv)\<^sup>*\<^sup>* empty_outbox up1" "(queue_step upload_rt rv)\<^sup>*\<^sup>* up1 up3"
  "(queue_step upload_rt rv)\<^sup>*\<^sup>* up3 up5" "(queue_step upload_rt rv)\<^sup>*\<^sup>* empty_outbox up3"
  "(queue_step upload_rt rv)\<^sup>*\<^sup>* empty_outbox up5"
proof -
  have rt: "qe_rt (upload_env t) = upload_rt" for t by (simp add: upload_env_def)
  have s1: "queue_step upload_rt rv empty_outbox up1" by (rule step_enqueue [OF rt up_run(1)])
  have s2: "queue_step upload_rt rv up1 up2" by (rule step_enqueue [OF rt up_run(2)])
  have s3: "queue_step upload_rt rv up2 up3" by (rule step_claim [OF up_run(3)])
  have s4: "queue_step upload_rt rv up3 up4" by (rule step_succeeded [OF up_run(4)])
  have s5: "queue_step upload_rt rv up4 up5" by (rule step_claim [OF up_run(5)])
  show a: "(queue_step upload_rt rv)\<^sup>*\<^sup>* empty_outbox up1" using s1 by simp
  show b: "(queue_step upload_rt rv)\<^sup>*\<^sup>* up1 up3" using s2 s3 by simp
  show c: "(queue_step upload_rt rv)\<^sup>*\<^sup>* up3 up5" using s4 s5 by simp
  show ab: "(queue_step upload_rt rv)\<^sup>*\<^sup>* empty_outbox up3" using a b by (rule rtranclp_trans)
  show "(queue_step upload_rt rv)\<^sup>*\<^sup>* empty_outbox up5" using ab c by (rule rtranclp_trans)
qed

lemma re_reachable: "(queue_step upload_rt True)\<^sup>*\<^sup>* empty_outbox re8" "(queue_step upload_rt True)\<^sup>*\<^sup>* empty_outbox re9"
proof -
  have rt: "qe_rt (upload_env t) = upload_rt" for t by (simp add: upload_env_def)
  have s4: "queue_step upload_rt True up3 re4" by (rule step_resync [OF TrueI re_run(1)])
  have s5: "queue_step upload_rt True re4 re5" by (rule step_enqueue [OF rt re_run(2)])
  have s6: "queue_step upload_rt True re5 re6" by (rule step_claim [OF re_run_delivered(1)])
  have s7: "queue_step upload_rt True re6 re7" by (rule step_succeeded [OF re_run_delivered(2)])
  have s8: "queue_step upload_rt True re7 re8" by (rule step_claim [OF re_run_overtaken(1)])
  have s9: "queue_step upload_rt True re8 re9" by (rule step_succeeded [OF re_run_overtaken(2)])
  have "(queue_step upload_rt True)\<^sup>*\<^sup>* up3 re8" using s4 s5 s6 s7 s8 by simp
  with up_reachable(4) show r8: "(queue_step upload_rt True)\<^sup>*\<^sup>* empty_outbox re8" by (rule rtranclp_trans)
  show "(queue_step upload_rt True)\<^sup>*\<^sup>* empty_outbox re9" using r8 s9 by (rule rtranclp.rtrancl_into_rtrancl)
qed

end
