(* ===== verification/Upload_Properties.thy ===== *)
theory Upload_Properties
  imports Upload_Demo
begin

text \<open>
  The properties of the agent's durable storage: the upload queue, its retries and the audit log.
\<close>

section \<open>Order of delivery\<close>

text \<open>C13: As long as no delta is replaced by a full resynchronisation, the uploads of one causal group
  are delivered in the order they were queued: while one of them is in flight or delivered, all the
  earlier ones still in the queue are delivered.\<close>

theorem upload_causal_order:
  assumes "(queue_step rt False)\<^sup>*\<^sup>* empty_outbox ob"
    and "a \<in> set (ob_rows ob)" and "b \<in> set (ob_rows ob)"
    and "up_causal_group a = Some g" and "up_causal_group b = Some g" and "up_id a < up_id b"
    and "up_status b = UPLOAD_IN_FLIGHT \<or> up_status b = UPLOAD_SUCCEEDED"
  shows "up_status a = UPLOAD_SUCCEEDED"
proof -
  have "queue_inv rt empty_outbox \<and> causal_links (ob_rows empty_outbox)"
    by (simp add: queue_inv_empty) (simp add: causal_links_def empty_outbox_def)
  then have "queue_inv rt ob \<and> causal_links (ob_rows ob)"
    using fifo.detail.inv_steps [OF assms(1)] by blast
  then show ?thesis
    using delivery_order [OF queue_inv_table [of rt ob] _ assms(2,3)] assms(4-7) by (simp add: active_def)
qed

theorem upload_causal_order_witness:
  "up_status (delivered_row ''t4'' result_row) = UPLOAD_SUCCEEDED
   \<and> up_status (leased ''t5'' 260 0 status_row) = UPLOAD_IN_FLIGHT"
proof -
  have "up_status (delivered_row ''t4'' result_row) = UPLOAD_SUCCEEDED"
    by (rule upload_causal_order [OF up_reachable(5), of _ "leased ''t5'' 260 0 status_row" "''endpoint:e1''"])
      (simp_all add: up5_def queued_row_def delivered_row_def take_lease_def)
  then show ?thesis by (simp add: take_lease_def)
qed

text \<open>C14: With a full resynchronisation the order can be lost: there is a run of the queue in which a
  status queued after the resynchronisation is delivered while an earlier status of the same group, which
  waited behind the rejected delta, is not.\<close>

theorem resync_loses_order:
  "\<exists>ob a b. (queue_step upload_rt True)\<^sup>*\<^sup>* empty_outbox ob \<and> a \<in> set (ob_rows ob) \<and> b \<in> set (ob_rows ob)
     \<and> up_causal_group a = up_causal_group b \<and> up_causal_group a \<noteq> None \<and> up_id a < up_id b
     \<and> up_kind a = ''scan-status'' \<and> up_kind b = ''scan-status''
     \<and> up_status b = UPLOAD_SUCCEEDED \<and> up_status a \<noteq> UPLOAD_SUCCEEDED"
proof (intro exI conjI)
  show "(queue_step upload_rt True)\<^sup>*\<^sup>* empty_outbox re9" by (rule re_reachable(2))
  show "leased ''t8'' 190 0 status_row \<in> set (ob_rows re9)" "delivered_row ''t9'' later_row \<in> set (ob_rows re9)"
    by (simp_all add: re9_def)
qed (simp_all add: take_lease_def delivered_row_def queued_row_def)

text \<open>C15: In every run, resynchronisations included, an upload that is in flight or delivered follows its
  predecessor: the predecessor still in the queue is delivered, or the upload that replaced it is.\<close>

theorem upload_follows_predecessor:
  assumes "(queue_step rt rv)\<^sup>*\<^sup>* empty_outbox ob" and "b \<in> set (ob_rows ob)"
    and "up_status b = UPLOAD_IN_FLIGHT \<or> up_status b = UPLOAD_SUCCEEDED" and "up_predecessor b = Some p"
  shows "\<exists>r. row_of p (ob_rows ob) = Some r \<and> (up_status r = UPLOAD_SUCCEEDED \<or>
     (\<exists>j s. up_superseded_by r = Some j \<and> row_of j (ob_rows ob) = Some s \<and> up_status s = UPLOAD_SUCCEEDED))"
proof -
  have "unblocked (ob_rows ob) b"
    using table_ok_rowD [OF queue_reachable_table [OF assms(1)] assms(2)] assms(3) by (simp add: active_def)
  with assms(4) show ?thesis by (auto simp: unblocked_def status_of_def split: option.splits)
qed

theorem upload_follows_predecessor_witness:
  "\<exists>r. row_of 1 (ob_rows re8) = Some r \<and> (up_status r = UPLOAD_SUCCEEDED \<or>
     (\<exists>j s. up_superseded_by r = Some j \<and> row_of j (ob_rows re8) = Some s \<and> up_status s = UPLOAD_SUCCEEDED))"
  by (rule upload_follows_predecessor [OF re_reachable(1), of "leased ''t8'' 190 0 status_row"])
    (simp_all add: re8_def take_lease_def queued_row_def)

section \<open>Durability\<close>



text \<open>C17: In every reachable queue, each row has consistent lease columns (a token and an expiry exactly
  while in flight), a delivery time exactly when delivered, an attempt counter between zero and its
  limit, below it while pending, a replacement only when dead, and a predecessor with a smaller identifier.\<close>

theorem upload_rows_consistent:
  assumes "(queue_step rt rv)\<^sup>*\<^sup>* empty_outbox ob" and "r \<in> set (ob_rows ob)"
  shows "(up_lease_token r \<noteq> None \<longleftrightarrow> up_status r = UPLOAD_IN_FLIGHT)
    \<and> (up_leased_until r \<noteq> None \<longleftrightarrow> up_status r = UPLOAD_IN_FLIGHT)
    \<and> (up_delivered_at r \<noteq> None \<longleftrightarrow> up_status r = UPLOAD_SUCCEEDED)
    \<and> 0 \<le> up_attempt_count r \<and> up_attempt_count r \<le> up_max_attempts r \<and> up_max_attempts r \<le> 100
    \<and> (up_status r = UPLOAD_PENDING \<longrightarrow> up_attempt_count r < up_max_attempts r)
    \<and> (up_superseded_by r \<noteq> None \<longrightarrow> up_status r = UPLOAD_DEAD)
    \<and> (\<forall>p. up_predecessor r = Some p \<longrightarrow> p < up_id r)
    \<and> distinct (map up_id (ob_rows ob)) \<and> distinct (map up_idempotency_key (ob_rows ob))"
proof -
  have ok: "table_ok (ob_rows ob)" by (rule queue_reachable_table [OF assms(1)])
  then have "row_ok r" using table_ok_rowD assms(2) by blast
  then show ?thesis using ok table_ok_distinct by (auto simp: row_ok_def table_ok_def)
qed

theorem upload_rows_consistent_witness:
  "up_lease_token (leased ''t5'' 260 0 status_row) \<noteq> None \<and> up_leased_until (leased ''t5'' 260 0 status_row) \<noteq> None"
proof -
  have "leased ''t5'' 260 0 status_row \<in> set (ob_rows up5)" by (simp add: up5_def)
  from upload_rows_consistent [OF up_reachable(5) this] show ?thesis by (simp add: take_lease_def)
qed

section \<open>Operations\<close>







definition purge_keeps :: "upload_row list \<Rightarrow> upload_row list \<Rightarrow> bool" where
  "purge_keeps rows rows' \<longleftrightarrow> (\<forall>r' \<in> set rows'. \<exists>r \<in> set rows. up_id r' = up_id r \<and> up_status r' = up_status r
        \<and> up_payload r' = up_payload r \<and> (\<forall>t. claimable t rows' r' \<longleftrightarrow> claimable t rows r)) \<and>
     (\<forall>r \<in> set rows. up_id r \<notin> row_ids rows' \<longrightarrow> settled rows r)"

lemma delete_claimable:
  assumes "table_ok rows" and "purgeable rows gone" and "r \<in> set rows"
  shows "claimable t (delete_uploads gone rows) (clear_refs gone r) \<longleftrightarrow> claimable t rows r"
  using purge_unblocked [OF assms, of "clear_refs gone r"] by (auto simp: claimable_def clear_refs_def)

lemma delete_keeps:
  assumes ok: "table_ok rows" and pg: "purgeable rows gone"
  shows "purge_keeps rows (delete_uploads gone rows)"
proof -
  have "\<exists>r \<in> set rows. up_id r' = up_id r \<and> up_status r' = up_status r \<and> up_payload r' = up_payload r
        \<and> (\<forall>t. claimable t (delete_uploads gone rows) r' \<longleftrightarrow> claimable t rows r)"
    if r': "r' \<in> set (delete_uploads gone rows)" for r'
  proof -
    obtain r where "r \<in> set rows" "r' = clear_refs gone r"
      using r' unfolding delete_uploads_def set_map set_filter by blast
    then show ?thesis using delete_claimable [OF ok pg] by (intro bexI [of _ r]) (auto simp: clear_refs_def)
  qed
  moreover have "settled rows r" if "r \<in> set rows" "up_id r \<notin> row_ids (delete_uploads gone rows)" for r
  proof -
    have "up_id r \<in> row_ids rows" using that(1) by (simp add: row_ids_def)
    then have "up_id r \<in> set gone" using that(2) by (simp add: row_ids_delete)
    then show ?thesis using pg that(1) by (simp add: purgeable_def)
  qed
  ultimately show ?thesis unfolding purge_keeps_def by blast
qed

lemma settled_delete: "settled (delete_uploads gone rows) (clear_refs gone r) \<Longrightarrow> settled rows r"
  by (auto simp: settled_def status_of_def row_of_delete clear_ref_def split: option.splits if_splits)

lemma delete_keeps_trans:
  assumes "purge_keeps rows (delete_uploads gone rows)" and "purge_keeps (delete_uploads gone rows) rows'"
  shows "purge_keeps rows rows'"
proof -
  let ?mid = "delete_uploads gone rows"
  have "settled rows r" if r: "r \<in> set rows" "up_id r \<notin> row_ids rows'" for r
  proof (cases "up_id r \<in> set gone")
    case True
    with r(1) assms(1) show ?thesis by (auto simp: purge_keeps_def row_ids_delete)
  next
    case False
    then have "clear_refs gone r \<in> set ?mid" using r(1) by (simp add: delete_uploads_def)
    then have "settled ?mid (clear_refs gone r)" using assms(2) r(2) by (auto simp: purge_keeps_def)
    then show ?thesis by (rule settled_delete)
  qed
  moreover have "\<exists>r \<in> set rows. up_id r' = up_id r \<and> up_status r' = up_status r
        \<and> up_payload r' = up_payload r \<and> (\<forall>t. claimable t rows' r' \<longleftrightarrow> claimable t rows r)" if "r' \<in> set rows'" for r'
    using assms that unfolding purge_keeps_def by metis
  ultimately show ?thesis unfolding purge_keeps_def by blast
qed

text \<open>C21: A purge removes only settled uploads, delivered ones and dead ones whose replacement was
  delivered, and changes the order of nothing: every remaining row keeps its status and payload, and is
  claimable after the purge exactly when it was before.\<close>

theorem purge_neutral:
  assumes "(queue_step rt rv)\<^sup>*\<^sup>* empty_outbox ob" and "purge_succeeded_uploads older_than limit ob = Inr (n, ob')"
  shows "(\<forall>r' \<in> set (ob_rows ob'). \<exists>r \<in> set (ob_rows ob). up_id r' = up_id r \<and> up_status r' = up_status r
        \<and> up_payload r' = up_payload r \<and> (\<forall>t. claimable t (ob_rows ob') r' \<longleftrightarrow> claimable t (ob_rows ob) r))
    \<and> (\<forall>r \<in> set (ob_rows ob). up_id r \<notin> up_id ` set (ob_rows ob') \<longrightarrow>
         up_status r = UPLOAD_SUCCEEDED \<or> status_of (up_superseded_by r) (ob_rows ob) = Some UPLOAD_SUCCEEDED)"
proof -
  note ok = queue_reachable_table [OF assms(1)]
  obtain gone where pg: "purgeable (ob_rows ob) gone"
    and cases: "ob' = ob\<lparr>ob_rows := delete_uploads gone (ob_rows ob)\<rparr> \<or>
     (\<exists>gone'. purgeable (delete_uploads gone (ob_rows ob)) gone'
        \<and> ob' = ob\<lparr>ob_rows := delete_uploads gone' (delete_uploads gone (ob_rows ob))\<rparr>)"
    using purge_effect [OF ok assms(2)] by blast
  note first = delete_keeps [OF ok pg]
  have "purge_keeps (ob_rows ob) (ob_rows ob')"
    using cases first delete_keeps_trans [OF first delete_keeps [OF purge_table_ok [OF ok pg]]] by auto
  then show ?thesis unfolding purge_keeps_def row_ids_def settled_def by blast
qed

theorem purge_neutral_witness:
  "list_all (\<lambda>r'. list_ex (\<lambda>r. up_id r' = up_id r \<and> up_status r' = up_status r) (ob_rows up5)) (ob_rows up6)"
  unfolding list_all_iff list_ex_iff using purge_neutral [OF up_reachable(5) up_run(6)] by blast

section \<open>The audit log\<close>

lemma upload_rt_floats: "float_repr_ok upload_rt"
proof -
  let ?repr = "\<lambda>q. case quotient_of q of (n, d) \<Rightarrow> show_int n @ ''.'' @ show_int d"
  have no_dot: "CHR ''.'' \<notin> set (show_int i)" for i
    using show_int_chars [of "CHR ''.''" i] by (auto simp: integer_char_def code_point_def)
  have "inj ?repr"
  proof (rule injI)
    fix a b assume eq: "?repr a = ?repr b"
    obtain n d n' d' where q: "quotient_of a = (n, d)" "quotient_of b = (n', d')" by fastforce
    have "show_int n @ CHR ''.'' # show_int d = show_int n' @ CHR ''.'' # show_int d'" using eq q by simp
    then have "show_int n = show_int n' \<and> show_int d = show_int d'"
      using append_Cons_eq_iff [OF no_dot no_dot] by blast
    then have "quotient_of a = quotient_of b" using q show_int_inj by simp
    then show "a = b" by (rule quotient_of_inject)
  qed
  moreover have "?repr q \<noteq> [] \<and> integer_char (hd (?repr q)) \<and> (\<forall>c \<in> set (?repr q). number_char c)
      \<and> (\<exists>c \<in> set (?repr q). \<not> integer_char c)" for q
  proof -
    obtain n d where q: "quotient_of q = (n, d)" by fastforce
    have dot: "number_char (CHR ''.'')" "\<not> integer_char (CHR ''.'')" by code_simp+
    have "number_char c" if "c \<in> set (show_int n @ ''.'' @ show_int d)" for c
      using that dot(1) show_int_chars delimiter_facts(2) by auto
    moreover have "integer_char (hd (show_int n @ ''.'' @ show_int d))"
      using show_int_chars [of "hd (show_int n)" n] by simp
    ultimately show ?thesis using dot(2) by (auto simp: q)
  qed
  ultimately show ?thesis by (simp add: float_repr_ok_def upload_rt_def)
qed

text \<open>C22: The audit log is tamper evident: two different logs whose chains both verify have different last
  hashes, so no event can be changed, removed, inserted or reordered under a kept last hash, unless
  SHA-256 collides on two of the texts hashed for these very logs.\<close>

theorem audit_tamper_evident:
  assumes "float_repr_ok rt" and "verify_audit_chain rt rows" and "verify_audit_chain rt rows'" and "rows \<noteq> rows'"
  shows "last_hash rows \<noteq> last_hash rows' \<or> sha256_collision rt (audit_texts rt rows @ audit_texts rt rows')"
  using verified_logs_equal [OF assms(1-3)] assms(4) by blast

definition after :: "'e + ('r \<times> 's) \<Rightarrow> 's \<Rightarrow> 's" where
  "after r s = (case r of Inl _ \<Rightarrow> s | Inr (_, s') \<Rightarrow> s')"

definition login_event :: "string \<Rightarrow> audit_request" where
  "login_event outcome = \<lparr> aq_event_id = ''id1'', aq_event_type = ''login'', aq_outcome = outcome, aq_actor = Some ''op'',
     aq_resource_type = None, aq_resource_id = None, aq_scan_id = None, aq_endpoint_id = None,
     aq_authorization_scope_id = None, aq_details = [], aq_created_at = ''t0'', aq_return_existing = False \<rparr>"

definition login_log :: "string \<Rightarrow> audit_row list" where
  "login_log outcome = after (record_audit_event upload_rt (login_event outcome) []) []"

theorem audit_tamper_evident_witness:
  "\<not> (last_hash (login_log ''OK'') = last_hash (login_log ''DENIED'')
    \<and> \<not> sha256_collision upload_rt (audit_texts upload_rt (login_log ''OK'') @ audit_texts upload_rt (login_log ''DENIED'')))"
proof -
  have "verify_audit_chain upload_rt (login_log ''OK'')" "verify_audit_chain upload_rt (login_log ''DENIED'')" by code_simp+
  moreover have "login_log ''OK'' \<noteq> login_log ''DENIED''" by code_simp
  ultimately show ?thesis using audit_tamper_evident [OF upload_rt_floats] by blast
qed

lemma record_audit_event_fresh:
  assumes "record_audit_event rt q rows = Inr (h, rows')" and "py_strip (aq_event_id q) \<notin> al_event_id ` set rows"
  shows "\<exists>e. rows' = rows @ [e] \<and> al_event_hash e = h \<and> al_event_id e = py_strip (aq_event_id q)
    \<and> al_event_type e = py_strip (aq_event_type q) \<and> al_resource_id e = aq_resource_id q \<and> al_actor e = aq_actor q"
proof -
  have "find (\<lambda>r. al_event_id r = py_strip (aq_event_id q)) rows = None"
    using assms(2) by (simp add: find_None_iff image_iff) metis
  moreover have "clean_identifier f n (JStr x) = Inr y \<Longrightarrow> y = py_strip x" for f n x y
    by (auto simp: clean_identifier_def Let_def split: if_splits)
  ultimately show ?thesis
    using assms(1) by (fastforce simp: record_audit_event_def audit_insert_def ebind_Inr_iff Let_def split: if_splits)
qed

lemma row_of_update:
  "(\<And>r. up_id (f r) = up_id r) \<Longrightarrow>
    row_of i (update_rows p f rows) = map_option (\<lambda>r. if p r then f r else r) (row_of i rows)"
  by (induction rows) (auto simp: row_of_def update_rows_def)

text \<open>An operator requeue succeeds only for a dead upload without a replacement; it makes exactly this row
  pending again with a fresh attempt counter and an admissible limit, its payload, key and links untouched,
  and appends exactly one event to the audit log, which names the upload.\<close>

lemma requeue_audited:
  assumes "(queue_step (qe_rt env) rv)\<^sup>*\<^sup>* empty_outbox ob"
    and "requeue_dead_upload env i actor reason max_attempts event_id current ob = Inr ((limit, h), ob')"
    and "py_strip event_id \<notin> al_event_id ` set (ob_audit ob)"
  shows "\<exists>row e. row_of i (ob_rows ob) = Some row \<and> up_status row = UPLOAD_DEAD \<and> up_superseded_by row = None
    \<and> (\<exists>r'. row_of i (ob_rows ob') = Some r' \<and> row_identity r' = row_identity row \<and> up_predecessor r' = up_predecessor row
         \<and> up_status r' = UPLOAD_PENDING \<and> up_attempt_count r' = 0 \<and> up_max_attempts r' = limit)
    \<and> (\<forall>j. j \<noteq> i \<longrightarrow> row_of j (ob_rows ob') = row_of j (ob_rows ob))
    \<and> 1 \<le> limit \<and> limit \<le> 100
    \<and> ob_audit ob' = ob_audit ob @ [e] \<and> al_event_hash e = h \<and> al_event_id e = py_strip event_id
    \<and> al_event_type e = ''upload.dead_letter_requeued'' \<and> al_resource_id e = Some (show_nat i)"
proof -
  obtain op rs where body: "requeue_body env i op rs max_attempts event_id current ob = Inr ((limit, h), ob')"
    and lim: "\<forall>m. max_attempts = Some m \<longrightarrow> 1 \<le> m \<and> m \<le> 100"
    using requeue_effect [OF assms(2)] by blast
  obtain row metadata audit where row: "row_of i (ob_rows ob) = Some row" "up_status row = UPLOAD_DEAD" "up_superseded_by row = None"
    and limit: "limit = (case max_attempts of None \<Rightarrow> up_max_attempts row | Some m \<Rightarrow> m)"
    and audit: "record_audit_event (qe_rt env) (requeue_event env row metadata op rs limit event_id) (ob_audit ob) = Inr (h, audit)"
    and ob': "ob' = ob\<lparr>ob_audit := audit, ob_rows := update_rows
         (\<lambda>r. up_id r = i \<and> up_status r = UPLOAD_DEAD \<and> up_superseded_by r = None)
         (requeue_row env limit current metadata) (ob_rows ob)\<rparr>"
    using requeue_body_Inr [OF body] by blast
  have id: "up_id row = i" "row \<in> set (ob_rows ob)" using row_of_SomeD [OF row(1)] by auto
  have "1 \<le> limit \<and> limit \<le> 100"
    using lim table_ok_row_ok [OF queue_reachable_table [OF assms(1)] id(2)] by (auto simp: limit row_ok_def split: option.splits)
  moreover have rows: "row_of j (ob_rows ob') = map_option (\<lambda>r. if up_id r = i \<and> up_status r = UPLOAD_DEAD
      \<and> up_superseded_by r = None then requeue_row env limit current metadata r else r) (row_of j (ob_rows ob))" for j
    by (simp add: ob' row_of_update requeue_row_def)
  moreover have "row_of j (ob_rows ob') = row_of j (ob_rows ob)" if "j \<noteq> i" for j
    using that row_of_SomeD [of j "ob_rows ob"] by (cases "row_of j (ob_rows ob)") (auto simp: rows)
  moreover have "py_strip ''upload.dead_letter_requeued'' = ''upload.dead_letter_requeued''" by code_simp
  ultimately show ?thesis
    using record_audit_event_fresh [OF audit] assms(3) row id
    by (auto simp: ob' requeue_event_def requeue_row_def row_identity_def)
qed

definition dead_demo :: outbox where
  "dead_demo = \<lparr> ob_rows = [(leased ''t3'' 160 0 result_row)\<lparr>up_status := UPLOAD_DEAD, up_next_attempt_at := 110,
     up_lease_token := None, up_leased_until := None, up_last_error := Some ''boom'', up_updated_at := ''t4''\<rparr>, status_row],
     ob_seq = 2, ob_audit = [] \<rparr>"

lemma dead_demo_run:
  "mark_upload_failed (upload_env ''t4'') 1 ''t30'' ''boom'' True None None (\<lambda>a b. a) 110 up3 = Inr (UPLOAD_DEAD, dead_demo)"
  by code_simp

lemma requeue_audited_concrete:
  "\<exists>limit h ob' r'. requeue_dead_upload (upload_env ''t5'') 1 ''op'' ''fixed'' (Some 5) ''ev1'' 120 dead_demo = Inr ((limit, h), ob')
    \<and> row_of 1 (ob_rows ob') = Some r' \<and> up_status r' = UPLOAD_PENDING \<and> length (ob_audit ob') = 1"
proof -
  have reach: "(queue_step (qe_rt (upload_env ''t5'')) True)\<^sup>*\<^sup>* empty_outbox dead_demo"
    using rtranclp.rtrancl_into_rtrancl [OF up_reachable(4) step_failed [OF dead_demo_run]] by (simp add: upload_env_def)
  have "\<not> isl (requeue_dead_upload (upload_env ''t5'') 1 ''op'' ''fixed'' (Some 5) ''ev1'' 120 dead_demo)" by code_simp
  then obtain limit h ob' where
      run: "requeue_dead_upload (upload_env ''t5'') 1 ''op'' ''fixed'' (Some 5) ''ev1'' 120 dead_demo = Inr ((limit, h), ob')"
    by (metis not_islD prod.exhaust)
  from requeue_audited [OF reach run] show ?thesis using run by (auto simp: dead_demo_def)
qed

end
