(* ===== verification/Url_Paths.thy ===== *)
theory Url_Paths
  imports Prelude
begin

text \<open>
  The validation of API paths of \<^verbatim>\<open>app/security/url_paths.py\<close>: the repeated percent decoding, the
  placeholders of route templates and the safety checks. The decoding of UTF-8 and the checks
  \<open>urlsplit\<close> makes on a bracketed or non-ASCII authority are parameters; bytes are characters.
\<close>

record url_env =
  ue_utf8 :: "string \<Rightarrow> string option"
  ue_netloc_ok :: "string \<Rightarrow> bool"

datatype path_error =
    PathError string
  | PlaceholderError string
  | UrlSyntaxError

section \<open>Percent decoding\<close>

definition hex_value :: "char \<Rightarrow> nat option" where
  "hex_value c = (let n = code_point c in
     if 48 \<le> n \<and> n \<le> 57 then Some (n - 48)
     else if 65 \<le> n \<and> n \<le> 70 then Some (n - 55)
     else if 97 \<le> n \<and> n \<le> 102 then Some (n - 87) else None)"

text \<open>The two hexadecimal digits at the head of a text.\<close>

definition hex_pair :: "string \<Rightarrow> nat option" where
  "hex_pair s = (case s of
     a # b # _ \<Rightarrow> (case (hex_value a, hex_value b) of (Some x, Some y) \<Rightarrow> Some (16 * x + y) | _ \<Rightarrow> None)
   | _ \<Rightarrow> None)"

text \<open>\<open>_INVALID_PERCENT_ESCAPE.search\<close>.\<close>

fun invalid_percent_escape :: "string \<Rightarrow> bool" where
  "invalid_percent_escape [] \<longleftrightarrow> False"
| "invalid_percent_escape (c # cs) \<longleftrightarrow> (c = CHR ''%'' \<and> hex_pair cs = None) \<or> invalid_percent_escape cs"

text \<open>\<open>urllib.parse.unquote\<close> decodes each maximal run of ASCII characters on its own.\<close>

fun unquote_to_bytes :: "string \<Rightarrow> string" where
  "unquote_to_bytes [] = []"
| "unquote_to_bytes (c # cs) =
    (if c = CHR ''%'' then
       (case hex_pair cs of
          Some n \<Rightarrow> char_of n # unquote_to_bytes (drop 2 cs)
        | None \<Rightarrow> c # unquote_to_bytes cs)
     else c # unquote_to_bytes cs)"

definition ascii :: "char \<Rightarrow> bool" where
  "ascii c \<longleftrightarrow> code_point c < 128"

function unquote_runs :: "url_env \<Rightarrow> string \<Rightarrow> string option" where
  "unquote_runs env [] = Some []"
| "unquote_runs env (c # cs) =
    (if ascii c then
       (case ue_utf8 env (unquote_to_bytes (takeWhile ascii (c # cs))) of
          None \<Rightarrow> None
        | Some decoded \<Rightarrow> map_option (\<lambda>rest. decoded @ rest) (unquote_runs env (dropWhile ascii (c # cs))))
     else map_option (\<lambda>rest. c # rest) (unquote_runs env cs))"
  by pat_completeness auto
termination
  by (relation "measure (\<lambda>(env, s). length s)") (auto simp: le_imp_less_Suc length_dropWhile_le)

definition unquote :: "url_env \<Rightarrow> string \<Rightarrow> string option" where
  "unquote env s = (if CHR ''%'' \<notin> set s then Some s else unquote_runs env s)"

text \<open>The loop of \<open>_fully_unquote\<close>, with its bound of \<open>len(value) + 1\<close> passes.\<close>

fun unquote_loop :: "url_env \<Rightarrow> nat \<Rightarrow> string \<Rightarrow> path_error + string" where
  "unquote_loop env 0 current = Inl (PathError ''API path percent encoding is too deeply nested'')"
| "unquote_loop env (Suc n) current =
    (if CHR ''%'' \<notin> set current then Inr current
     else if invalid_percent_escape current
     then Inl (PathError ''API path contains a malformed percent escape'')
     else (case unquote env current of
         None \<Rightarrow> Inl (PathError ''API path percent encoding is invalid'')
       | Some decoded \<Rightarrow> if decoded = current then Inr current else unquote_loop env n decoded))"

definition fully_unquote :: "url_env \<Rightarrow> string \<Rightarrow> path_error + string" where
  "fully_unquote env value = unquote_loop env (length value + 1) value"

section \<open>Texts\<close>

definition contains_unsafe_character :: "string \<Rightarrow> bool" where
  "contains_unsafe_character s \<longleftrightarrow>
    (\<exists>c \<in> set s. code_point c \<le> 32 \<or> code_point c = 127 \<or> 126 < code_point c)"

definition contains_control_or_non_ascii :: "string \<Rightarrow> bool" where
  "contains_control_or_non_ascii s \<longleftrightarrow>
    (\<exists>c \<in> set s. code_point c < 32 \<or> code_point c = 127 \<or> 126 < code_point c)"

text \<open>\<open>_PLACEHOLDER.findall\<close>: the names between braces, leftmost first, not overlapping.\<close>

definition brace :: "char \<Rightarrow> bool" where
  "brace c \<longleftrightarrow> c = CHR ''{'' \<or> c = CHR ''}''"

function placeholders :: "string \<Rightarrow> string list" where
  "placeholders [] = []"
| "placeholders (c # cs) =
    (let name = takeWhile (\<lambda>x. \<not> brace x) cs; rest = dropWhile (\<lambda>x. \<not> brace x) cs in
     if c = CHR ''{'' \<and> name \<noteq> [] \<and> rest \<noteq> [] \<and> hd rest = CHR ''}''
     then name # placeholders (tl rest)
     else placeholders cs)"
  by pat_completeness auto
termination
proof (relation "measure length")
  fix c :: char and cs name rest :: string
  assume "rest = dropWhile (\<lambda>x. \<not> brace x) cs"
  then have "length rest \<le> length cs" by (simp add: length_dropWhile_le)
  then show "(tl rest, c # cs) \<in> measure length" by (simp add: le_less_trans [OF diff_le_self])
qed auto

text \<open>\<open>str.replace(old, new)\<close>, every occurrence from the left; \<open>old\<close> is not empty.\<close>

function replace_all :: "string \<Rightarrow> string \<Rightarrow> string \<Rightarrow> string" where
  "replace_all old new [] = []"
| "replace_all old new (c # cs) =
    (if old \<noteq> [] \<and> take (length old) (c # cs) = old
     then new @ replace_all old new (drop (length old) (c # cs))
     else c # replace_all old new cs)"
  by pat_completeness auto
termination by (relation "measure (\<lambda>(old, new, s). length s)") auto

text \<open>The scheme and the authority that \<open>urlsplit\<close> finds, \<open>None\<close> where it raises \<open>ValueError\<close>.\<close>

definition scheme_char :: "char \<Rightarrow> bool" where
  "scheme_char c \<longleftrightarrow> (let n = code_point c in
     (97 \<le> n \<and> n \<le> 122) \<or> (65 \<le> n \<and> n \<le> 90) \<or> (48 \<le> n \<and> n \<le> 57) \<or> c \<in> set ''+-.'')"

definition url_scheme :: "string \<Rightarrow> string" where
  "url_scheme url =
    (let scheme = takeWhile (\<lambda>c. c \<noteq> CHR '':'') url in
     if scheme \<noteq> url \<and> scheme \<noteq> [] \<and> list_all scheme_char scheme \<and> hd scheme \<notin> set ''0123456789+-.''
     then scheme else [])"

definition urlsplit :: "url_env \<Rightarrow> string \<Rightarrow> (string \<times> string) option" where
  "urlsplit env value =
    (let url = filter (\<lambda>c. code_point c \<notin> {9, 10, 13}) (dropWhile (\<lambda>c. code_point c \<le> 32) value);
         scheme = url_scheme url;
         rest = (if scheme = [] then url else drop (length scheme + 1) url);
         netloc = (if starts_with ''//'' rest then takeWhile (\<lambda>c. c \<notin> set ''/?#'') (drop 2 rest) else [])
     in if (CHR ''['' \<in> set netloc) \<noteq> (CHR '']'' \<in> set netloc) \<or> \<not> ue_netloc_ok env netloc
        then None else Some (scheme, netloc))"

section \<open>Validation\<close>

definition dot_segment :: "string \<Rightarrow> bool" where
  "dot_segment path \<longleftrightarrow> (\<exists>segment \<in> set (split_on (CHR ''/'') path). segment = ''.'' \<or> segment = ''..'')"

text \<open>
  The condition of \<open>validate_api_path\<close>; the query and the fragment of \<open>urlsplit\<close> are empty where
  neither mark occurs.
\<close>

definition unsafe_path :: "bool \<Rightarrow> string \<Rightarrow> string \<Rightarrow> string \<times> string \<Rightarrow> bool" where
  "unsafe_path allow_encoded check_path decoded_path parsed \<longleftrightarrow>
     \<not> starts_with ''/'' check_path \<or> starts_with ''//'' check_path \<or> starts_with ''//'' decoded_path
     \<or> fst parsed \<noteq> [] \<or> snd parsed \<noteq> []
     \<or> CHR ''?'' \<in> set check_path \<or> CHR ''#'' \<in> set check_path
     \<or> CHR 0x5C \<in> set decoded_path \<or> CHR ''{'' \<in> set decoded_path \<or> CHR ''}'' \<in> set decoded_path
     \<or> contains_unsafe_character check_path \<or> contains_control_or_non_ascii decoded_path
     \<or> (\<not> allow_encoded \<and> (CHR ''?'' \<in> set decoded_path \<or> CHR ''#'' \<in> set decoded_path
          \<or> contains_unsafe_character decoded_path))
     \<or> dot_segment decoded_path"

definition validate_api_path ::
    "url_env \<Rightarrow> string list \<Rightarrow> nat \<Rightarrow> bool \<Rightarrow> string \<Rightarrow> path_error + string" where
  "validate_api_path env expected max_length allow_encoded value =
    (if \<not> (1 \<le> length value \<and> length value \<le> max_length) then Inl (PathError ''API path length is invalid'')
     else if set (placeholders value) \<noteq> set expected
       \<or> count_list value (CHR ''{'') \<noteq> length expected \<or> count_list value (CHR ''}'') \<noteq> length expected
     then Inl (PlaceholderError ''API path placeholders are invalid'')
     else ebind (fully_unquote env value) (\<lambda>fully_decoded.
       if expected \<noteq> [] \<and> set (placeholders fully_decoded) \<noteq> set expected
       then Inl (PlaceholderError ''API path placeholders are invalid'')
       else
         let check_path = fold (\<lambda>p. replace_all (''{'' @ p @ ''}'') ''validated-id'') expected value
         in ebind (fully_unquote env check_path) (\<lambda>decoded_path.
            case urlsplit env check_path of
              None \<Rightarrow> Inl UrlSyntaxError
            | Some parsed \<Rightarrow>
              if unsafe_path allow_encoded check_path decoded_path parsed
              then Inl (PathError ''API path is not a safe absolute path'')
              else Inr value)))"

definition validate_base_url_path :: "url_env \<Rightarrow> string \<Rightarrow> path_error + unit" where
  "validate_base_url_path env path =
    ebind (fully_unquote env path) (\<lambda>decoded_path.
      if CHR 0x5C \<in> set decoded_path \<or> CHR ''?'' \<in> set decoded_path \<or> CHR ''#'' \<in> set decoded_path
        \<or> CHR ''{'' \<in> set decoded_path \<or> CHR ''}'' \<in> set decoded_path
        \<or> contains_unsafe_character path \<or> contains_unsafe_character decoded_path
        \<or> starts_with ''//'' decoded_path \<or> dot_segment decoded_path
      then Inl (PathError ''cloud API base URL contains an invalid path'') else Inr ())"

section \<open>The decoding ends\<close>

text \<open>What UTF-8 promises: ASCII bytes stand for themselves, and no text is longer than its bytes.\<close>

definition utf8_ok :: "url_env \<Rightarrow> bool" where
  "utf8_ok env \<longleftrightarrow> (\<forall>b. list_all ascii b \<longrightarrow> ue_utf8 env b = Some b) \<and>
    (\<forall>b d. ue_utf8 env b = Some d \<longrightarrow> length d \<le> length b)"

lemma unquote_to_bytes_le: "length (unquote_to_bytes s) \<le> length s"
  by (induction s rule: unquote_to_bytes.induct) (auto split: option.splits)

lemma hex_pair_Some: "hex_pair s = Some n \<Longrightarrow> 2 \<le> length s"
  by (auto simp: hex_pair_def split: list.splits)

lemma unquote_to_bytes_less:
  "CHR ''%'' \<in> set s \<Longrightarrow> \<not> invalid_percent_escape s \<Longrightarrow> length (unquote_to_bytes s) < length s"
proof (induction s)
  case (Cons c cs)
  show ?case
  proof (cases "c = CHR ''%''")
    case True
    then obtain n where n: "hex_pair cs = Some n" using Cons.prems by auto
    have "length (unquote_to_bytes (drop 2 cs)) \<le> length cs - 2"
      using unquote_to_bytes_le [of "drop 2 cs"] by simp
    with True n hex_pair_Some [OF n] show ?thesis by simp
  next
    case False
    with Cons show ?thesis by simp
  qed
qed simp

lemma hex_pair_ascii: "hex_pair s = Some n \<Longrightarrow> hex_pair (takeWhile ascii s) = Some n"
proof -
  assume h: "hex_pair s = Some n"
  then obtain a b rest where s: "s = a # b # rest" by (auto simp: hex_pair_def split: list.splits)
  have "ascii c" if "hex_value c = Some k" for c k
    using that by (auto simp: hex_value_def ascii_def Let_def split: if_splits)
  then have "ascii a" "ascii b" using h by (auto simp: s hex_pair_def split: option.splits)
  with h show ?thesis by (simp add: s hex_pair_def)
qed

lemma invalid_percent_escape_take:
  "\<not> invalid_percent_escape s \<Longrightarrow> \<not> invalid_percent_escape (takeWhile ascii s)"
  by (induction s) (auto dest: hex_pair_ascii)

lemma invalid_percent_escape_drop:
  "\<not> invalid_percent_escape s \<Longrightarrow> \<not> invalid_percent_escape (dropWhile p s)"
  by (induction s) auto

lemma unquote_runs_length:
  "utf8_ok env \<Longrightarrow> unquote_runs env s = Some d \<Longrightarrow> \<not> invalid_percent_escape s \<Longrightarrow>
    length d \<le> length s \<and> (CHR ''%'' \<in> set s \<longrightarrow> length d < length s)"
proof (induction env s arbitrary: d rule: unquote_runs.induct)
  case (1 env)
  then show ?case by simp
next
  case (2 env c cs)
  let ?s = "c # cs"
  show ?case
  proof (cases "ascii c")
    case True
    let ?run = "takeWhile ascii ?s" and ?rest = "dropWhile ascii ?s"
    obtain b r where b: "ue_utf8 env (unquote_to_bytes ?run) = Some b" and r: "unquote_runs env ?rest = Some r"
      and d: "d = b @ r"
      using "2.prems"(2) True by (auto split: option.splits)
    have run: "\<not> invalid_percent_escape ?run" using invalid_percent_escape_take [OF "2.prems"(3)] .
    have rest: "length r \<le> length ?rest \<and> (CHR ''%'' \<in> set ?rest \<longrightarrow> length r < length ?rest)"
      using "2.IH"(1) [OF True b "2.prems"(1) r] invalid_percent_escape_drop [OF "2.prems"(3)] by blast
    have "length b \<le> length (unquote_to_bytes ?run)" using "2.prems"(1) b unfolding utf8_ok_def by blast
    then have head: "length b \<le> length ?run" "CHR ''%'' \<in> set ?run \<Longrightarrow> length b < length ?run"
      using unquote_to_bytes_le [of ?run] unquote_to_bytes_less [OF _ run] by linarith+
    have len: "length ?s = length ?run + length ?rest" by (metis length_append takeWhile_dropWhile_id)
    have sets: "set ?s = set ?run \<union> set ?rest" by (metis set_append takeWhile_dropWhile_id)
    have "length d < length ?s" if "CHR ''%'' \<in> set ?s"
    proof -
      from that have "CHR ''%'' \<in> set ?run \<or> CHR ''%'' \<in> set ?rest" by (simp only: sets Un_iff)
      then show ?thesis using head rest len unfolding d length_append by linarith
    qed
    moreover have "length d \<le> length ?s" using head(1) rest len unfolding d length_append by linarith
    ultimately show ?thesis by blast
  next
    case False
    then obtain r where r: "unquote_runs env cs = Some r" and d: "d = c # r" using "2.prems"(2) by auto
    have "c \<noteq> CHR ''%''" using False by (auto simp: ascii_def code_point_def)
    then show ?thesis using "2.IH"(2) [OF False "2.prems"(1) r] "2.prems"(3) by (auto simp: d)
  qed
qed

lemma unquote_less:
  "utf8_ok env \<Longrightarrow> unquote env s = Some d \<Longrightarrow> \<not> invalid_percent_escape s \<Longrightarrow> CHR ''%'' \<in> set s \<Longrightarrow> length d < length s"
  using unquote_runs_length [of env s d] by (simp add: unquote_def)

lemma unquote_loop_result:
  assumes "utf8_ok env"
  shows "length s < n \<Longrightarrow>
    (\<exists>d. unquote_loop env n s = Inr d \<and> CHR ''%'' \<notin> set d \<and> length d \<le> length s)
    \<or> unquote_loop env n s = Inl (PathError ''API path contains a malformed percent escape'')
    \<or> unquote_loop env n s = Inl (PathError ''API path percent encoding is invalid'')" (is "_ \<Longrightarrow> ?P n s")
proof (induction n arbitrary: s)
  case (Suc n)
  consider "CHR ''%'' \<notin> set s" | "invalid_percent_escape s" "CHR ''%'' \<in> set s"
    | d where "CHR ''%'' \<in> set s" "\<not> invalid_percent_escape s" "unquote env s = Some d"
    | "CHR ''%'' \<in> set s" "\<not> invalid_percent_escape s" "unquote env s = None" by blast
  then show ?case
  proof cases
    case (3 d)
    have "length d < length s" by (rule unquote_less [OF assms 3(3,2,1)])
    moreover from this have "unquote_loop env (Suc n) s = unquote_loop env n d" using 3 by auto
    moreover have "?P n d" by (rule Suc.IH) (use Suc.prems \<open>length d < length s\<close> in simp)
    ultimately show ?thesis by (metis le_less_trans less_imp_le_nat)
  qed simp_all
qed simp

text \<open>A decoded path is its own decoding: it has no percent sign left.\<close>

lemma fully_unquote_result:
  assumes "utf8_ok env" and "fully_unquote env s = Inr d"
  shows "CHR ''%'' \<notin> set d \<and> length d \<le> length s \<and> fully_unquote env d = Inr d"
  using unquote_loop_result [OF assms(1), of s "length s + 1"] assms(2) by (auto simp: fully_unquote_def)

end
