(* ===== verification/Transport_Client.thy ===== *)
theory Transport_Client
  imports Url_Paths Serialization
begin

text \<open>
  The HTTP client of \<^verbatim>\<open>app/transport/client.py\<close> and the failures of \<^verbatim>\<open>app/transport/errors.py\<close>: the
  checks of a request, its URL and headers, the bounded reading of a response and the retry loop. The
  executor, the inflater of zlib, the authentication provider and the two parsers of \<open>Retry-After\<close> are
  parameters. A request returns its result, the delays it slept, and the number of times it sent.
  Bytes are characters and seconds are rationals.
\<close>

section \<open>Failures\<close>

text \<open>\<open>PyException\<close> is an exception outside the taxonomy, by the name of its type.\<close>

datatype transport_error =
    TransportConfigurationError string
  | NetworkError string
  | TLSVerificationError string
  | ResponseTooLargeError string
  | ProtocolError string
  | CloudApiError int string bool "rat option"
  | AuthenticationError int string
  | UnreachableRetryState
  | PyException string

fun retryable :: "transport_error \<Rightarrow> bool" where
  "retryable (NetworkError _) = True"
| "retryable (TLSVerificationError _) = True"
| "retryable (CloudApiError _ _ r _) = r"
| "retryable (AuthenticationError _ _) = True"
| "retryable _ = False"

section \<open>Configuration\<close>

text \<open>The scheme, the authority and the path are those of the parsed \<open>base_url\<close>.\<close>

record client_config =
  cc_base_scheme :: string
  cc_base_netloc :: string
  cc_base_path :: string
  cc_timeout_seconds :: rat
  cc_connect_timeout_seconds :: "rat option"
  cc_read_timeout_seconds :: "rat option"
  cc_max_response_bytes :: int
  cc_max_request_bytes :: int
  cc_max_attempts :: int
  cc_backoff_base_seconds :: rat
  cc_backoff_max_seconds :: rat
  cc_jitter_ratio :: rat
  cc_compress_requests :: bool
  cc_compression_threshold_bytes :: int
  cc_user_agent :: string

definition validate_header_value :: "string \<Rightarrow> string \<Rightarrow> transport_error + string" where
  "validate_header_value value field =
    (if value = [] then Inl (TransportConfigurationError (field @ '' must be a non-empty string''))
     else if 16384 < length value \<or> (\<exists>c \<in> set value. code_point c < 32 \<or> code_point c = 127)
     then Inl (TransportConfigurationError (field @ '' contains invalid characters''))
     else Inr value)"

text \<open>The numeric checks of \<open>CloudApiConfig.__post_init__\<close>; a \<open>ValueError\<close> is given by its text.\<close>

definition check_config :: "client_config \<Rightarrow> string + unit" where
  "check_config c =
    (if cc_timeout_seconds c \<le> 0 then Inl ''timeout_seconds must be positive''
     else if (case cc_connect_timeout_seconds c of None \<Rightarrow> False | Some t \<Rightarrow> t \<le> 0)
     then Inl ''connect_timeout_seconds must be positive''
     else if (case cc_read_timeout_seconds c of None \<Rightarrow> False | Some t \<Rightarrow> t \<le> 0)
     then Inl ''read_timeout_seconds must be positive''
     else if \<not> (1 \<le> cc_max_response_bytes c \<and> cc_max_response_bytes c \<le> 536870912)
     then Inl ''max_response_bytes is outside the supported range''
     else if \<not> (1 \<le> cc_max_request_bytes c \<and> cc_max_request_bytes c \<le> 536870912)
     then Inl ''max_request_bytes is outside the supported range''
     else if \<not> (1 \<le> cc_max_attempts c \<and> cc_max_attempts c \<le> 10)
     then Inl ''max_attempts must be between 1 and 10''
     else if cc_backoff_base_seconds c \<le> 0 \<or> cc_backoff_max_seconds c < cc_backoff_base_seconds c
     then Inl ''invalid backoff bounds''
     else if \<not> (0 \<le> cc_jitter_ratio c \<and> cc_jitter_ratio c \<le> 1)
     then Inl ''jitter_ratio must be between 0 and 1''
     else if cc_compression_threshold_bytes c < 0
     then Inl ''compression_threshold_bytes cannot be negative''
     else case validate_header_value (cc_user_agent c) ''user_agent'' of
       Inl (TransportConfigurationError m) \<Rightarrow> Inl m | _ \<Rightarrow> Inr ())"

definition effective_connect_timeout :: "client_config \<Rightarrow> rat" where
  "effective_connect_timeout c = (case cc_connect_timeout_seconds c of
     Some t \<Rightarrow> if t = 0 then cc_timeout_seconds c else t | None \<Rightarrow> cc_timeout_seconds c)"

definition effective_read_timeout :: "client_config \<Rightarrow> rat" where
  "effective_read_timeout c = (case cc_read_timeout_seconds c of
     Some t \<Rightarrow> if t = 0 then cc_timeout_seconds c else t | None \<Rightarrow> cc_timeout_seconds c)"

section \<open>The services of one request\<close>

record http_response =
  hr_status_code :: int
  hr_headers :: "(string \<times> string) list"
  hr_body :: string

datatype send_result = Response http_response | SendFailed transport_error

record client_env =
  ce_paths :: url_env
  ce_uuid :: string
  ce_gzip :: "string \<Rightarrow> string"
  ce_inflate :: "string \<Rightarrow> int \<Rightarrow> (string \<times> bool) option"
  ce_inflate_flush :: "string \<Rightarrow> int \<Rightarrow> (string \<times> bool) option"
  ce_auth_headers :: "string \<Rightarrow> string \<Rightarrow> string \<Rightarrow> (string \<times> string) list"
  ce_parse_float :: "string \<Rightarrow> rat option"
  ce_http_date_delay :: "string \<Rightarrow> rat option"
  ce_draw :: "rat \<Rightarrow> rat \<Rightarrow> rat"
  ce_send :: "nat \<Rightarrow> string \<Rightarrow> string \<Rightarrow> (string \<times> string) list \<Rightarrow> string option \<Rightarrow> send_result"

section \<open>The URL of a request\<close>

text \<open>
  \<open>_url\<close>: an endpoint that passed the check has neither scheme, authority, query nor fragment, so
  that its path is the whole text. A \<open>ValueError\<close> of \<open>urlsplit\<close> is not caught.
\<close>

definition url_unsplit :: "string \<Rightarrow> string \<Rightarrow> string \<Rightarrow> string" where
  "url_unsplit scheme netloc path =
    (let url = (if netloc \<noteq> [] then ''//'' @ netloc @ (if path \<noteq> [] \<and> \<not> starts_with ''/'' path then ''/'' @ path else path)
        else path)
     in if scheme = [] then url else scheme @ '':'' @ url)"

definition rstrip_char :: "char \<Rightarrow> string \<Rightarrow> string" where
  "rstrip_char c s = rev (dropWhile (\<lambda>x. x = c) (rev s))"

definition client_url :: "url_env \<Rightarrow> client_config \<Rightarrow> string \<Rightarrow> transport_error + string" where
  "client_url paths c endpoint =
    (case validate_api_path paths [] 2048 True endpoint of
       Inl UrlSyntaxError \<Rightarrow> Inl (PyException ''ValueError'')
     | Inl _ \<Rightarrow> Inl (TransportConfigurationError ''API endpoint is not a safe absolute path'')
     | Inr _ \<Rightarrow> Inr (url_unsplit (cc_base_scheme c) (cc_base_netloc c) (rstrip_char (CHR ''/'') (cc_base_path c) @ endpoint)))"

text \<open>The routes, each with the placeholders of its template; the first bad route is reported.\<close>

definition route_templates :: "(string \<times> string list) list" where
  "route_templates = [(''credential_rotation_path_template'', [''endpoint_id'']),
     (''scan_lookup_path_template'', [''scan_id'']), (''next_scan_path_template'', [''endpoint_id''])]"

fun check_routes :: "url_env \<Rightarrow> (string \<times> string) list \<Rightarrow> transport_error + unit" where
  "check_routes paths [] = Inr ()"
| "check_routes paths ((name, route) # rest) =
    (case validate_api_path paths (case dict_get route_templates name of Some ps \<Rightarrow> ps | None \<Rightarrow> []) 2048 False route of
       Inl UrlSyntaxError \<Rightarrow> Inl (PyException ''ValueError'')
     | Inl (PlaceholderError _) \<Rightarrow>
         Inl (TransportConfigurationError (''cloud API route '' @ name @ '' has invalid placeholders''))
     | Inl (PathError _) \<Rightarrow>
         Inl (TransportConfigurationError (''cloud API route '' @ name @ '' is not a safe absolute path''))
     | Inr _ \<Rightarrow> check_routes paths rest)"

section \<open>Bounded reading\<close>

datatype read_chunk = Chunk string | Read_Timeout

text \<open>
  \<open>_read_bounded\<close>: \<open>reader k n\<close> is what the \<open>k\<close>-th read of at most \<open>n\<close> bytes gives, \<open>expired k\<close> whether
  the deadline has passed before it.
\<close>

function read_bounded ::
    "(nat \<Rightarrow> int \<Rightarrow> read_chunk) \<Rightarrow> (nat \<Rightarrow> bool) \<Rightarrow> int \<Rightarrow> nat \<Rightarrow> string \<Rightarrow> transport_error + string" where
  "read_bounded reader expired maximum k result =
    (if expired k then Inl (NetworkError ''cloud response read deadline exceeded'')
     else (case reader k (min 65536 (maximum + 1 - int (length result))) of
         Read_Timeout \<Rightarrow> Inl (NetworkError ''cloud response read timed out'')
       | Chunk c \<Rightarrow>
           if c = [] then Inr result
           else if maximum < int (length (result @ c))
           then Inl (ResponseTooLargeError (''cloud response exceeded the '' @ show_int maximum @ ''-byte limit''))
           else read_bounded reader expired maximum (k + 1) (result @ c)))"
  by pat_completeness auto
termination
  by (relation "measure (\<lambda>(reader, expired, maximum, k, result). nat (maximum + 1 - int (length result)))") auto

declare read_bounded.simps [simp del]

text \<open>\<open>_decode_gzip_bounded\<close>: the inflater gives its output and whether input is left over, then at the flush
  the rest and whether the stream has ended; \<open>None\<close> is a \<open>zlib.error\<close>.\<close>

definition decode_gzip_bounded :: "client_env \<Rightarrow> string \<Rightarrow> int \<Rightarrow> transport_error + string" where
  "decode_gzip_bounded env payload maximum =
    (let too_large = ResponseTooLargeError (''decompressed cloud response exceeded the '' @ show_int maximum @ ''-byte limit'');
         invalid = ProtocolError ''cloud API returned invalid gzip data''
     in case ce_inflate env payload (maximum + 1) of
          None \<Rightarrow> Inl invalid
        | Some (decoded, tail_left) \<Rightarrow>
          if maximum < int (length decoded) \<or> tail_left then Inl too_large
          else (case ce_inflate_flush env payload (maximum + 1 - int (length decoded)) of
              None \<Rightarrow> Inl invalid
            | Some (rest, eof) \<Rightarrow>
              if maximum < int (length (decoded @ rest)) then Inl too_large
              else if \<not> eof then Inl (ProtocolError ''cloud API returned truncated gzip data'')
              else Inr (decoded @ rest)))"

section \<open>The headers of a request\<close>

definition idempotent_methods :: "string list" where
  "idempotent_methods = [''GET'', ''HEAD'', ''OPTIONS'', ''PUT'', ''DELETE'']"

definition retryable_statuses :: "int list" where
  "retryable_statuses = [408, 425, 429, 500, 502, 503, 504]"

definition reserved_headers :: "string list" where
  "reserved_headers = [''authorization'', ''host'', ''content-length'', ''transfer-encoding'', ''x-request-id'',
     ''idempotency-key'', ''accept-encoding'', ''content-encoding'']"

definition header_name_char :: "char \<Rightarrow> bool" where
  "header_name_char c \<longleftrightarrow> (let n = code_point c in
     (48 \<le> n \<and> n \<le> 57) \<or> (65 \<le> n \<and> n \<le> 90) \<or> (97 \<le> n \<and> n \<le> 122) \<or> c \<in> set ''!#$%&*+.^_|~-''
     \<or> n = 39 \<or> n = 96)"

definition header_name_ok :: "string \<Rightarrow> bool" where
  "header_name_ok name \<longleftrightarrow> name \<noteq> [] \<and> list_all header_name_char name"

definition request_identifier :: "client_env \<Rightarrow> string option \<Rightarrow> string \<Rightarrow> transport_error + string" where
  "request_identifier env value field =
    (let candidate = (case value of Some v \<Rightarrow> if v = [] then ce_uuid env else v | None \<Rightarrow> ce_uuid env) in
     if 256 < length candidate \<or> candidate = [] \<or> (\<exists>c \<in> set candidate. code_point c < 33 \<or> code_point c = 127)
     then Inl (TransportConfigurationError (field @ '' contains invalid characters''))
     else Inr candidate)"

text \<open>The caller's headers, then those of the authentication provider.\<close>

fun add_headers :: "(string \<times> string) list \<Rightarrow> (string \<times> string) list \<Rightarrow> transport_error + (string \<times> string) list" where
  "add_headers [] result = Inr result"
| "add_headers ((name, value) # hs) result =
    (if \<not> header_name_ok name then Inl (TransportConfigurationError ''request contains an invalid header name'')
     else if py_lower name \<in> set reserved_headers
     then Inl (TransportConfigurationError (''request cannot override reserved header '' @ name))
     else ebind (validate_header_value value (''header '' @ name)) (\<lambda>v. add_headers hs (dict_set name v result)))"

fun add_auth_headers :: "(string \<times> string) list \<Rightarrow> (string \<times> string) list \<Rightarrow> transport_error + (string \<times> string) list" where
  "add_auth_headers [] result = Inr result"
| "add_auth_headers ((name, value) # hs) result =
    (if py_lower name \<notin> {''authorization'', ''x-api-key''} \<or> \<not> header_name_ok name
     then Inl (TransportConfigurationError ''authentication provider returned an unsafe header'')
     else ebind (validate_header_value value ''authentication header'') (\<lambda>v. add_auth_headers hs (dict_set name v result)))"

definition request_headers ::
    "client_config \<Rightarrow> client_env \<Rightarrow> string \<Rightarrow> string \<Rightarrow> string \<Rightarrow> string option \<Rightarrow> string option \<Rightarrow>
     string option \<Rightarrow> (string \<times> string) list \<Rightarrow> transport_error + (string \<times> string) list" where
  "request_headers c env verb url request_id idempotency_key content_type content_encoding headers =
    (let base = [(''Accept'', ''application/json''), (''Accept-Encoding'', ''gzip''),
        (''User-Agent'', cc_user_agent c), (''X-Request-ID'', request_id)]
     in ebind (case content_type of
          Some t \<Rightarrow> if t = [] then Inr base
            else ebind (validate_header_value t ''content_type'') (\<lambda>v. Inr (dict_set ''Content-Type'' v base))
        | None \<Rightarrow> Inr base) (\<lambda>result.
        let result = (case content_encoding of Some e \<Rightarrow> dict_set ''Content-Encoding'' e result | None \<Rightarrow> result);
            result = (case idempotency_key of Some k \<Rightarrow> dict_set ''Idempotency-Key'' k result | None \<Rightarrow> result)
        in ebind (add_headers headers result) (\<lambda>result.
           add_auth_headers (ce_auth_headers env verb url request_id) result)))"

section \<open>The retry loop\<close>

definition client_retry_delay :: "client_config \<Rightarrow> (rat \<Rightarrow> rat \<Rightarrow> rat) \<Rightarrow> int \<Rightarrow> rat option \<Rightarrow> rat" where
  "client_retry_delay c draw attempt retry_after =
    (case retry_after of
       Some s \<Rightarrow> min (cc_backoff_max_seconds c) (max 0 s)
     | None \<Rightarrow>
       let base = min (cc_backoff_max_seconds c) (cc_backoff_base_seconds c * 2 ^ nat (min (attempt - 1) 16));
           jitter = base * cc_jitter_ratio c
       in max 0 (min (cc_backoff_max_seconds c) (base + draw (- jitter) jitter)))"

definition response_retry_after :: "client_env \<Rightarrow> (string \<times> string) list \<Rightarrow> rat option" where
  "response_retry_after env headers =
    (case find (\<lambda>kv. py_lower (fst kv) = ''retry-after'') headers of
       None \<Rightarrow> None
     | Some (_, value) \<Rightarrow>
       if value = [] then None
       else (case ce_parse_float env value of
           Some s \<Rightarrow> Some (max 0 s)
         | None \<Rightarrow> map_option (max 0) (ce_http_date_delay env value)))"

definition normalized_headers :: "http_response \<Rightarrow> (string \<times> string) list" where
  "normalized_headers r = dict_update [] (map (\<lambda>kv. (py_lower (fst kv), snd kv)) (hr_headers r))"

definition response_body :: "client_config \<Rightarrow> client_env \<Rightarrow> http_response \<Rightarrow> transport_error + string" where
  "response_body c env r =
    (let encoding = py_strip (py_lower (case dict_get (normalized_headers r) ''content-encoding'' of
           None \<Rightarrow> ''identity'' | Some e \<Rightarrow> e))
     in ebind (if encoding \<in> {[], ''identity''} then Inr (hr_body r)
         else if encoding = ''gzip'' then decode_gzip_bounded env (hr_body r) (cc_max_response_bytes c)
         else Inl (ProtocolError (''cloud API returned unsupported content encoding: '' @ encoding))) (\<lambda>decoded.
         if cc_max_response_bytes c < int (length decoded)
         then Inl (ResponseTooLargeError ''cloud response exceeded configured size limit'')
         else Inr decoded))"

text \<open>The judgement of one response: the decoded body of a success, or the failure to raise.\<close>

definition judge_response ::
    "client_config \<Rightarrow> client_env \<Rightarrow> string \<Rightarrow> http_response \<Rightarrow> transport_error + http_response" where
  "judge_response c env request_id r =
    ebind (response_body c env r) (\<lambda>decoded.
    if 200 \<le> hr_status_code r \<and> hr_status_code r < 300
    then Inr \<lparr>hr_status_code = hr_status_code r, hr_headers = normalized_headers r, hr_body = decoded\<rparr>
    else if hr_status_code r \<in> {401, 403} then Inl (AuthenticationError (hr_status_code r) request_id)
    else Inl (CloudApiError (hr_status_code r) request_id (hr_status_code r \<in> set retryable_statuses)
       (response_retry_after env (normalized_headers r))))"

text \<open>Only a failed send and a retryable status are tried again, within the attempts.\<close>

definition retry_of :: "transport_error + http_response \<Rightarrow> send_result \<Rightarrow> (bool \<times> rat option)" where
  "retry_of verdict sent =
    (case sent of
       SendFailed e \<Rightarrow> (retryable e, None)
     | Response _ \<Rightarrow> (case verdict of Inl (CloudApiError _ _ r after) \<Rightarrow> (r, after) | _ \<Rightarrow> (False, None)))"

definition attempt_verdict :: "client_config \<Rightarrow> client_env \<Rightarrow> string \<Rightarrow> send_result \<Rightarrow> transport_error + http_response" where
  "attempt_verdict c env request_id sent =
    (case sent of SendFailed e \<Rightarrow> Inl e | Response r \<Rightarrow> judge_response c env request_id r)"

fun request_loop ::
    "client_config \<Rightarrow> client_env \<Rightarrow> (nat \<Rightarrow> send_result) \<Rightarrow> string \<Rightarrow> bool \<Rightarrow> nat \<Rightarrow> nat \<Rightarrow>
     (transport_error + http_response) \<times> rat list \<times> nat" where
  "request_loop c env send request_id retry_allowed attempt 0 = (Inl UnreachableRetryState, [], 0)"
| "request_loop c env send request_id retry_allowed attempt (Suc left) =
    (let sent = send attempt;
         verdict = attempt_verdict c env request_id sent
     in case retry_of verdict sent of (again, after) \<Rightarrow>
       if again \<and> retry_allowed \<and> left \<noteq> 0
       then (case request_loop c env send request_id retry_allowed (attempt + 1) left of
           (result, sleeps, sends) \<Rightarrow>
             (result, client_retry_delay c (ce_draw env) (int attempt) after # sleeps, sends + 1))
       else (verdict, [], 1))"

definition request ::
    "client_config \<Rightarrow> client_env \<Rightarrow> string \<Rightarrow> string \<Rightarrow> string option \<Rightarrow> string option \<Rightarrow> (string \<times> string) list \<Rightarrow>
     string option \<Rightarrow> string option \<Rightarrow> (transport_error + http_response) \<times> rat list \<times> nat" where
  "request c env verb endpoint body content_type headers idempotency_key request_id =
    (let verb = map upper_char verb;
         prepared =
           (if verb \<notin> {''GET'', ''HEAD'', ''OPTIONS'', ''POST'', ''PUT'', ''PATCH'', ''DELETE''}
            then Inl (TransportConfigurationError ''unsupported HTTP method'')
            else ebind (client_url (ce_paths env) c endpoint) (\<lambda>url.
            ebind (request_identifier env request_id ''request_id'') (\<lambda>rid.
            ebind (case idempotency_key of None \<Rightarrow> Inr None
                   | Some k \<Rightarrow> ebind (request_identifier env (Some k) ''idempotency_key'') (\<lambda>k. Inr (Some k))) (\<lambda>key.
            if (case body of None \<Rightarrow> False | Some b \<Rightarrow> cc_max_request_bytes c < int (length b))
            then Inl (TransportConfigurationError ''request body exceeds configured size limit'')
            else
              let compressed = (case body of None \<Rightarrow> False
                    | Some b \<Rightarrow> cc_compress_requests c \<and> cc_compression_threshold_bytes c \<le> int (length b));
                  wire = (if compressed then map_option (ce_gzip env) body else body)
              in ebind (request_headers c env verb url rid key content_type
                   (if compressed then Some ''gzip'' else None) headers) (\<lambda>hs. Inr (url, rid, key, wire, hs))))))
     in case prepared of
          Inl e \<Rightarrow> (Inl e, [], 0)
        | Inr (url, rid, key, wire, hs) \<Rightarrow>
          request_loop c env (\<lambda>n. ce_send env n verb url hs wire) rid
            (verb \<in> set idempotent_methods \<or> key \<noteq> None) 1 (nat (cc_max_attempts c)))"

section \<open>Bounds\<close>

lemma client_retry_delay_bounds:
  "0 \<le> cc_backoff_max_seconds c \<Longrightarrow>
    0 \<le> client_retry_delay c draw n after \<and> client_retry_delay c draw n after \<le> cc_backoff_max_seconds c"
  by (auto simp: client_retry_delay_def Let_def split: option.split)

lemma request_loop_bounds:
  assumes "0 \<le> cc_backoff_max_seconds c"
  shows "request_loop c env send rid allowed attempt left = (result, sleeps, sends) \<Longrightarrow>
    sends \<le> left \<and> length sleeps = sends - 1 \<and> (\<forall>d \<in> set sleeps. 0 \<le> d \<and> d \<le> cc_backoff_max_seconds c)
    \<and> (\<not> allowed \<longrightarrow> sends \<le> 1) \<and> (0 < left \<longrightarrow> 0 < sends)"
proof (induction left arbitrary: attempt result sleeps sends)
  case (Suc left)
  obtain again after where again: "retry_of (attempt_verdict c env rid (send attempt)) (send attempt) = (again, after)"
    by fastforce
  show ?case
  proof (cases "again \<and> allowed \<and> left \<noteq> 0")
    case True
    obtain result' sleeps' sends' where rest: "request_loop c env send rid allowed (attempt + 1) left = (result', sleeps', sends')"
      by (cases "request_loop c env send rid allowed (attempt + 1) left") auto
    have "result = result'" "sleeps = client_retry_delay c (ce_draw env) (int attempt) after # sleeps'" "sends = sends' + 1"
      using Suc.prems True rest again by (simp_all add: Let_def)
    then show ?thesis using Suc.IH [OF rest] True client_retry_delay_bounds [OF assms] by auto
  next
    case False
    then show ?thesis using Suc.prems again by (auto simp: Let_def)
  qed
qed simp

lemma sum_list_bound: "\<forall>d \<in> set ds. d \<le> (b :: rat) \<Longrightarrow> sum_list ds \<le> of_nat (length ds) * b"
  by (induction ds) (auto simp: algebra_simps)


text \<open>The loop returns the verdict on its last send; the sends before it failed in a retryable way.\<close>

definition attempt_retryable :: "client_config \<Rightarrow> client_env \<Rightarrow> string \<Rightarrow> send_result \<Rightarrow> bool" where
  "attempt_retryable c env rid sent \<longleftrightarrow> fst (retry_of (attempt_verdict c env rid sent) sent)"

lemma request_loop_outcome:
  assumes "request_loop c env send rid allowed attempt left = (result, sleeps, sends)" and "0 < left"
  shows "0 < sends \<and> sends \<le> left \<and> result = attempt_verdict c env rid (send (attempt + sends - 1))
    \<and> (\<forall>k < sends - 1. attempt_retryable c env rid (send (attempt + k)))
    \<and> (sends < left \<longrightarrow> \<not> (allowed \<and> attempt_retryable c env rid (send (attempt + sends - 1))))"
  using assms
proof (induction left arbitrary: attempt result sleeps sends)
  case (Suc left)
  let ?again = "attempt_retryable c env rid (send attempt)"
  show ?case
  proof (cases "?again \<and> allowed \<and> left \<noteq> 0")
    case True
    obtain sleeps' sends' where rest: "request_loop c env send rid allowed (attempt + 1) left = (result, sleeps', sends')"
      and sends: "sends = sends' + 1"
      using Suc.prems(1) True by (auto simp: attempt_retryable_def Let_def split: prod.splits)
    note IH = Suc.IH [OF rest]
    have "attempt_retryable c env rid (send (attempt + k))" if "k < sends'" for k
      using True IH that by (cases k) auto
    with IH True show ?thesis by (auto simp: sends)
  next
    case False
    then have "result = attempt_verdict c env rid (send attempt)" "sends = 1"
      using Suc.prems(1) by (auto simp: attempt_retryable_def Let_def split: prod.splits)
    with False show ?thesis by auto
  qed
qed simp

lemma check_config_bounds:
  assumes "check_config c = Inr ()"
  shows "1 \<le> cc_max_attempts c" "0 < effective_connect_timeout c" "0 < effective_read_timeout c" "0 < cc_backoff_max_seconds c"
  using assms
  by (auto simp: check_config_def effective_connect_timeout_def effective_read_timeout_def
      split: if_splits option.splits)

lemma request_bounds:
  assumes c: "check_config c = Inr ()"
    and r: "request c env verb endpoint body content_type headers key rid = (result, sleeps, sends)"
  shows "int sends \<le> cc_max_attempts c \<and> sum_list sleeps \<le> of_int (max 0 (int sends - 1)) * cc_backoff_max_seconds c"
proof -
  note bounds = check_config_bounds [OF c]
  consider "sleeps = []" "sends = 0"
    | send rid' allowed where "request_loop c env send rid' allowed 1 (nat (cc_max_attempts c)) = (result, sleeps, sends)"
    using r by (auto simp: request_def Let_def split: sum.splits)
  then show ?thesis
  proof cases
    case 1
    with bounds(1) show ?thesis by simp
  next
    case 2
    have l: "sends \<le> nat (cc_max_attempts c)" "length sleeps = sends - 1" "\<forall>d \<in> set sleeps. d \<le> cc_backoff_max_seconds c"
      using request_loop_bounds [OF less_imp_le [OF bounds(4)] 2] by auto
    have "of_nat (sends - 1) = (of_int (max 0 (int sends - 1)) :: rat)" by (cases sends) auto
    with sum_list_bound [OF l(3)] l(1,2) bounds(1) show ?thesis by auto
  qed
qed

section \<open>The reader\<close>

lemma read_bounded_le:
  "read_bounded reader expired maximum k acc = Inr r \<Longrightarrow> int (length acc) \<le> maximum \<Longrightarrow>
    int (length r) \<le> maximum \<and> (\<exists>rest. r = acc @ rest)"
proof (induction reader expired maximum k acc rule: read_bounded.induct)
  case (1 reader expired maximum k acc)
  from "1.prems"(1) have live: "\<not> expired k" by (subst (asm) read_bounded.simps) (simp split: if_splits)
  let ?n = "min 65536 (maximum + 1 - int (length acc))"
  show ?case
  proof (cases "reader k ?n")
    case Read_Timeout
    with "1.prems" live show ?thesis by (subst (asm) (1) read_bounded.simps) simp
  next
    case (Chunk c)
    show ?thesis
    proof (cases "c = [] \<or> maximum < int (length (acc @ c))")
      case True
      then show ?thesis using "1.prems" live Chunk by (subst (asm) (1) read_bounded.simps) (auto split: if_splits)
    next
      case False
      have "read_bounded reader expired maximum (k + 1) (acc @ c) = Inr r"
        using "1.prems"(1) live Chunk False by (subst (asm) read_bounded.simps) simp
      with "1.IH" [OF live Chunk] False show ?thesis by fastforce
    qed
  qed
qed

text \<open>Only the first \<open>maximum + 2\<close> reads matter: the loop asks for no further one.\<close>

lemma read_bounded_cong:
  "\<forall>i < k + nat (maximum + 2 - int (length acc)). reader i = reader' i \<and> expired i = expired' i \<Longrightarrow>
    int (length acc) \<le> maximum \<Longrightarrow> read_bounded reader expired maximum k acc = read_bounded reader' expired' maximum k acc"
proof (induction reader expired maximum k acc rule: read_bounded.induct)
  case (1 reader expired maximum k acc)
  let ?n = "min 65536 (maximum + 1 - int (length acc))"
  have same: "reader k = reader' k" "expired k = expired' k" using "1.prems" by auto
  have "read_bounded reader expired maximum (k + 1) (acc @ c) = read_bounded reader' expired' maximum (k + 1) (acc @ c)"
    if "\<not> expired k" "reader k ?n = Chunk c" "c \<noteq> []" "\<not> maximum < int (length (acc @ c))" for c
  proof (rule "1.IH" [OF that])
    have "k + 1 + nat (maximum + 2 - int (length (acc @ c))) \<le> k + nat (maximum + 2 - int (length acc))"
      using that(3,4) by (cases c) auto
    then show "\<forall>i < k + 1 + nat (maximum + 2 - int (length (acc @ c))). reader i = reader' i \<and> expired i = expired' i"
      using "1.prems"(1) by auto
    show "int (length (acc @ c)) \<le> maximum" using that(4) by simp
  qed
  with same show ?case
    by (subst (1 2) read_bounded.simps) (auto split: read_chunk.split)
qed

section \<open>The URL\<close>

lemma validate_api_path_safe:
  assumes "validate_api_path paths [] limit allow endpoint = Inr v"
  shows "v = endpoint \<and> starts_with ''/'' endpoint \<and> \<not> starts_with ''//'' endpoint
    \<and> \<not> contains_unsafe_character endpoint \<and> CHR ''?'' \<notin> set endpoint \<and> CHR ''#'' \<notin> set endpoint
    \<and> (\<exists>d. fully_unquote paths endpoint = Inr d \<and> \<not> dot_segment d \<and> \<not> starts_with ''//'' d
         \<and> \<not> contains_control_or_non_ascii d \<and> CHR 0x5C \<notin> set d \<and> CHR ''{'' \<notin> set d \<and> CHR ''}'' \<notin> set d)"
  using assms by (auto simp: validate_api_path_def unsafe_path_def ebind_Inr_iff Let_def split: if_splits option.splits)

lemma client_url_Inr:
  assumes "client_url paths c endpoint = Inr url"
  shows "validate_api_path paths [] 2048 True endpoint = Inr endpoint"
    and "url = url_unsplit (cc_base_scheme c) (cc_base_netloc c) (rstrip_char (CHR ''/'') (cc_base_path c) @ endpoint)"
  using assms validate_api_path_safe by (auto simp: client_url_def split: sum.splits path_error.splits)

lemma url_unsplit_origin:
  "scheme \<noteq> [] \<Longrightarrow> netloc \<noteq> [] \<Longrightarrow> path \<noteq> [] \<Longrightarrow>
    url_unsplit scheme netloc path = scheme @ ''://'' @ netloc @ (if starts_with ''/'' path then path else ''/'' @ path)"
  by (simp add: url_unsplit_def)

end
