(* ===== verification/Upload_Worker.thy ===== *)
theory Upload_Worker
  imports Upload_Steps Transport_Client
begin

text \<open>
  The worker of \<^verbatim>\<open>app/transport/worker.py\<close> that drains the upload queue: one lease, one request, one
  outcome at a time. The services of the client and of the queue and the clock are given per iteration;
  the metrics and the log, whose failures the code suppresses, are left out. A run that raises
  keeps the transactions it committed.
\<close>

datatype delivery = Delivered | Refused transport_error | Crashed string

record worker_env =
  we_queue :: "nat \<Rightarrow> queue_env"
  we_claim_clock :: "nat \<Rightarrow> rat"
  we_outcome_clock :: "nat \<Rightarrow> rat"
  we_client :: "nat \<Rightarrow> client_env"
  we_encode :: "string \<Rightarrow> string"
  we_snapshots :: "string \<Rightarrow> snapshot_row option"
  we_request_id :: "nat \<Rightarrow> string"
  we_policy :: retry_policy
  we_draw :: "rat \<Rightarrow> rat \<Rightarrow> rat"
  we_lease_seconds :: rat
  we_config :: client_config

record upload_run_stats =
  us_claimed :: nat
  us_succeeded :: nat
  us_retried :: nat
  us_dead :: nat

section \<open>Failures of a request\<close>

definition is_cloud_api_error :: "transport_error \<Rightarrow> bool" where
  "is_cloud_api_error e \<longleftrightarrow> (case e of CloudApiError _ _ _ _ \<Rightarrow> True | AuthenticationError _ _ \<Rightarrow> True | _ \<Rightarrow> False)"

definition http_text :: "int \<Rightarrow> string \<Rightarrow> string" where
  "http_text status rid = ''cloud API returned HTTP '' @ show_int status @ '' (request '' @ rid @ '')''"

fun error_text :: "transport_error \<Rightarrow> string" where
  "error_text (TransportConfigurationError m) = m"
| "error_text (NetworkError m) = m"
| "error_text (TLSVerificationError m) = m"
| "error_text (ResponseTooLargeError m) = m"
| "error_text (ProtocolError m) = m"
| "error_text (CloudApiError status rid _ _) = http_text status rid"
| "error_text (AuthenticationError status rid) = http_text status rid"
| "error_text _ = []"

fun error_status :: "transport_error \<Rightarrow> int option" where
  "error_status (CloudApiError status _ _ _) = Some status"
| "error_status (AuthenticationError status _) = Some status"
| "error_status _ = None"

fun error_retry_after :: "transport_error \<Rightarrow> rat option" where
  "error_retry_after (CloudApiError _ _ _ after) = after"
| "error_retry_after _ = None"

text \<open>The subclasses of \<open>StorageError\<close>, and their texts.\<close>

definition is_storage_error :: "storage_error \<Rightarrow> bool" where
  "is_storage_error e \<longleftrightarrow> (case e of StorageError _ \<Rightarrow> True | IdempotencyConflictError _ \<Rightarrow> True | _ \<Rightarrow> False)"

definition storage_text :: "storage_error \<Rightarrow> string" where
  "storage_text e = (case e of StorageError m \<Rightarrow> m | IdempotencyConflictError m \<Rightarrow> m | IntegrityError m \<Rightarrow> m | PyErr _ \<Rightarrow> [])"

section \<open>The request of an upload\<close>

definition body_bytes :: "worker_env \<Rightarrow> nat \<Rightarrow> upload_body \<Rightarrow> string" where
  "body_bytes we n body = (case body of
     JsonBody v \<Rightarrow> we_encode we (dumps (qe_rt (we_queue we n)) v) | RawBody b \<Rightarrow> b)"

definition delivery_of :: "transport_error + http_response \<Rightarrow> delivery" where
  "delivery_of result = (case result of
     Inr _ \<Rightarrow> Delivered
   | Inl UnreachableRetryState \<Rightarrow> Crashed ''AssertionError''
   | Inl (PyException type_name) \<Rightarrow> Crashed type_name
   | Inl e \<Rightarrow> Refused e)"

definition send_upload :: "worker_env \<Rightarrow> nat \<Rightarrow> upload_row \<Rightarrow> (transport_error + http_response) \<times> rat list \<times> nat" where
  "send_upload we n upload =
    request (we_config we) (we_client we n) (up_method upload) (up_endpoint upload)
      (Some (body_bytes we n (up_payload upload))) (Some (up_content_type upload)) []
      (Some (up_idempotency_key upload)) (Some (up_request_id upload))"

definition deliver :: "worker_env \<Rightarrow> nat \<Rightarrow> upload_row \<Rightarrow> delivery" where
  "deliver we n upload = delivery_of (fst (send_upload we n upload))"

section \<open>One iteration\<close>

text \<open>\<open>_effective_lease_seconds\<close>.\<close>

definition request_budget :: "client_config \<Rightarrow> rat" where
  "request_budget c = of_int (cc_max_attempts c) * (effective_connect_timeout c + effective_read_timeout c)
     + of_int (max 0 (cc_max_attempts c - 1)) * cc_backoff_max_seconds c + 5"

definition effective_lease_seconds :: "worker_env \<Rightarrow> storage_error + rat" where
  "effective_lease_seconds we =
    (let lease = max (we_lease_seconds we) (request_budget (we_config we)) in
     if \<not> (1 \<le> lease \<and> lease \<le> 86400)
     then Inl (PyErr (ValueError ''upload request retry budget exceeds the maximum queue lease''))
     else Inr lease)"

datatype attempt_outcome = Attempt_Succeeded | Attempt_Lost | Attempt_Retried | Attempt_Dead

definition lease_token_of :: "upload_row \<Rightarrow> string" where
  "lease_token_of upload = (case up_lease_token upload of Some t \<Rightarrow> t | None \<Rightarrow> [])"

definition fail_upload ::
    "worker_env \<Rightarrow> nat \<Rightarrow> upload_row \<Rightarrow> string \<Rightarrow> bool \<Rightarrow> rat option \<Rightarrow> outbox \<Rightarrow> storage_error + (attempt_outcome \<times> outbox)" where
  "fail_upload we n upload text permanent retry_after ob =
    ebind (mark_upload_failed (we_queue we n) (up_id upload) (lease_token_of upload) text permanent
        retry_after (Some (we_policy we)) (we_draw we) (we_outcome_clock we n) ob)
      (\<lambda>(status, ob). Inr (if status = UPLOAD_DEAD then Attempt_Dead else Attempt_Retried, ob))"

text \<open>
  The handler of a \<open>409\<close> or \<open>412\<close>: the upload is replaced by a full resynchronisation, or is dead
  where the storage refuses that; another exception of the storage leaves the handler.
\<close>

definition rebase_upload :: "worker_env \<Rightarrow> nat \<Rightarrow> upload_row \<Rightarrow> string \<Rightarrow> outbox \<Rightarrow> storage_error + (attempt_outcome \<times> outbox)" where
  "rebase_upload we n upload text ob =
    (case schedule_full_resync (we_queue we n) (we_snapshots we) (up_id upload) (lease_token_of upload) text
        (we_request_id we n) (we_outcome_clock we n) ob of
       Inr (_, ob') \<Rightarrow> Inr (Attempt_Retried, ob')
     | Inl e \<Rightarrow> if is_storage_error e then fail_upload we n upload (storage_text e) True None ob else Inl e)"

definition finish_upload :: "worker_env \<Rightarrow> nat \<Rightarrow> upload_row \<Rightarrow> delivery \<Rightarrow> outbox \<Rightarrow> storage_error + (attempt_outcome \<times> outbox)" where
  "finish_upload we n upload outcome ob =
    (case outcome of
       Delivered \<Rightarrow>
         ebind (mark_upload_succeeded (we_queue we n) (up_id upload) (lease_token_of upload) (qe_now_text (we_queue we n)) ob)
           (\<lambda>(marked, ob'). Inr (if marked then Attempt_Succeeded else Attempt_Lost, ob'))
     | Refused e \<Rightarrow>
         if is_cloud_api_error e
           \<and> (error_status e = Some 409 \<or> error_status e = Some 412)
           \<and> \<not> truthy (jget ''causal_recovery'' (metadata_obj upload))
         then rebase_upload we n upload (error_text e) ob
         else fail_upload we n upload (error_text e) (\<not> retryable e) (error_retry_after e) ob
     | Crashed type_name \<Rightarrow> fail_upload we n upload type_name False None ob)"

definition count_outcome :: "attempt_outcome \<Rightarrow> upload_run_stats \<Rightarrow> upload_run_stats" where
  "count_outcome r st =
    (case r of
       Attempt_Succeeded \<Rightarrow> st\<lparr>us_succeeded := us_succeeded st + 1\<rparr>
     | Attempt_Lost \<Rightarrow> st
     | Attempt_Retried \<Rightarrow> st\<lparr>us_retried := us_retried st + 1\<rparr>
     | Attempt_Dead \<Rightarrow> st\<lparr>us_dead := us_dead st + 1\<rparr>)"

section \<open>The run\<close>

text \<open>The loop \<open>while claimed < limit\<close>: \<open>n\<close> uploads were claimed, \<open>left\<close> may still be.\<close>

fun drain :: "worker_env \<Rightarrow> rat \<Rightarrow> nat \<Rightarrow> nat \<Rightarrow> upload_run_stats \<Rightarrow> outbox \<Rightarrow> (storage_error + upload_run_stats) \<times> outbox" where
  "drain we lease n 0 st ob = (Inr st, ob)"
| "drain we lease n (Suc left) st ob =
    (case claim_uploads (we_queue we n) 1 lease (we_claim_clock we n) ob of
       Inl e \<Rightarrow> (Inl e, ob)
     | Inr ([], ob1) \<Rightarrow> (Inr st, ob1)
     | Inr (upload # _, ob1) \<Rightarrow>
       (case finish_upload we n upload (deliver we n upload) ob1 of
          Inl e \<Rightarrow> (Inl e, ob1)
        | Inr (r, ob2) \<Rightarrow> drain we lease (n + 1) left (count_outcome r (st\<lparr>us_claimed := us_claimed st + 1\<rparr>)) ob2))"

definition run_once :: "worker_env \<Rightarrow> int \<Rightarrow> outbox \<Rightarrow> (storage_error + upload_run_stats) \<times> outbox" where
  "run_once we limit ob =
    (if \<not> (1 \<le> limit \<and> limit \<le> 1000) then (Inl (PyErr (ValueError ''limit must be between 1 and 1000'')), ob)
     else (case effective_lease_seconds we of
         Inl e \<Rightarrow> (Inl e, ob)
       | Inr lease \<Rightarrow> drain we lease 0 (nat limit) \<lparr>us_claimed = 0, us_succeeded = 0, us_retried = 0, us_dead = 0\<rparr> ob))"

section \<open>A run of the worker is a run of the queue\<close>

lemma fail_upload_step: "fail_upload we n upload text p r ob = Inr (res, ob') \<Longrightarrow> queue_step rt True ob ob'"
  by (auto simp: fail_upload_def ebind_Inr_iff intro: step_failed)

lemma rebase_upload_step: "rebase_upload we n upload text ob = Inr (res, ob') \<Longrightarrow> queue_step rt True ob ob'"
  by (auto simp: rebase_upload_def intro: step_resync fail_upload_step split: sum.splits if_splits prod.splits)

lemma finish_upload_step:
  assumes "finish_upload we n upload outcome ob = Inr (res, ob')"
  shows "queue_step rt True ob ob'"
proof (cases outcome)
  case Delivered
  then show ?thesis using assms by (auto simp: finish_upload_def ebind_Inr_iff intro: step_succeeded)
next
  case (Refused e)
  then show ?thesis
    using assms rebase_upload_step fail_upload_step by (auto simp: finish_upload_def split: if_splits)
next
  case (Crashed t)
  then show ?thesis using assms fail_upload_step by (auto simp: finish_upload_def)
qed

lemma drain_steps: "drain we lease n left st ob = (res, ob') \<Longrightarrow> (queue_step rt True)\<^sup>*\<^sup>* ob ob'"
proof (induction we lease n left st ob rule: drain.induct)
  case (2 we lease n left st ob)
  show ?case
  proof (cases "claim_uploads (we_queue we n) 1 lease (we_claim_clock we n) ob")
    case (Inl e)
    with "2.prems" show ?thesis by simp
  next
    case (Inr c)
    obtain leases ob1 where c: "c = (leases, ob1)" by (cases c)
    have claim: "queue_step rt True ob ob1" using Inr c by (auto intro: step_claim)
    show ?thesis
    proof (cases leases)
      case Nil
      with "2.prems" Inr c claim show ?thesis by auto
    next
      case (Cons u us)
      show ?thesis
      proof (cases "finish_upload we n u (deliver we n u) ob1")
        case (Inl e)
        with "2.prems" Inr c Cons claim show ?thesis by auto
      next
        case fin: (Inr r)
        obtain o' ob2 where r: "r = (o', ob2)" by (cases r)
        have "(queue_step rt True)\<^sup>*\<^sup>* ob2 ob'"
          using "2.IH" [OF Inr c [symmetric] Cons fin r [symmetric]] "2.prems" Inr c Cons fin r by simp
        with claim finish_upload_step [OF fin [unfolded r]] show ?thesis
          by (meson converse_rtranclp_into_rtranclp)
      qed
    qed
  qed
qed simp

lemma run_once_steps: "run_once we limit ob = (res, ob') \<Longrightarrow> (queue_step rt True)\<^sup>*\<^sup>* ob ob'"
  using drain_steps by (auto simp: run_once_def split: if_splits sum.splits)

section \<open>Leases do not outlive a run\<close>

definition in_flight :: "outbox \<Rightarrow> nat set" where
  "in_flight ob = {up_id r |r. r \<in> set (ob_rows ob) \<and> up_status r = UPLOAD_IN_FLIGHT}"

lemma fail_upload_in_flight:
  assumes "fail_upload we n upload text p after ob = Inr (res, ob')"
  shows "in_flight ob' \<subseteq> in_flight ob - {up_id upload} \<and> res \<noteq> Attempt_Succeeded \<and> res \<noteq> Attempt_Lost"
proof -
  obtain status where run: "mark_upload_failed (we_queue we n) (up_id upload) (lease_token_of upload) text p after
      (Some (we_policy we)) (we_draw we) (we_outcome_clock we n) ob = Inr (status, ob')"
    and res: "res = (if status = UPLOAD_DEAD then Attempt_Dead else Attempt_Retried)"
    using assms by (auto simp: fail_upload_def ebind_Inr_iff)
  obtain row :: upload_row and next_attempt where
    status: "status = (if p \<or> up_max_attempts row \<le> up_attempt_count row then UPLOAD_DEAD else UPLOAD_PENDING)" and
    ob': "ob' = ob\<lparr>ob_rows := update_rows (\<lambda>r. up_id r = up_id upload)
             (\<lambda>r. r\<lparr>up_status := status, up_next_attempt_at := next_attempt, up_lease_token := None,
                    up_leased_until := None, up_last_error := Some (clean_error (we_queue we n) text 1024),
                    up_updated_at := qe_now_text (we_queue we n)\<rparr>) (ob_rows ob)\<rparr>"
    using mark_upload_failed_Inr [OF run] by blast
  have st: "status \<noteq> UPLOAD_IN_FLIGHT" using status by (simp split: if_splits)
  have "up_id r' \<in> in_flight ob \<and> up_id r' \<noteq> up_id upload"
    if r': "r' \<in> set (ob_rows ob')" "up_status r' = UPLOAD_IN_FLIGHT" for r'
  proof -
    have "r' \<in> set (ob_rows ob)" "up_id r' \<noteq> up_id upload"
      using update_rows_origin [of r' "\<lambda>r. up_id r = up_id upload"] r' st by (fastforce simp: ob')+
    with r'(2) show ?thesis by (auto simp: in_flight_def)
  qed
  then show ?thesis using res by (auto simp: in_flight_def)
qed

lemma rebase_upload_in_flight:
  assumes ok: "queue_inv rt ob" and "rebase_upload we n upload text ob = Inr (res, ob')"
  shows "in_flight ob' \<subseteq> in_flight ob - {up_id upload} \<and> res \<noteq> Attempt_Succeeded \<and> res \<noteq> Attempt_Lost"
proof (cases "schedule_full_resync (we_queue we n) (we_snapshots we) (up_id upload) (lease_token_of upload) text
        (we_request_id we n) (we_outcome_clock we n) ob")
  case (Inl e)
  then show ?thesis using assms(2) fail_upload_in_flight by (auto simp: rebase_upload_def split: if_splits)
next
  case (Inr a)
  obtain j created where a: "a = ((j, created), ob')" and res: "res = Attempt_Retried"
    using assms(2) Inr by (cases a) (auto simp: rebase_upload_def)
  obtain t row body m key ob1 where row: "find (holds_lease (up_id upload) t) (ob_rows ob) = Some row"
    and ins: "(ob1 = ob \<and> j \<in> row_ids (ob_rows ob)) \<or>
      insert_upload (recovery_row (we_queue we n) row body m key (we_request_id we n) (we_outcome_clock we n)) ob = Inr (j, ob1)"
    and ob': "ob' = ob1\<lparr>ob_rows := update_rows (holds_lease (up_id row) t)
       (supersede (we_queue we n) text (we_outcome_clock we n) j) (ob_rows ob1)\<rparr>"
    using resync_effect [OF Inr [unfolded a]] by blast
  note holder = lease_holder [OF queue_inv_table [OF ok] row]
  have id: "up_id row = up_id upload" using holder(2) by (simp add: holds_lease_def)
  have ob1: "r \<in> set (ob_rows ob)" if "r \<in> set (ob_rows ob1)" "up_status r = UPLOAD_IN_FLIGHT" for r
    using ins insert_upload_Inr that by fastforce
  have "up_id r' \<in> in_flight ob \<and> up_id r' \<noteq> up_id upload"
    if r': "r' \<in> set (ob_rows ob')" "up_status r' = UPLOAD_IN_FLIGHT" for r'
  proof -
    have "r' \<in> set (update_rows (holds_lease (up_id row) t) (supersede (we_queue we n) text (we_outcome_clock we n) j) (ob_rows ob1))"
      using r'(1) by (simp add: ob')
    then have free: "r' \<in> set (ob_rows ob1)" "\<not> holds_lease (up_id row) t r'"
      using update_rows_origin r'(2) by (fastforce simp: supersede_def)+
    then have mem: "r' \<in> set (ob_rows ob)" using ob1 r'(2) by blast
    moreover have "up_id r' \<noteq> up_id upload"
      using holder(2) holder(3) [OF mem] free(2) id by metis
    ultimately show ?thesis using r'(2) by (auto simp: in_flight_def)
  qed
  then show ?thesis using res by (auto simp: in_flight_def)
qed

lemma delivered_in_flight:
  assumes ok: "table_ok (ob_rows ob)" and u: "u \<in> set (ob_rows ob)" "up_status u = UPLOAD_IN_FLIGHT" "up_lease_token u = Some t"
    and t: "clean_identifier ''lease_token'' 256 (JStr t) = Inr t"
    and run: "mark_upload_succeeded env (up_id u) t now ob = Inr (b, ob')"
  shows "b \<and> in_flight ob' \<subseteq> in_flight ob - {up_id u}"
proof -
  have b: "b = (\<exists>r \<in> set (ob_rows ob). holds_lease (up_id u) t r)"
    and rows: "ob_rows ob' = update_rows (holds_lease (up_id u) t) (\<lambda>r. r\<lparr>up_status := UPLOAD_SUCCEEDED,
        up_lease_token := None, up_leased_until := None, up_last_error := None, up_delivered_at := Some now,
        up_updated_at := now\<rparr>) (ob_rows ob)"
    using run t by (auto simp: mark_upload_succeeded_def lift_py_def)
  have hold: "holds_lease (up_id u) t u" using u by (simp add: holds_lease_def)
  have "up_id r' \<in> in_flight ob \<and> up_id r' \<noteq> up_id u" if r': "r' \<in> set (ob_rows ob')" "up_status r' = UPLOAD_IN_FLIGHT" for r'
  proof -
    have free: "r' \<in> set (ob_rows ob)" "\<not> holds_lease (up_id u) t r'"
      using update_rows_origin [OF r'(1) [unfolded rows]] r'(2) by auto
    then have "up_id r' \<noteq> up_id u" using same_row [OF ok free(1) u(1)] hold by metis
    with free r'(2) show ?thesis by (auto simp: in_flight_def)
  qed
  then show ?thesis using hold u(1) b by (auto simp: in_flight_def)
qed

lemma finish_upload_in_flight:
  assumes inv: "queue_inv rt ob" and u: "u \<in> set (ob_rows ob)" "up_status u = UPLOAD_IN_FLIGHT" "up_lease_token u = Some t"
    and t: "clean_identifier ''lease_token'' 256 (JStr t) = Inr t"
    and fin: "finish_upload we n u outcome ob = Inr (res, ob')"
  shows "in_flight ob' \<subseteq> in_flight ob - {up_id u} \<and> res \<noteq> Attempt_Lost"
proof (cases outcome)
  case Delivered
  have tok: "lease_token_of u = t" using u(3) by (simp add: lease_token_of_def)
  obtain b where "mark_upload_succeeded (we_queue we n) (up_id u) t (qe_now_text (we_queue we n)) ob = Inr (b, ob')"
    and "res = (if b then Attempt_Succeeded else Attempt_Lost)"
    using fin Delivered tok by (auto simp: finish_upload_def ebind_Inr_iff)
  with delivered_in_flight [OF queue_inv_table [OF inv] u t] show ?thesis by auto
next
  case (Refused e)
  then show ?thesis
    using fin rebase_upload_in_flight [OF inv] fail_upload_in_flight
    by (fastforce simp: finish_upload_def split: if_splits)
next
  case (Crashed m)
  then show ?thesis using fin fail_upload_in_flight by (simp add: finish_upload_def)
qed

definition tokens_ok :: "worker_env \<Rightarrow> bool" where
  "tokens_ok we \<longleftrightarrow> (\<forall>n k. clean_identifier ''lease_token'' 256 (JStr (qe_token (we_queue we n) k)) = Inr (qe_token (we_queue we n) k))"

text \<open>Every claimed upload is counted once, and no lease of the run is left behind.\<close>

definition balanced :: "upload_run_stats \<Rightarrow> bool" where
  "balanced st \<longleftrightarrow> us_claimed st = us_succeeded st + us_retried st + us_dead st"

lemma drain_settles:
  assumes tok: "tokens_ok we"
  shows "drain we lease n left st ob = (Inr st', ob') \<Longrightarrow> queue_inv rt ob \<Longrightarrow> balanced st \<Longrightarrow>
    balanced st' \<and> us_claimed st' \<le> us_claimed st + left \<and> in_flight ob' \<subseteq> in_flight ob"
proof (induction left arbitrary: n st ob)
  case (Suc left)
  obtain leases ob1 where claim: "claim_uploads (we_queue we n) 1 lease (we_claim_clock we n) ob = Inr (leases, ob1)"
    using Suc.prems(1) by (auto split: sum.splits prod.splits)
  note ok = queue_inv_table [OF Suc.prems(2)]
  note c = claim_leases [OF ok claim]
  have inv1: "queue_inv rt ob1"
    using upload.detail.inv_step [OF Suc.prems(2) step_claim [OF claim]] .
  have in1: "in_flight ob1 \<subseteq> in_flight ob \<union> up_id ` set leases"
    using claim_in_flight [OF ok claim] by (auto simp: in_flight_def)
  show ?case
  proof (cases leases)
    case Nil
    then show ?thesis using Suc.prems claim in1 by auto
  next
    case (Cons u us)
    then have leases: "leases = [u]" using c by (cases us) auto
    obtain k where u: "u \<in> set (ob_rows ob1)" "up_status u = UPLOAD_IN_FLIGHT" "up_lease_token u = Some (qe_token (we_queue we n) k)"
      using c leases by auto
    obtain r ob2 where fin: "finish_upload we n u (deliver we n u) ob1 = Inr (r, ob2)"
      and rest: "drain we lease (n + 1) left (count_outcome r (st\<lparr>us_claimed := us_claimed st + 1\<rparr>)) ob2 = (Inr st', ob')"
      using Suc.prems(1) claim leases by (auto split: sum.splits prod.splits)
    have f: "in_flight ob2 \<subseteq> in_flight ob1 - {up_id u} \<and> r \<noteq> Attempt_Lost"
      by (rule finish_upload_in_flight [OF inv1 u _ fin]) (use tok in \<open>simp add: tokens_ok_def\<close>)
    have inv2: "queue_inv rt ob2" using upload.detail.inv_step [OF inv1 finish_upload_step [OF fin]] .
    have "balanced (count_outcome r (st\<lparr>us_claimed := us_claimed st + 1\<rparr>))"
      using f Suc.prems(3) by (cases r) (auto simp: balanced_def count_outcome_def)
    moreover have "us_claimed (count_outcome r (st\<lparr>us_claimed := us_claimed st + 1\<rparr>)) = us_claimed st + 1"
      by (cases r) (auto simp: count_outcome_def)
    ultimately show ?thesis using Suc.IH [OF rest inv2] f in1 leases by auto
  qed
qed simp


section \<open>A run that claims less than its limit has drained the queue\<close>

lemma claim_nothing:
  assumes ok: "table_ok (ob_rows ob)" and "claim_uploads env limit secs current ob = Inr ([], ob')"
  shows "r \<in> set (ob_rows ob') \<Longrightarrow> \<not> claimable current (ob_rows ob') r"
proof -
  let ?rows = "expire_leases env current (ob_rows ob)"
  let ?sel = "take (nat limit) (sort_key up_next_attempt_at (filter (claimable current ?rows) ?rows))"
  obtain rows' where l: "lease_rows env (current + secs) 0 ?sel ?rows = ([], rows')"
    and ob': "ob' = ob\<lparr>ob_rows := rows'\<rparr>" and limit: "1 \<le> limit"
    using assms(2) by (auto simp: claim_uploads_def Let_def backfill_id [OF ok] split: if_splits prod.splits)
  have ok': "table_ok ?rows" by (rule rows_steps_table_ok [OF expire_leases_moves [OF ok] ok])
  have distinct: "distinct (map up_id ?sel)"
    using table_ok_distinct [OF ok'] by (auto simp: take_map [symmetric] distinct_map_sort_key distinct_map_filter)
  have sel: "\<forall>r \<in> set ?sel. r \<in> set ?rows \<and> up_status r = UPLOAD_PENDING"
    by (auto simp: claimable_def dest!: in_set_takeD)
  have none: "?sel = []" using lease_rows_leases [OF distinct sel l] by simp
  then have "rows' = ?rows" using l [unfolded none] by simp
  moreover have "filter (claimable current ?rows) ?rows = []"
  proof -
    have "sort_key up_next_attempt_at (filter (claimable current ?rows) ?rows) = []" using none limit by simp
    then show ?thesis by (metis length_0_conv length_sort)
  qed
  ultimately show "r \<in> set (ob_rows ob') \<Longrightarrow> \<not> claimable current (ob_rows ob') r"
    by (auto simp: ob' filter_empty_conv)
qed

lemma count_outcome_claimed [simp]: "us_claimed (count_outcome r st) = us_claimed st"
  by (cases r) (simp_all add: count_outcome_def)

lemma drain_drained:
  "drain we lease n left st ob = (Inr st', ob') \<Longrightarrow> queue_inv rt ob \<Longrightarrow> us_claimed st' < us_claimed st + left \<Longrightarrow>
    r \<in> set (ob_rows ob') \<Longrightarrow> \<not> claimable (we_claim_clock we (n + us_claimed st' - us_claimed st)) (ob_rows ob') r"
proof (induction left arbitrary: n st ob)
  case (Suc left)
  obtain leases ob1 where claim: "claim_uploads (we_queue we n) 1 lease (we_claim_clock we n) ob = Inr (leases, ob1)"
    using Suc.prems(1) by (auto split: sum.splits prod.splits)
  have inv1: "queue_inv rt ob1" using upload.detail.inv_step [OF Suc.prems(2) step_claim [OF claim]] .
  show ?case
  proof (cases leases)
    case Nil
    then show ?thesis
      using Suc.prems claim claim_nothing [OF queue_inv_table [OF Suc.prems(2)] claim [unfolded Nil]] by auto
  next
    case (Cons u us)
    obtain o' ob2 where fin: "finish_upload we n u (deliver we n u) ob1 = Inr (o', ob2)"
      and rest: "drain we lease (n + 1) left (count_outcome o' (st\<lparr>us_claimed := us_claimed st + 1\<rparr>)) ob2 = (Inr st', ob')"
      using Suc.prems(1) claim Cons by (auto split: sum.splits prod.splits)
    have inv2: "queue_inv rt ob2" using upload.detail.inv_step [OF inv1 finish_upload_step [OF fin]] .
    from Suc.IH [OF rest inv2] Suc.prems(3,4) show ?thesis by simp
  qed
qed simp

section \<open>A conflict on a payload that is not JSON\<close>

lemma conflict_not_json:
  assumes ok: "table_ok (ob_rows ob)"
    and u: "u \<in> set (ob_rows ob)" "up_status u = UPLOAD_IN_FLIGHT" "up_lease_token u = Some t"
    and t: "clean_identifier ''lease_token'' 256 (JStr t) = Inr t"
    and m: "up_metadata u = JObj d" "\<not> truthy (jget ''causal_recovery'' d)"
    and b: "body_json (we_queue we n) (up_payload u) = None"
    and status: "status = 409 \<or> status = 412"
  shows "finish_upload we n u (Refused (CloudApiError status rid again after)) ob = Inl (PyErr (ValueError ''invalid JSON payload''))"
proof -
  have hold: "holds_lease (up_id u) t u" using u by (simp add: holds_lease_def)
  obtain row where row: "find (holds_lease (up_id u) t) (ob_rows ob) = Some row"
    using hold u(1) by (fastforce dest: find_None_iff [THEN iffD1] intro: that)
  have "row = u" using lease_holder(3) [OF ok row u(1)] by simp
  then have "schedule_full_resync (we_queue we n) snaps (up_id u) t msg r current ob
      = Inl (PyErr (ValueError ''invalid JSON payload''))" for snaps msg r current
    using row m b by (simp add: schedule_full_resync_def t lift_py_def resync_source_def)
  then show ?thesis
    using m status u(3) by (auto simp: finish_upload_def rebase_upload_def lease_token_of_def metadata_obj_def
        is_cloud_api_error_def is_storage_error_def)
qed

end
