(* ===== verification/Worker_Demo.thy ===== *)
theory Worker_Demo
  imports Upload_Worker Upload_Demo
begin

text \<open>
  Runs of the worker at concrete values: an accepting server, and one that answers every request
  with a conflict.
\<close>

definition demo_paths :: url_env where
  "demo_paths = \<lparr> ue_utf8 = (\<lambda>b. Some b), ue_netloc_ok = (\<lambda>_. True) \<rparr>"

definition demo_config :: client_config where
  "demo_config = \<lparr> cc_base_scheme = ''https'', cc_base_netloc = ''h'', cc_base_path = ''/a/'',
     cc_timeout_seconds = 20, cc_connect_timeout_seconds = None, cc_read_timeout_seconds = None,
     cc_max_response_bytes = 100, cc_max_request_bytes = 1000, cc_max_attempts = 3,
     cc_backoff_base_seconds = 1, cc_backoff_max_seconds = 10, cc_jitter_ratio = 0,
     cc_compress_requests = False, cc_compression_threshold_bytes = 1024, cc_user_agent = ''s'' \<rparr>"

definition demo_client :: "(nat \<Rightarrow> send_result) \<Rightarrow> client_env" where
  "demo_client send = \<lparr> ce_paths = demo_paths, ce_uuid = ''u'', ce_gzip = (\<lambda>b. b), ce_inflate = (\<lambda>b n. Some (b, False)),
     ce_inflate_flush = (\<lambda>b n. Some ([], True)), ce_auth_headers = (\<lambda>_ _ _. []), ce_parse_float = (\<lambda>_. None),
     ce_http_date_delay = (\<lambda>_. None), ce_draw = (\<lambda>a b. a), ce_send = (\<lambda>n _ _ _ _. send n) \<rparr>"

definition answer :: "int \<Rightarrow> send_result" where
  "answer status = Response \<lparr> hr_status_code = status, hr_headers = [], hr_body = [] \<rparr>"

definition demo_queue_env :: queue_env where
  "demo_queue_env = (upload_env ''w'')\<lparr>qe_token := (\<lambda>_. ''tk'')\<rparr>"

definition demo_worker :: "(nat \<Rightarrow> send_result) \<Rightarrow> worker_env" where
  "demo_worker send = \<lparr> we_queue = (\<lambda>_. demo_queue_env), we_claim_clock = (\<lambda>_. 100), we_outcome_clock = (\<lambda>_. 101),
     we_client = (\<lambda>_. demo_client send), we_encode = (\<lambda>s. s), we_snapshots = (\<lambda>_. None), we_request_id = (\<lambda>_. ''rq''),
     we_policy = \<lparr> rp_max_attempts = 5, rp_base_delay_seconds = 1, rp_multiplier = 2, rp_max_delay_seconds = 60, rp_jitter_ratio = 0 \<rparr>,
     we_draw = (\<lambda>a b. a), we_lease_seconds = 60, we_config = demo_config \<rparr>"

lemma demo_tokens: "tokens_ok (demo_worker send)"
  by (simp add: tokens_ok_def demo_worker_def demo_queue_env_def) code_simp

lemma demo_config_ok: "check_config demo_config = Inr ()"
  by code_simp

text \<open>The lease is the budget of three attempts: the configured sixty seconds are not enough.\<close>

lemma demo_lease: "effective_lease_seconds (demo_worker send) = Inr 145"
  by (simp add: effective_lease_seconds_def request_budget_def demo_worker_def demo_config_def
      effective_connect_timeout_def effective_read_timeout_def)

definition "wk1 = \<lparr> ob_rows = [delivered_row ''w'' result_row, status_row], ob_seq = 2, ob_audit = [] \<rparr>"
definition "wk2 = \<lparr> ob_rows = [delivered_row ''w'' result_row, delivered_row ''w'' status_row], ob_seq = 2, ob_audit = [] \<rparr>"
definition "wc1 = \<lparr> ob_rows = [take_lease demo_queue_env 245 0 1 result_row, status_row], ob_seq = 2, ob_audit = [] \<rparr>"
definition "wc2 = \<lparr> ob_rows = [delivered_row ''w'' result_row, take_lease demo_queue_env 245 0 1 status_row], ob_seq = 2, ob_audit = [] \<rparr>"

lemma wk_claims:
  "claim_uploads demo_queue_env 1 145 100 up2 = Inr ([take_lease demo_queue_env 245 0 1 result_row], wc1)"
  "claim_uploads demo_queue_env 1 145 100 wk1 = Inr ([take_lease demo_queue_env 245 0 1 status_row], wc2)"
  "claim_uploads demo_queue_env 1 145 100 wk2 = Inr ([], wk2)"
  by code_simp+

lemma wk_delivers:
  "delivery_of (fst (send_upload (demo_worker (\<lambda>_. answer 200)) n (take_lease demo_queue_env 245 0 1 result_row))) = Delivered"
  "delivery_of (fst (send_upload (demo_worker (\<lambda>_. answer 200)) n (take_lease demo_queue_env 245 0 1 status_row))) = Delivered"
  by code_simp+

lemma wk_marks:
  "mark_upload_succeeded demo_queue_env 1 ''tk'' ''w'' wc1 = Inr (True, wk1)"
  "mark_upload_succeeded demo_queue_env 2 ''tk'' ''w'' wc2 = Inr (True, wk2)"
  by code_simp+


lemma demo_worker_fields [simp]:
  "we_queue (demo_worker send) n = demo_queue_env" "we_claim_clock (demo_worker send) n = 100"
  "we_config (demo_worker send) = demo_config" "qe_now_text demo_queue_env = ''w''"
  by (simp_all add: demo_worker_def demo_queue_env_def upload_env_def)

lemma leased_fields [simp]:
  "up_id (take_lease demo_queue_env until n k (queued_row i kind key payload hash pred now)) = i"
  "lease_token_of (take_lease demo_queue_env until n k row) = ''tk''"
  by (simp_all add: take_lease_def queued_row_def lease_token_of_def demo_queue_env_def)

text \<open>The accepting server: both uploads are delivered, in order, and the third claim finds nothing.\<close>

lemma wk_outcomes:
  "finish_upload (demo_worker (\<lambda>_. answer 200)) n (take_lease demo_queue_env 245 0 1 result_row)
     (deliver (demo_worker (\<lambda>_. answer 200)) n (take_lease demo_queue_env 245 0 1 result_row)) wc1 = Inr (Attempt_Succeeded, wk1)"
  "finish_upload (demo_worker (\<lambda>_. answer 200)) n (take_lease demo_queue_env 245 0 1 status_row)
     (deliver (demo_worker (\<lambda>_. answer 200)) n (take_lease demo_queue_env 245 0 1 status_row)) wc2 = Inr (Attempt_Succeeded, wk2)"
  by (simp_all add: deliver_def wk_delivers finish_upload_def wk_marks ebind_def del: One_nat_def)

lemma wk_run:
  "run_once (demo_worker (\<lambda>_. answer 200)) 5 up2
     = (Inr \<lparr>us_claimed = 2, us_succeeded = 2, us_retried = 0, us_dead = 0\<rparr>, wk2)"
proof -
  have d: "drain (demo_worker (\<lambda>_. answer 200)) 145 0 (Suc (Suc (Suc left)))
      \<lparr>us_claimed = 0, us_succeeded = 0, us_retried = 0, us_dead = 0\<rparr> up2
    = (Inr \<lparr>us_claimed = 2, us_succeeded = 2, us_retried = 0, us_dead = 0\<rparr>, wk2)" for left
    by (simp add: wk_claims wk_outcomes count_outcome_def del: One_nat_def)
  have "nat 5 = Suc (Suc (Suc 2))" by simp
  then show ?thesis by (simp only: run_once_def demo_lease sum.case d) simp
qed

text \<open>The upload of a text that is not JSON, answered with a conflict.\<close>

definition raw_request :: enqueue_request where
  "raw_request = (upload_request ''telemetry'' ''k7'' [])\<lparr>nq_payload := RawBody ''x''\<rparr>"

definition raw_row :: upload_row where
  "raw_row = (queued_row 1 ''telemetry'' ''k7'' [] ''x'' None ''t1'')\<lparr>up_payload := RawBody ''x'', up_causal_group := None\<rparr>"

definition "raw1 = \<lparr> ob_rows = [raw_row], ob_seq = 1, ob_audit = [] \<rparr>"
definition "raw2 = \<lparr> ob_rows = [take_lease demo_queue_env 245 0 1 raw_row], ob_seq = 1, ob_audit = [] \<rparr>"

lemma raw_run:
  "enqueue_upload (upload_env ''t1'') raw_request empty_outbox = Inr ((1, True), raw1)"
  "claim_uploads demo_queue_env 1 145 100 raw1 = Inr ([take_lease demo_queue_env 245 0 1 raw_row], raw2)"
  by code_simp+

lemma raw_conflict:
  "deliver (demo_worker (\<lambda>_. answer 409)) n (take_lease demo_queue_env 245 0 1 raw_row)
     = Refused (CloudApiError 409 ''rk7'' False None)"
  unfolding deliver_def by code_simp

lemma raw_reachable: "(queue_step upload_rt rv)\<^sup>*\<^sup>* empty_outbox raw1"
  by (rule r_into_rtranclp, rule step_enqueue [OF _ raw_run(1)]) (simp add: upload_env_def)

lemma up2_reachable: "(queue_step upload_rt rv)\<^sup>*\<^sup>* empty_outbox up2"
proof (rule rtranclp.rtrancl_into_rtrancl [OF up_reachable(1)])
  show "queue_step upload_rt rv up1 up2" by (rule step_enqueue [OF _ up_run(2)]) (simp add: upload_env_def)
qed

text \<open>A request that fails twice before it is answered.\<close>

definition flaky :: "nat \<Rightarrow> send_result" where
  "flaky n = (if n = 1 then SendFailed (NetworkError ''x'') else if n = 2 then answer 503 else answer 200)"

lemma flaky_send:
  "send_upload (demo_worker flaky) 0 raw_row
     = (Inr \<lparr>hr_status_code = 200, hr_headers = [], hr_body = []\<rparr>, [1, 2], 3)"
  by code_simp

lemma flaky_loop:
  "request_loop demo_config (demo_client flaky) flaky ''r'' True 1 (nat (cc_max_attempts demo_config))
     = (Inr \<lparr>hr_status_code = 200, hr_headers = [], hr_body = []\<rparr>, [1, 2], 3)"
  by code_simp

end
