(* ===== verification/Worker_Properties.thy ===== *)
theory Worker_Properties
  imports Worker_Demo
begin

text \<open>
  The properties of the worker of the upload queue, of the HTTP client and of the paths it sends to,
  each with a witness on the runs of the demonstration.
\<close>

section \<open>The worker\<close>

text \<open>C24: A run of the worker on a reachable queue is a sequence of operations of the queue. It claims at most its
  limit, counts every claimed upload exactly once as delivered, retried or dead, and when it returns
  no upload is in flight that was not in flight before: the run leaves no lease behind.\<close>

theorem run_once_settles:
  assumes "(queue_step rt rv)\<^sup>*\<^sup>* empty_outbox ob" and "tokens_ok we" and "run_once we limit ob = (Inr st, ob')"
  shows "(queue_step rt True)\<^sup>*\<^sup>* ob ob' \<and> int (us_claimed st) \<le> limit
    \<and> us_claimed st = us_succeeded st + us_retried st + us_dead st \<and> in_flight ob' \<subseteq> in_flight ob"
proof -
  let ?zero = "\<lparr>us_claimed = 0, us_succeeded = 0, us_retried = 0, us_dead = 0\<rparr> :: upload_run_stats"
  have inv: "queue_inv rt ob" by (rule queue_reachable_inv [OF assms(1)])
  obtain lease where limit: "1 \<le> limit" and d: "drain we lease 0 (nat limit) ?zero ob = (Inr st, ob')"
    using assms(3) by (auto simp: run_once_def split: if_splits sum.splits)
  have "balanced ?zero" by (simp add: balanced_def)
  from drain_settles [OF assms(2) d inv this] limit show ?thesis
    using run_once_steps [OF assms(3)] by (auto simp: balanced_def)
qed

theorem run_once_settles_witness:
  "(queue_step upload_rt True)\<^sup>*\<^sup>* up2 wk2 \<and> in_flight wk2 \<subseteq> in_flight up2"
  using run_once_settles [OF up2_reachable [of True] demo_tokens wk_run] by simp

text \<open>C25: A run that claims fewer uploads than its limit has drained the queue: at the time of its last
  claim every remaining upload is settled, in flight, not yet due, out of attempts, or waiting
  for a predecessor that is not delivered.\<close>

theorem run_once_drains:
  assumes "(queue_step rt rv)\<^sup>*\<^sup>* empty_outbox ob" and "run_once we limit ob = (Inr st, ob')"
    and "int (us_claimed st) < limit" and "r \<in> set (ob_rows ob')"
  shows "up_status r \<noteq> UPLOAD_PENDING \<or> we_claim_clock we (us_claimed st) < up_next_attempt_at r
    \<or> up_max_attempts r \<le> up_attempt_count r \<or> \<not> unblocked (ob_rows ob') r"
proof -
  have inv: "queue_inv rt ob" by (rule queue_reachable_inv [OF assms(1)])
  obtain lease where "drain we lease 0 (nat limit) \<lparr>us_claimed = 0, us_succeeded = 0, us_retried = 0, us_dead = 0\<rparr> ob = (Inr st, ob')"
    using assms(2) by (auto simp: run_once_def split: if_splits sum.splits)
  from drain_drained [OF this inv _ assms(4)] assms(3) show ?thesis
    by (auto simp: claimable_def zless_nat_eq_int_zless)
qed

theorem run_once_drains_witness: "list_all (\<lambda>r. \<not> claimable 100 (ob_rows wk2) r) (ob_rows wk2)"
  unfolding list_all_iff claimable_def
  using run_once_drains [OF up2_reachable [of True] wk_run] by fastforce

section \<open>The client\<close>

text \<open>C26: The lease of an upload outlives the request made under it: with a checked configuration, the
  connect and read timeouts of all attempts, the delays slept between them and five seconds together
  fit into the lease the worker asks for, and there are at most the configured attempts.\<close>

theorem request_within_lease:
  assumes "check_config (we_config we) = Inr ()" and "effective_lease_seconds we = Inr lease"
    and "send_upload we n upload = (result, sleeps, sends)"
  shows "int sends \<le> cc_max_attempts (we_config we)
    \<and> of_nat sends * (effective_connect_timeout (we_config we) + effective_read_timeout (we_config we))
        + sum_list sleeps + 5 \<le> lease"
proof -
  let ?c = "we_config we"
  let ?t = "effective_connect_timeout ?c + effective_read_timeout ?c"
  note b = check_config_bounds [OF assms(1)]
  have r: "int sends \<le> cc_max_attempts ?c" "sum_list sleeps \<le> of_int (max 0 (int sends - 1)) * cc_backoff_max_seconds ?c"
    using request_bounds [OF assms(1) assms(3) [unfolded send_upload_def]] by auto
  have "of_nat sends * ?t \<le> of_int (cc_max_attempts ?c) * ?t"
  proof (rule mult_right_mono)
    show "of_nat sends \<le> (of_int (cc_max_attempts ?c) :: rat)"
      by (metis r(1) of_int_le_iff of_int_of_nat_eq)
    show "0 \<le> ?t" using b(2,3) by simp
  qed
  moreover have "sum_list sleeps \<le> of_int (max 0 (cc_max_attempts ?c - 1)) * cc_backoff_max_seconds ?c"
  proof (rule order_trans [OF r(2)], rule mult_right_mono)
    show "of_int (max 0 (int sends - 1)) \<le> (of_int (max 0 (cc_max_attempts ?c - 1)) :: rat)"
      using r(1) by (simp only: of_int_le_iff)
    show "0 \<le> cc_backoff_max_seconds ?c" using b(4) by simp
  qed
  moreover have "request_budget ?c \<le> lease"
    using assms(2) by (auto simp: effective_lease_seconds_def Let_def split: if_splits)
  ultimately show ?thesis using r(1) by (simp add: request_budget_def)
qed

theorem request_within_lease_witness: "(3 :: rat) * (20 + 20) + (1 + 2) + 5 \<le> 145"
proof -
  have "check_config (we_config (demo_worker flaky)) = Inr ()" by (simp add: demo_config_ok)
  from request_within_lease [OF this demo_lease flaky_send] show ?thesis
    by (simp add: effective_connect_timeout_def effective_read_timeout_def demo_config_def)
qed

text \<open>C27: The retry loop of a checked configuration always returns, with the verdict on its last send:
  every send before that failed in a retryable way, and where attempts were left over, the last one
  was not to be repeated. The state the code calls unreachable is not reached.\<close>

theorem request_loop_final:
  assumes "check_config c = Inr ()"
    and "request_loop c env send rid allowed 1 (nat (cc_max_attempts c)) = (result, sleeps, sends)"
  shows "0 < sends \<and> int sends \<le> cc_max_attempts c \<and> result = attempt_verdict c env rid (send sends)
    \<and> (\<forall>k. 0 < k \<and> k < sends \<longrightarrow> attempt_retryable c env rid (send k))
    \<and> (int sends < cc_max_attempts c \<longrightarrow> \<not> allowed \<or> \<not> attempt_retryable c env rid (send sends))"
proof -
  have pos: "0 < nat (cc_max_attempts c)" using check_config_bounds(1) [OF assms(1)] by simp
  note o = request_loop_outcome [OF assms(2) pos]
  have "attempt_retryable c env rid (send k)" if "0 < k" "k < sends" for k
    using o that by (cases k) auto
  with o show ?thesis by auto
qed

theorem request_loop_final_witness:
  "attempt_retryable demo_config (demo_client flaky) ''r'' (flaky 1)
    \<and> attempt_retryable demo_config (demo_client flaky) ''r'' (flaky 2)"
  using request_loop_final [OF demo_config_ok flaky_loop] by simp

text \<open>C28: A conflict answered to an upload whose payload is not JSON is not settled: the full
  resynchronisation raises ValueError, which the worker does not catch, so the run ends with the
  exception and the upload stays leased.\<close>

theorem conflict_strands_lease:
  assumes "(queue_step rt rv)\<^sup>*\<^sup>* empty_outbox ob" and "tokens_ok we"
    and "claim_uploads (we_queue we n) 1 lease (we_claim_clock we n) ob = Inr ([u], ob1)"
    and "up_metadata u = JObj d" and "\<not> truthy (jget ''causal_recovery'' d)"
    and "body_json (we_queue we n) (up_payload u) = None"
    and "deliver we n u = Refused (CloudApiError status rid again after)" and "status = 409 \<or> status = 412"
  shows "drain we lease n (Suc left) st ob = (Inl (PyErr (ValueError ''invalid JSON payload'')), ob1)
    \<and> u \<in> set (ob_rows ob1) \<and> up_status u = UPLOAD_IN_FLIGHT"
proof -
  have inv: "queue_inv rt ob" by (rule queue_reachable_inv [OF assms(1)])
  have ok1: "table_ok (ob_rows ob1)"
    using queue_inv_table [OF upload.detail.inv_step [OF inv step_claim [OF assms(3)]]] .
  obtain k where u: "u \<in> set (ob_rows ob1)" "up_status u = UPLOAD_IN_FLIGHT"
      "up_lease_token u = Some (qe_token (we_queue we n) k)"
    using claim_leases [OF queue_inv_table [OF inv] assms(3)] by auto
  have "finish_upload we n u (deliver we n u) ob1 = Inl (PyErr (ValueError ''invalid JSON payload''))"
    unfolding assms(7)
    by (rule conflict_not_json [OF ok1 u _ assms(4,5,6,8)]) (use assms(2) in \<open>simp add: tokens_ok_def\<close>)
  with assms(3) u show ?thesis by simp
qed

theorem conflict_strands_lease_witness:
  "drain (demo_worker (\<lambda>_. answer 409)) 145 0 1 \<lparr>us_claimed = 0, us_succeeded = 0, us_retried = 0, us_dead = 0\<rparr> raw1
     = (Inl (PyErr (ValueError ''invalid JSON payload'')), raw2)"
proof -
  let ?w = "demo_worker (\<lambda>_. answer 409)" and ?u = "take_lease demo_queue_env 245 0 1 raw_row"
  have c: "claim_uploads (we_queue ?w 0) 1 145 (we_claim_clock ?w 0) raw1 = Inr ([?u], raw2)" by (simp add: raw_run)
  have m: "up_metadata ?u = JObj [(''endpoint_id'', JStr ''e1''), (''scan_id'', JStr ''s1'')]"
    "\<not> truthy (jget ''causal_recovery'' [(''endpoint_id'', JStr ''e1''), (''scan_id'', JStr ''s1'')])"
    "body_json (we_queue ?w 0) (up_payload ?u) = None"
    by code_simp+
  show ?thesis
    using conflict_strands_lease [OF raw_reachable [of True] demo_tokens c m raw_conflict, of 0] by simp
qed

section \<open>Paths\<close>

text \<open>The repeated percent decoding ends within its bound for every text: it finds a text without percent
  sign, no longer than the input and its own decoding, or reports a malformed or undecodable
  escape. The report of a too deep nesting never occurs.\<close>

lemma fully_unquote_ends:
  assumes "utf8_ok env"
  shows "(\<exists>d. fully_unquote env s = Inr d \<and> CHR ''%'' \<notin> set d \<and> length d \<le> length s \<and> fully_unquote env d = Inr d)
    \<or> fully_unquote env s = Inl (PathError ''API path contains a malformed percent escape'')
    \<or> fully_unquote env s = Inl (PathError ''API path percent encoding is invalid'')"
  using unquote_loop_result [OF assms, of s "length s + 1"] by (auto simp: fully_unquote_def)

lemma fully_unquote_ends_concrete:
  "(\<exists>d. fully_unquote demo_paths ''a%2541'' = Inr d \<and> CHR ''%'' \<notin> set d)
    \<and> fully_unquote demo_paths ''a%2541'' = Inr ''aA''"
proof -
  have "utf8_ok demo_paths" by (simp add: utf8_ok_def demo_paths_def)
  moreover have "fully_unquote demo_paths ''a%2541'' = Inr ''aA''" by code_simp
  ultimately show ?thesis using fully_unquote_ends [of demo_paths "''a%2541''"] by auto
qed



text \<open>Reading a response never keeps more than the maximum, and ends after at most two reads more than
  the maximum has bytes: what the stream would give later has no influence on the result.\<close>

lemma read_bounded_ends:
  assumes "0 \<le> maximum"
  shows "(\<forall>r. read_bounded reader expired maximum 0 [] = Inr r \<longrightarrow> int (length r) \<le> maximum)
    \<and> ((\<forall>i < nat (maximum + 2). reader i = reader' i \<and> expired i = expired' i) \<longrightarrow>
        read_bounded reader expired maximum 0 [] = read_bounded reader' expired' maximum 0 [])"
  using read_bounded_le [of reader expired maximum 0 "[]"]
    read_bounded_cong [of 0 maximum "[]" reader reader' expired expired'] assms by auto

lemma read_bounded_ends_concrete:
  "int (length ''abab'') \<le> 5 \<and> read_bounded (\<lambda>k n. Chunk (if k < 2 then ''ab'' else [])) (\<lambda>_. False) 5 0 [] = Inr ''abab''"
proof -
  have r: "read_bounded (\<lambda>k n. Chunk (if k < 2 then ''ab'' else [])) (\<lambda>_. False) 5 0 [] = Inr ''abab''"
    by (simp add: read_bounded.simps)
  with read_bounded_ends [of 5 "\<lambda>k n. Chunk (if k < 2 then ''ab'' else [])" "\<lambda>_. False"] show ?thesis by auto
qed

end
