(* ===== verification/Redaction.thy ===== *)
theory Redaction
  imports Json
begin

text \<open>
  Python values as the models of the scanner dump them, and the redaction of secrets of
  \<^verbatim>\<open>app/security/redaction.py\<close>. The substitutions by regular expressions inside one text are a
  parameter; the search for a sensitive key, the walk over a value with its bounds, the command lines
  and the neutralisation of log lines are modelled.
\<close>

section \<open>Values\<close>

text \<open>
  \<open>PEnum\<close> is a member of a \<open>StrEnum\<close>, which is a \<open>str\<close>; \<open>PTime\<close> an aware time in microseconds. A model
  stands for the dictionary of its fields, a tuple for the list of its items.
\<close>

datatype pyval =
    PNone
  | PBool bool
  | PInt int
  | PFloat pyfloat
  | PStr string
  | PEnum string
  | PTime int
  | PSet "pyval list"
  | PList "pyval list"
  | PDict "(string \<times> pyval) list"

lemma pyval_induct [case_names PNone PBool PInt PFloat PStr PEnum PTime PSet PList PDict]:
  assumes "P PNone" and "\<And>b. P (PBool b)" and "\<And>i. P (PInt i)" and "\<And>x. P (PFloat x)"
    and "\<And>s. P (PStr s)" and "\<And>s. P (PEnum s)" and "\<And>t. P (PTime t)" and "\<And>xs. P (PSet xs)"
    and "\<And>xs. (\<And>x. x \<in> set xs \<Longrightarrow> P x) \<Longrightarrow> P (PList xs)"
    and "\<And>d. (\<And>k v. (k, v) \<in> set d \<Longrightarrow> P v) \<Longrightarrow> P (PDict d)"
  shows "P v"
proof (induction v)
  case (PDict d)
  have "P v" if "(k, v) \<in> set d" for k v
    using PDict [OF that, of v] by simp
  then show ?case by (rule assms(10))
qed (use assms in auto)

text \<open>The value as JSON, where it is one; a \<open>StrEnum\<close> equals its text.\<close>

fun as_json :: "pyval \<Rightarrow> json option" where
  "as_json PNone = Some JNull"
| "as_json (PBool b) = Some (JBool b)"
| "as_json (PInt i) = Some (JInt i)"
| "as_json (PFloat x) = Some (JFloat x)"
| "as_json (PStr s) = Some (JStr s)"
| "as_json (PEnum s) = Some (JStr s)"
| "as_json (PTime _) = None"
| "as_json (PSet _) = None"
| "as_json (PList xs) = map_option JArr (those (map as_json xs))"
| "as_json (PDict d) = map_option JObj (those (map (\<lambda>kv. map_option (Pair (fst kv)) (as_json (snd kv))) d))"

fun of_json :: "json \<Rightarrow> pyval" where
  "of_json JNull = PNone"
| "of_json (JBool b) = PBool b"
| "of_json (JInt i) = PInt i"
| "of_json (JFloat x) = PFloat x"
| "of_json (JStr s) = PStr s"
| "of_json (JArr xs) = PList (map of_json xs)"
| "of_json (JObj d) = PDict (map (\<lambda>kv. (fst kv, of_json (snd kv))) d)"

section \<open>Sensitive keys\<close>

definition redacted_text :: string where "redacted_text = ''<redacted>''"
definition truncated_text :: string where "truncated_text = ''<truncated>''"

text \<open>The alternatives of \<open>_SENSITIVE_KEY\<close>, the optional separator written out.\<close>

definition sensitive_words :: "string list" where
  "sensitive_words = [''password'', ''passwd'', ''pwd'', ''secret'', ''token'', ''apikey'', ''api_key'', ''api-key'',
     ''accesskey'', ''access_key'', ''access-key'', ''privatekey'', ''private_key'', ''private-key'',
     ''clientsecret'', ''client_secret'', ''client-secret'', ''authorization'', ''cookie'', ''session'', ''credential'']"

definition key_separator :: "char \<Rightarrow> bool" where
  "key_separator c \<longleftrightarrow> c = CHR ''_'' \<or> c = CHR ''-'' \<or> c = CHR ''.''"

text \<open>A word at the start of the text, up to a separator or the end; \<open>$\<close> also stands before a final newline.\<close>

definition word_here :: "string \<Rightarrow> bool" where
  "word_here s = (let low = py_lower s in
     list_ex (\<lambda>w. if starts_with w low
       then (case drop (length w) s of [] \<Rightarrow> True | c # cs \<Rightarrow> key_separator c \<or> (c = CHR 0x0A \<and> cs = [])) else False) sensitive_words)"

fun word_after :: "bool \<Rightarrow> string \<Rightarrow> bool" where
  "word_after boundary [] = False"
| "word_after boundary (c # cs) = (if (if boundary then word_here (c # cs) else False) then True else word_after (key_separator c) cs)"

definition is_sensitive_key :: "string \<Rightarrow> bool" where
  "is_sensitive_key key \<longleftrightarrow> word_after True key"

definition fact_keys :: "string list" where
  "fact_keys = [''local_admin_password_managed'', ''password_policy_compliant'', ''password_required'',
     ''password_never_expires'', ''password_expires'', ''user_may_change_password'', ''passwordauthentication'',
     ''permitemptypasswords'', ''ssh_password_authentication_enabled'', ''ssh_permit_empty_passwords'']"

definition fact_values :: "string list" where
  "fact_values = [''0'', ''1'', ''true'', ''false'', ''yes'', ''no'', ''enabled'', ''disabled'', ''not set'']"

definition is_non_secret_security_fact :: "string \<Rightarrow> pyval \<Rightarrow> bool" where
  "is_non_secret_security_fact key value \<longleftrightarrow> py_casefold key \<in> set fact_keys \<and>
     (case value of
        PNone \<Rightarrow> True
      | PBool _ \<Rightarrow> True
      | PStr s \<Rightarrow> py_casefold (py_strip s) \<in> set fact_values
      | PEnum s \<Rightarrow> py_casefold (py_strip s) \<in> set fact_values
      | _ \<Rightarrow> False)"

section \<open>Redaction of a value\<close>

text \<open>
  \<open>re_substitute\<close> is the chain of substitutions of \<open>redact_text\<close>, \<open>re_str\<close> the \<open>str()\<close> of a set or a
  time. The counter of nodes runs through the whole walk.
\<close>

record redaction_env =
  re_substitute :: "string \<Rightarrow> string"
  re_str :: "pyval \<Rightarrow> string"

definition redact_text :: "redaction_env \<Rightarrow> nat \<Rightarrow> string \<Rightarrow> string" where
  "redact_text env max_length value =
    re_substitute env (take max_length value) @ (if max_length < length value then truncated_text else [])"

text \<open>The dictionary comprehension replaces the value of a repeated key; the keys of a dictionary differ.\<close>

function redact_walk :: "redaction_env \<Rightarrow> nat \<Rightarrow> nat \<Rightarrow> pyval \<Rightarrow> nat \<Rightarrow> bool \<Rightarrow> nat \<Rightarrow> json \<times> nat"
  and redact_items :: "redaction_env \<Rightarrow> nat \<Rightarrow> nat \<Rightarrow> pyval list \<Rightarrow> nat \<Rightarrow> nat \<Rightarrow> json list \<times> nat"
  and redact_fields :: "redaction_env \<Rightarrow> nat \<Rightarrow> nat \<Rightarrow> (string \<times> pyval) list \<Rightarrow> nat \<Rightarrow> nat \<Rightarrow> jobj \<times> nat" where
  "redact_walk env md mn item depth sensitive nodes =
    (let nodes = nodes + 1 in
     if mn < nodes \<or> md < depth then (JStr truncated_text, nodes)
     else if sensitive then (JStr redacted_text, nodes)
     else (case item of
         PNone \<Rightarrow> (JNull, nodes)
       | PBool b \<Rightarrow> (JBool b, nodes)
       | PInt i \<Rightarrow> (JInt i, nodes)
       | PFloat x \<Rightarrow> (JFloat x, nodes)
       | PStr s \<Rightarrow> (JStr (redact_text env 16384 s), nodes)
       | PEnum s \<Rightarrow> (JStr (redact_text env 16384 s), nodes)
       | PDict d \<Rightarrow> (case redact_fields env md mn d (depth + 1) nodes of (e, n) \<Rightarrow> (JObj e, n))
       | PList xs \<Rightarrow> (case redact_items env md mn xs (depth + 1) nodes of (ys, n) \<Rightarrow> (JArr ys, n))
       | _ \<Rightarrow> (JStr (redact_text env 16384 (re_str env item)), nodes)))"
| "redact_items env md mn [] depth nodes = ([], nodes)"
| "redact_items env md mn (x # xs) depth nodes =
    (case redact_walk env md mn x depth False nodes of (y, n) \<Rightarrow>
     case redact_items env md mn xs depth n of (ys, n) \<Rightarrow> (y # ys, n))"
| "redact_fields env md mn [] depth nodes = ([], nodes)"
| "redact_fields env md mn (kv # d) depth nodes =
    (case redact_walk env md mn (snd kv) depth
        (is_sensitive_key (fst kv) \<and> \<not> is_non_secret_security_fact (fst kv) (snd kv)) nodes of (y, n) \<Rightarrow>
     case redact_fields env md mn d depth n of (e, n) \<Rightarrow> ((fst kv, y) # e, n))"
  by pat_completeness auto
termination
  by (relation "measure (\<lambda>x. case x of
        Inl (_, _, _, v, _, _, _) \<Rightarrow> size v
      | Inr (Inl (_, _, _, xs, _, _)) \<Rightarrow> size_list size xs
      | Inr (Inr (_, _, _, d, _, _)) \<Rightarrow> size_list (size_prod (\<lambda>_. 0) size) d)") (auto simp: prod_eq_iff)

declare redact_walk.simps [simp del]

definition redact_value :: "redaction_env \<Rightarrow> pyval \<Rightarrow> json" where
  "redact_value env value = fst (redact_walk env 12 20000 value 0 False 0)"

definition redact_mapping :: "redaction_env \<Rightarrow> pyval \<Rightarrow> jobj" where
  "redact_mapping env value = (case redact_value env value of JObj d \<Rightarrow> d | redacted \<Rightarrow> [(''value'', redacted)])"

section \<open>Command lines\<close>

definition sensitive_flags :: "string list" where
  "sensitive_flags = [''--password'', ''--passwd'', ''--secret'', ''--token'', ''--api-key'', ''--api_key'', ''--access-key'',
     ''--client-secret'', ''--authorization'', ''--cookie'', ''--session-token'']"

fun redact_arguments :: "redaction_env \<Rightarrow> bool \<Rightarrow> string list \<Rightarrow> string list" where
  "redact_arguments env redact_next [] = []"
| "redact_arguments env redact_next (argument # rest) =
    (if redact_next then redacted_text # redact_arguments env False rest
     else
       let flag = takeWhile (\<lambda>c. c \<noteq> CHR ''='') argument in
       if py_lower flag \<in> set sensitive_flags then
         (if CHR ''='' \<in> set argument then (flag @ ''='' @ redacted_text) # redact_arguments env False rest
          else argument # redact_arguments env True rest)
       else redact_text env 4096 argument # redact_arguments env False rest)"

section \<open>Log lines\<close>

text \<open>\<open>_CONTROL\<close> leaves the tabulator and the two line breaks, which \<open>clean\<close> escapes.\<close>

definition log_char :: "char \<Rightarrow> string" where
  "log_char c = (let n = code_point c in
     if n = 13 then [CHR 0x5C, CHR ''r''] else if n = 10 then [CHR 0x5C, CHR ''n'']
     else if (n < 32 \<and> n \<noteq> 9) \<or> n = 127 then ''?'' else [c])"

definition log_text :: "string \<Rightarrow> string" where
  "log_text s = concat (map log_char s)"

fun log_clean :: "json \<Rightarrow> json" where
  "log_clean (JStr s) = JStr (log_text s)"
| "log_clean (JObj d) = JObj (dict_update [] (map (\<lambda>kv. (log_text (fst kv), log_clean (snd kv))) d))"
| "log_clean (JArr xs) = JArr (map log_clean xs)"
| "log_clean v = v"

definition sanitize_for_log :: "redaction_env \<Rightarrow> pyval \<Rightarrow> json" where
  "sanitize_for_log env value = log_clean (redact_value env value)"

section \<open>What a reader of the output learns\<close>

text \<open>
  Two values are indistinguishable when they differ only below sensitive keys that hold no plain
  fact: the redacted copies are equal.
\<close>

fun same_public :: "pyval \<Rightarrow> pyval \<Rightarrow> bool"
  and same_public_items :: "pyval list \<Rightarrow> pyval list \<Rightarrow> bool"
  and same_public_fields :: "(string \<times> pyval) list \<Rightarrow> (string \<times> pyval) list \<Rightarrow> bool" where
  "same_public (PList xs) w = (case w of PList ys \<Rightarrow> same_public_items xs ys | _ \<Rightarrow> False)"
| "same_public (PDict d) w = (case w of PDict e \<Rightarrow> same_public_fields d e | _ \<Rightarrow> False)"
| "same_public v w = (v = w)"
| "same_public_items [] ys = (ys = [])"
| "same_public_items (x # xs) ys = (case ys of [] \<Rightarrow> False | y # ys \<Rightarrow> same_public x y \<and> same_public_items xs ys)"
| "same_public_fields [] e = (e = [])"
| "same_public_fields (kv # d) e =
    (case e of [] \<Rightarrow> False
     | kw # e \<Rightarrow> fst kv = fst kw
         \<and> ((is_sensitive_key (fst kv) \<and> \<not> is_non_secret_security_fact (fst kv) (snd kv)
               \<and> \<not> is_non_secret_security_fact (fst kw) (snd kw))
             \<or> same_public (snd kv) (snd kw))
         \<and> same_public_fields d e)"

lemma same_public_fact:
  "same_public v w \<Longrightarrow> is_non_secret_security_fact k v \<longleftrightarrow> is_non_secret_security_fact k w"
  by (cases v) (auto simp: is_non_secret_security_fact_def split: pyval.splits)

lemma redact_walk_sensitive:
  "redact_walk env md mn v depth True nodes
     = (JStr (if mn < nodes + 1 \<or> md < depth then truncated_text else redacted_text), nodes + 1)"
  by (simp add: redact_walk.simps Let_def)

lemma redact_walk_public:
  shows "same_public v w \<Longrightarrow> redact_walk env md mn v depth sensitive nodes = redact_walk env md mn w depth sensitive nodes"
    and "same_public_items xs ys \<Longrightarrow> redact_items env md mn xs depth nodes = redact_items env md mn ys depth nodes"
    and "same_public_fields d e \<Longrightarrow> redact_fields env md mn d depth nodes = redact_fields env md mn e depth nodes"
proof (induction v w and xs ys and d e arbitrary: depth sensitive nodes and depth nodes and depth nodes
    rule: same_public_same_public_items_same_public_fields.induct [case_names PList PDict PNone PBool PInt PFloat PStr
      PEnum PTime PSet nil_items cons_items nil_entries cons_entries])
  case (PList xs w)
  then show ?case by (cases w) (auto simp: redact_walk.simps Let_def)
next
  case (PDict d w)
  then show ?case by (cases w) (auto simp: redact_walk.simps Let_def)
next
  case (cons_items x xs ys)
  then show ?case by (cases ys) auto
next
  case (cons_entries kv d e)
  then show ?case by (cases e) (auto simp: redact_walk_sensitive same_public_fact)
qed auto

text \<open>The texts of a value, keys included.\<close>

fun json_texts :: "json \<Rightarrow> string list" where
  "json_texts (JStr s) = [s]"
| "json_texts (JArr xs) = concat (map json_texts xs)"
| "json_texts (JObj d) = concat (map (\<lambda>kv. fst kv # json_texts (snd kv)) d)"
| "json_texts _ = []"

definition log_safe :: "string \<Rightarrow> bool" where
  "log_safe s \<longleftrightarrow> list_all (\<lambda>c. code_point c = 9 \<or> \<not> control_char c) s"

lemma log_text_safe: "log_safe (log_text s)"
  by (induction s) (auto simp: log_safe_def log_text_def log_char_def control_char_def code_point_def Let_def)

lemma set_dict_set: "set (dict_set k v d) \<subseteq> insert (k, v) (set d)"
  unfolding dict_set_def by (induction d) (auto split: if_splits)

lemma set_dict_update: "set (dict_update d kvs) \<subseteq> set d \<union> set kvs"
proof (induction d kvs rule: dict_update.induct)
  case (2 d k v kvs)
  then show ?case using set_dict_set [of k v d] by auto
qed simp

lemma log_clean_safe: "list_all log_safe (json_texts (log_clean v))"
proof (induction v rule: json_induct)
  case (JObj d)
  have "list_all log_safe (fst kw # json_texts (snd kw))"
    if kw: "kw \<in> set (dict_update [] (map (\<lambda>kv. (log_text (fst kv), log_clean (snd kv))) d))" for kw
  proof -
    obtain k v where "(k, v) \<in> set d" "kw = (log_text k, log_clean v)"
      using kw set_dict_update [of "[]" "map (\<lambda>kv. (log_text (fst kv), log_clean (snd kv))) d"] by fastforce
    then show ?thesis using JObj log_text_safe by auto
  qed
  then show ?case by (auto simp: list_all_iff)
next
  case (JArr xs)
  then show ?case by (auto simp: list_all_iff)
qed (simp_all add: log_text_safe)

lemma redact_arguments_length: "length (redact_arguments env b xs) = length xs"
  by (induction env b xs rule: redact_arguments.induct) (auto simp: Let_def)

end
