(* ===== verification/Policy_Engine.thy ===== *)
theory Policy_Engine
  imports Redaction Serialization
begin

text \<open>
  The policy engine of \<^verbatim>\<open>app/policies/engine.py\<close> over the conditions and rules of
  \<^verbatim>\<open>app/policies/models.py\<close>. An evaluation carries the operations left in its budget; the deadline is
  a predicate of that number, and what a call raises is a value. The parser of \<open>Decimal\<close>, the decimal a
  float is printed as, the parser of ISO times and \<open>uuid5\<close> are parameters.
\<close>

section \<open>Documents\<close>

datatype condition_operator =
    OP_EQUALS | OP_NOT_EQUALS | OP_CONTAINS | OP_NOT_CONTAINS | OP_EXISTS | OP_NOT_EXISTS
  | OP_GREATER_THAN | OP_LESS_THAN | OP_AND | OP_OR | OP_ANY_ITEM

datatype policy_condition =
  Condition (pc_field: "string option") (pc_operator: condition_operator) (pc_value: json)
    (pc_conditions: "policy_condition list")

text \<open>\<open>validate_shape\<close>; \<open>given\<close> says whether the document has a value.\<close>

definition validate_shape :: "bool \<Rightarrow> policy_condition \<Rightarrow> py_error + policy_condition" where
  "validate_shape given c =
    (let no_field = pc_field c = None; no_children = pc_conditions c = []; valued = given \<and> pc_value c \<noteq> JNull;
         name = (case pc_operator c of OP_EQUALS \<Rightarrow> ''equals'' | OP_NOT_EQUALS \<Rightarrow> ''not_equals'' | OP_CONTAINS \<Rightarrow> ''contains''
           | OP_NOT_CONTAINS \<Rightarrow> ''not_contains'' | OP_EXISTS \<Rightarrow> ''exists'' | OP_NOT_EXISTS \<Rightarrow> ''not_exists''
           | OP_GREATER_THAN \<Rightarrow> ''greater_than'' | OP_LESS_THAN \<Rightarrow> ''less_than'' | OP_AND \<Rightarrow> ''AND'' | OP_OR \<Rightarrow> ''OR''
           | OP_ANY_ITEM \<Rightarrow> ''any_item'')
     in if pc_operator c = OP_ANY_ITEM then
          (if no_field \<or> no_children then Inl (ValueError ''any_item requires a collection field and child conditions'')
           else if valued then Inl (ValueError ''any_item cannot specify a value'') else Inr c)
        else if pc_operator c = OP_AND \<or> pc_operator c = OP_OR then
          (if \<not> no_field \<or> no_children then Inl (ValueError ''AND/OR conditions require children and cannot specify a field'')
           else if valued then Inl (ValueError ''AND/OR conditions cannot specify a value'') else Inr c)
        else if no_field \<or> \<not> no_children
        then Inl (ValueError ''leaf conditions require field and cannot have child conditions'')
        else if pc_operator c \<noteq> OP_EXISTS \<and> pc_operator c \<noteq> OP_NOT_EXISTS \<and> \<not> given
        then Inl (ValueError (name @ '' requires value''))
        else if (pc_operator c = OP_EXISTS \<or> pc_operator c = OP_NOT_EXISTS) \<and> valued
        then Inl (ValueError (name @ '' does not accept value''))
        else Inr c)"

record policy_rule =
  pr_rule_id :: string
  pr_title :: string
  pr_severity :: string
  pr_category :: string
  pr_description :: string
  pr_condition :: policy_condition
  pr_remediation :: string
  pr_references :: "string list"
  pr_evidence_fields :: "string list"
  pr_platforms :: "string list"
  pr_scan_types :: "string list"
  pr_enabled :: bool
  pr_tags :: "string list"
  pr_exploitability :: "rat option"
  pr_exposure :: "rat option"
  pr_compliance_impact :: "rat option"

record policy_bundle =
  pb_schema_version :: string
  pb_policy_id :: string
  pb_policy_version :: string
  pb_description :: "string option"
  pb_rules :: "policy_rule list"

text \<open>The checks of the models: spellings of an operator, field paths, tags, and rule names that differ.\<close>

definition accept_boolean_forms :: "jobj \<Rightarrow> py_error + jobj" where
  "accept_boolean_forms copied =
    (let present = filter (\<lambda>(key, _). dict_has key copied) [(''all'', ''AND''), (''any'', ''OR'')];
         spelled = (\<lambda>d. case dict_get d ''operator'' of
             Some (JStr raw) \<Rightarrow> (let logical = map upper_char raw in
               dict_set ''operator'' (JStr (if logical \<in> {''AND'', ''OR''} then logical else py_lower raw)) d)
           | _ \<Rightarrow> d)
     in case present of
          [] \<Rightarrow> Inr (spelled copied)
        | (key, operator) # others \<Rightarrow>
          if others \<noteq> [] \<or> dict_has ''operator'' copied \<or> dict_has ''conditions'' copied
          then Inl (ValueError ''condition cannot mix all/any with operator/conditions'')
          else Inr (spelled (dict_set ''conditions'' (jget key copied)
            (dict_pop key (dict_set ''operator'' (JStr operator) copied)))))"

definition path_char :: "char \<Rightarrow> bool" where
  "path_char c \<longleftrightarrow> (let n = code_point c in
     (48 \<le> n \<and> n \<le> 57) \<or> (65 \<le> n \<and> n \<le> 90) \<or> (97 \<le> n \<and> n \<le> 122) \<or> c = CHR ''_'' \<or> c = CHR ''-'')"

definition field_path_ok :: "string \<Rightarrow> bool" where
  "field_path_ok path \<longleftrightarrow>
    (case split_on (CHR ''.'') path of
       [] \<Rightarrow> False
     | first # rest \<Rightarrow> first \<noteq> [] \<and> list_all path_char first
         \<and> list_all (\<lambda>segment. segment = ''*'' \<or> (segment \<noteq> [] \<and> list_all path_char segment)) rest)"

definition validate_evidence_fields :: "string list \<Rightarrow> py_error + string list" where
  "validate_evidence_fields paths =
    (if list_ex (\<lambda>path. \<not> field_path_ok path) paths then Inl (ValueError ''invalid evidence field path'') else Inr paths)"

definition validate_tags :: "string list \<Rightarrow> py_error + string list" where
  "validate_tags tags =
    (if list_ex (\<lambda>tag. tag = [] \<or> 64 < length tag) tags
     then Inl (ValueError ''policy tags must contain 1-64 characters'') else Inr tags)"

definition unique_rule_ids :: "runtime \<Rightarrow> policy_bundle \<Rightarrow> py_error + policy_bundle" where
  "unique_rule_ids rt b =
    (let ids = map pr_rule_id (pb_rules b) in
     if length (remdups ids) \<noteq> length ids
     then Inl (ValueError (''duplicate policy rule IDs: '' @
       py_repr rt (JArr (map JStr (sort (remdups (filter (\<lambda>i. 1 < count_list ids i) ids)))))))
     else Inr b)"

definition enabled_rules :: "policy_bundle \<Rightarrow> policy_rule list" where
  "enabled_rules b = filter pr_enabled (pb_rules b)"

record evaluation_context =
  ec_scan_id :: string
  ec_endpoint_id :: "string option"
  ec_asset :: "string option"
  ec_scanner_version :: string
  ec_detected_at :: int
  ec_platform :: "string option"
  ec_scan_type :: "string option"

text \<open>The naive times \<open>ensure_aware\<close> refuses do not occur: a time of the model has an offset.\<close>

definition validate_subject :: "evaluation_context \<Rightarrow> py_error + evaluation_context" where
  "validate_subject ctx =
    (if ec_endpoint_id ctx \<in> {None, Some []} \<and> ec_asset ctx \<in> {None, Some []}
     then Inl (ValueError ''evaluation context requires endpoint_id or asset'') else Inr ctx)"

record finding =
  fi_finding_id :: string
  fi_schema_version :: string
  fi_scanner_version :: string
  fi_scan_id :: string
  fi_rule_id :: string
  fi_title :: string
  fi_severity :: string
  fi_category :: string
  fi_description :: string
  fi_endpoint_id :: "string option"
  fi_asset :: "string option"
  fi_evidence :: jobj
  fi_remediation :: string
  fi_references :: "string list"
  fi_detected_at :: int
  fi_first_seen_at :: int
  fi_status :: string
  fi_exploitability :: "rat option"
  fi_exposure :: "rat option"
  fi_compliance_impact :: "rat option"
  fi_tags :: "string list"

record policy_env =
  pe_redaction :: redaction_env
  pe_decimal :: "string \<Rightarrow> pyfloat option"
  pe_float_decimal :: "rat \<Rightarrow> rat"
  pe_fromisoformat :: "string \<Rightarrow> int option option"
  pe_uuid5 :: "string \<Rightarrow> string"

section \<open>The budget\<close>

type_synonym 'a eval = "int \<Rightarrow> py_error + ('a \<times> int)"

definition ev_return :: "'a \<Rightarrow> 'a eval" where
  "ev_return x = (\<lambda>left. Inr (x, left))"

definition ev_raise :: "py_error \<Rightarrow> 'a eval" where
  "ev_raise e = (\<lambda>left. Inl e)"

definition ev_bind :: "'a eval \<Rightarrow> ('a \<Rightarrow> 'b eval) \<Rightarrow> 'b eval" where
  "ev_bind m f = (\<lambda>left. case m left of Inl e \<Rightarrow> Inl e | Inr (x, left) \<Rightarrow> f x left)"

definition ev_lift :: "py_error + 'a \<Rightarrow> 'a eval" where
  "ev_lift r = (case r of Inl e \<Rightarrow> ev_raise e | Inr x \<Rightarrow> ev_return x)"

definition budget_error :: py_error where
  "budget_error = RuntimeError ''policy evaluation operation budget exceeded''"

definition deadline_error :: py_error where
  "deadline_error = TimeoutError ''scan execution deadline exceeded during policy evaluation''"

definition consume :: "(int \<Rightarrow> bool) \<Rightarrow> unit eval" where
  "consume expired = (\<lambda>left. let left = left - 1 in
     if left < 0 then Inl budget_error else if expired left then Inl deadline_error else Inr ((), left))"

text \<open>\<open>any\<close>, \<open>all\<close> and a list comprehension over a generator that consumes budget.\<close>

fun any_m :: "('a \<Rightarrow> bool eval) \<Rightarrow> 'a list \<Rightarrow> bool eval" where
  "any_m f [] = ev_return False"
| "any_m f (x # xs) = ev_bind (f x) (\<lambda>b. if b then ev_return True else any_m f xs)"

fun all_m :: "('a \<Rightarrow> bool eval) \<Rightarrow> 'a list \<Rightarrow> bool eval" where
  "all_m f [] = ev_return True"
| "all_m f (x # xs) = ev_bind (f x) (\<lambda>b. if b then all_m f xs else ev_return False)"

fun collect_m :: "('a \<Rightarrow> 'b list eval) \<Rightarrow> 'a list \<Rightarrow> 'b list eval" where
  "collect_m f [] = ev_return []"
| "collect_m f (x # xs) = ev_bind (f x) (\<lambda>ys. ev_bind (collect_m f xs) (\<lambda>zs. ev_return (ys @ zs)))"

fun filter_m :: "('a \<Rightarrow> bool eval) \<Rightarrow> 'a list \<Rightarrow> 'a list eval" where
  "filter_m f [] = ev_return []"
| "filter_m f (x # xs) = ev_bind (f x) (\<lambda>b. ev_bind (filter_m f xs) (\<lambda>ys. ev_return (if b then x # ys else ys)))"

lemma monadic_cong [fundef_cong]:
  shows "xs = ys \<Longrightarrow> (\<And>x. x \<in> set ys \<Longrightarrow> f x = g x) \<Longrightarrow> any_m f xs = any_m g ys"
    and "xs = ys \<Longrightarrow> (\<And>x. x \<in> set ys \<Longrightarrow> f x = g x) \<Longrightarrow> all_m f xs = all_m g ys"
    and "xs = ys \<Longrightarrow> (\<And>x. x \<in> set ys \<Longrightarrow> f' x = g' x) \<Longrightarrow> collect_m f' xs = collect_m g' ys"
proof -
  show "xs = ys \<Longrightarrow> (\<And>x. x \<in> set ys \<Longrightarrow> f x = g x) \<Longrightarrow> any_m f xs = any_m g ys"
    by (induction ys arbitrary: xs) (simp_all cong: if_cong)
  show "xs = ys \<Longrightarrow> (\<And>x. x \<in> set ys \<Longrightarrow> f x = g x) \<Longrightarrow> all_m f xs = all_m g ys"
    by (induction ys arbitrary: xs) (simp_all cong: if_cong)
  show "xs = ys \<Longrightarrow> (\<And>x. x \<in> set ys \<Longrightarrow> f' x = g' x) \<Longrightarrow> collect_m f' xs = collect_m g' ys"
    by (induction ys arbitrary: xs) (simp_all cong: if_cong)
qed

section \<open>Paths\<close>

lemma size_dict_value:
  assumes "v \<in> set (dict_values d)"
  shows "size v < size (PDict d)"
proof -
  obtain k where "(k, v) \<in> set d" using assms by (auto simp: dict_values_def)
  then have "size v \<le> size_list (size_prod (\<lambda>_. 0) size) d"
    by (rule size_list_estimation') simp
  then show ?thesis by simp
qed

lemma size_dict_get: "dict_get d k = Some v \<Longrightarrow> size v < size (PDict d)"
  by (rule size_dict_value) (force simp: dict_get_def dict_values_def dest: map_of_SomeD)

function walk_path :: "(int \<Rightarrow> bool) \<Rightarrow> string list \<Rightarrow> pyval \<Rightarrow> pyval list eval" where
  "walk_path expired segments current = ev_bind (consume expired) (\<lambda>_.
    (case segments of
       [] \<Rightarrow> ev_return [current]
     | segment # rest \<Rightarrow>
       (case current of
          PDict d \<Rightarrow>
            if segment = ''*'' then collect_m (walk_path expired rest) (dict_values d)
            else (case dict_get d segment of None \<Rightarrow> ev_return [] | Some v \<Rightarrow> walk_path expired rest v)
        | PList xs \<Rightarrow> collect_m (walk_path expired segments) xs
        | _ \<Rightarrow> ev_return [])))"
  by pat_completeness auto
termination
proof (relation "measure (\<lambda>(expired, segments, current). size current)")
  show "wf (measure (\<lambda>(expired :: int \<Rightarrow> bool, segments :: string list, current :: pyval). size current))" by simp
qed (auto simp: less_Suc_eq_le size_list_estimation' dest!: size_dict_value size_dict_get)

definition resolve_values :: "(int \<Rightarrow> bool) \<Rightarrow> string \<Rightarrow> pyval \<Rightarrow> pyval list eval" where
  "resolve_values expired field data = walk_path expired (split_on (CHR ''.'') field) data"

section \<open>Comparisons\<close>

text \<open>\<open>Decimal(str(value))\<close>, \<open>None\<close> where the text is no number.\<close>

definition decimal_of :: "policy_env \<Rightarrow> pyval \<Rightarrow> pyfloat option" where
  "decimal_of env v = (case v of
     PInt i \<Rightarrow> Some (Finite (of_int i))
   | PFloat (Finite q) \<Rightarrow> Some (Finite (pe_float_decimal env q))
   | PFloat x \<Rightarrow> Some x
   | PStr s \<Rightarrow> pe_decimal env s
   | PEnum s \<Rightarrow> pe_decimal env s
   | _ \<Rightarrow> None)"

definition is_bool :: "pyval \<Rightarrow> bool" where
  "is_bool v = (case v of PBool _ \<Rightarrow> True | _ \<Rightarrow> False)"

definition is_number :: "pyval \<Rightarrow> bool" where
  "is_number v = (case v of PInt _ \<Rightarrow> True | PFloat _ \<Rightarrow> True | _ \<Rightarrow> False)"

definition equivalent :: "policy_env \<Rightarrow> pyval \<Rightarrow> json \<Rightarrow> bool" where
  "equivalent env actual expected =
    (let e = of_json expected in
     if is_bool actual \<or> is_bool e then actual = e
     else if is_number actual \<and> is_number e
     then (case (decimal_of env actual, decimal_of env e) of (Some x, Some y) \<Rightarrow> float_eq x y | _ \<Rightarrow> False)
     else (case as_json actual of Some j \<Rightarrow> py_eq j expected | None \<Rightarrow> False))"

definition hashable :: "json \<Rightarrow> bool" where
  "hashable v = (case v of JArr _ \<Rightarrow> False | JObj _ \<Rightarrow> False | _ \<Rightarrow> True)"

text \<open>\<open>expected in mapping\<close> raises where the value is not hashable.\<close>

definition contains_value :: "policy_env \<Rightarrow> pyval \<Rightarrow> json \<Rightarrow> py_error + bool" where
  "contains_value env actual expected =
    (let text = (case actual of PStr s \<Rightarrow> Some s | PEnum s \<Rightarrow> Some s | _ \<Rightarrow> None) in
     case (text, expected) of
       (Some s, JStr t) \<Rightarrow> Inr (is_infix t s)
     | _ \<Rightarrow>
       (case actual of
          PDict d \<Rightarrow> if hashable expected then Inr (case expected of JStr t \<Rightarrow> dict_has t d | _ \<Rightarrow> False)
            else Inl (TypeError ''unhashable type'')
        | PList xs \<Rightarrow> Inr (list_ex (\<lambda>item. equivalent env item expected) xs)
        | PSet xs \<Rightarrow> Inr (list_ex (\<lambda>item. equivalent env item expected) xs)
        | _ \<Rightarrow> Inr False))"

fun decimal_less :: "pyfloat \<Rightarrow> pyfloat \<Rightarrow> bool option" where
  "decimal_less NotANumber _ = None"
| "decimal_less _ NotANumber = None"
| "decimal_less (Finite x) (Finite y) = Some (x < y)"
| "decimal_less NegInf y = Some (y \<noteq> NegInf)"
| "decimal_less x PosInf = Some (x \<noteq> PosInf)"
| "decimal_less _ _ = Some False"

definition decimal_compare :: "policy_env \<Rightarrow> pyval \<Rightarrow> pyval \<Rightarrow> bool \<Rightarrow> bool option" where
  "decimal_compare env actual expected want_more =
    (case (decimal_of env actual, decimal_of env expected) of
       (Some x, Some y) \<Rightarrow> if want_more then decimal_less y x else decimal_less x y
     | _ \<Rightarrow> None)"

text \<open>
  \<open>_ordered_compare\<close>: the order of decimals, which a NaN refuses, then of a time and a text that is
  one. A text without offset gives a naive time, which Python does not compare with an aware one.
\<close>

definition ordered_compare :: "policy_env \<Rightarrow> pyval \<Rightarrow> json \<Rightarrow> bool \<Rightarrow> py_error + bool" where
  "ordered_compare env actual expected want_more =
    (if is_bool actual \<or> is_bool (of_json expected) then Inr False
     else (case decimal_compare env actual (of_json expected) want_more of
         Some b \<Rightarrow> Inr b
       | None \<Rightarrow>
         (case (actual, expected) of
            (PTime t, JStr s) \<Rightarrow>
              (case pe_fromisoformat env (replace_char (CHR ''Z'') ''+00:00'' s) of
                 None \<Rightarrow> Inr False
               | Some None \<Rightarrow> Inl (TypeError ''can't compare offset-naive and offset-aware datetimes'')
               | Some (Some u) \<Rightarrow> Inr (if want_more then u < t else t < u))
          | _ \<Rightarrow> Inr False)))"

section \<open>Conditions\<close>

definition concrete :: "pyval list \<Rightarrow> pyval list" where
  "concrete values = filter (\<lambda>v. v \<noteq> PNone) values"

definition collection_items :: "pyval list \<Rightarrow> pyval list" where
  "collection_items values = concat (map (\<lambda>v. case v of PList xs \<Rightarrow> xs | _ \<Rightarrow> [v]) values)"

definition is_pdict :: "pyval \<Rightarrow> bool" where
  "is_pdict v = (case v of PDict _ \<Rightarrow> True | _ \<Rightarrow> False)"

text \<open>The test of a leaf on the values its path resolves to.\<close>

definition leaf_matches :: "policy_env \<Rightarrow> condition_operator \<Rightarrow> json \<Rightarrow> pyval list \<Rightarrow> bool eval" where
  "leaf_matches env op expected values =
    (if op = OP_EXISTS then ev_return (values \<noteq> [] \<and> list_ex (\<lambda>v. v \<noteq> PNone) values)
     else if op = OP_NOT_EXISTS then ev_return (values = [] \<or> list_all (\<lambda>v. v = PNone) values)
     else if concrete values = [] then ev_return False
     else if op = OP_EQUALS then ev_return (list_ex (\<lambda>v. equivalent env v expected) (concrete values))
     else if op = OP_NOT_EQUALS then ev_return (list_all (\<lambda>v. \<not> equivalent env v expected) (concrete values))
     else if op = OP_CONTAINS then any_m (\<lambda>v. ev_lift (contains_value env v expected)) (concrete values)
     else if op = OP_NOT_CONTAINS
     then all_m (\<lambda>v. ev_bind (ev_lift (contains_value env v expected)) (\<lambda>b. ev_return (\<not> b))) (concrete values)
     else if op = OP_GREATER_THAN then any_m (\<lambda>v. ev_lift (ordered_compare env v expected True)) (concrete values)
     else if op = OP_LESS_THAN then any_m (\<lambda>v. ev_lift (ordered_compare env v expected False)) (concrete values)
     else ev_raise AssertionError)"

function matches :: "policy_env \<Rightarrow> (int \<Rightarrow> bool) \<Rightarrow> policy_condition \<Rightarrow> pyval \<Rightarrow> bool eval" where
  "matches env expired (Condition field op expected children) data = ev_bind (consume expired) (\<lambda>_.
    if op = OP_AND then all_m (\<lambda>child. matches env expired child data) children
    else if op = OP_OR then any_m (\<lambda>child. matches env expired child data) children
    else (case field of
        None \<Rightarrow> ev_raise AssertionError
      | Some path \<Rightarrow> ev_bind (resolve_values expired path data) (\<lambda>values.
          if op = OP_ANY_ITEM
          then any_m (\<lambda>item. if is_pdict item then all_m (\<lambda>child. matches env expired child item) children
                 else ev_return False) (collection_items values)
          else leaf_matches env op expected values)))"
  by pat_completeness auto
termination
  by (relation "measure (\<lambda>(env, expired, c, data). size c)") (auto simp: less_Suc_eq_le size_list_estimation')

fun leaf_fields :: "policy_condition \<Rightarrow> string list" where
  "leaf_fields (Condition field op expected children) =
    (case field of
       Some f \<Rightarrow> if f \<noteq> [] then [f] else concat (map leaf_fields children)
     | None \<Rightarrow> concat (map leaf_fields children))"

text \<open>\<open>_relative_condition\<close>: what a condition says of one item of a collection.\<close>

fun relative_condition :: "policy_condition \<Rightarrow> string \<Rightarrow> policy_condition option" where
  "relative_condition (Condition field op expected children) collection =
    (if op = OP_ANY_ITEM
     then (if field = Some collection then Some (Condition None OP_AND JNull children) else None)
     else if op = OP_AND \<or> op = OP_OR then
       (case concat (map (\<lambda>child. case relative_condition child collection of None \<Rightarrow> [] | Some c \<Rightarrow> [c]) children) of
          [] \<Rightarrow> None
        | [c] \<Rightarrow> Some c
        | cs \<Rightarrow> Some (Condition None op JNull cs))
     else (case field of
         None \<Rightarrow> None
       | Some f \<Rightarrow>
         if starts_with (collection @ ''.'') f
         then Some (Condition (Some (drop (length collection + 1) f)) op expected children) else None))"

section \<open>Evidence\<close>

definition evidence_mark :: string where "evidence_mark = ''[truncated]''"

text \<open>
  \<open>_bounded_evidence\<close> on a redacted value, which is JSON: every other type has become text by then.
  The budget is the counter the fields of one finding share.
\<close>

function bounded_evidence :: "json \<Rightarrow> nat \<Rightarrow> nat \<Rightarrow> json \<times> nat"
  and evidence_items :: "json list \<Rightarrow> nat \<Rightarrow> nat \<Rightarrow> json list \<times> nat"
  and evidence_fields :: "(string \<times> json) list \<Rightarrow> jobj \<Rightarrow> nat \<Rightarrow> nat \<Rightarrow> jobj \<times> nat" where
  "bounded_evidence value budget depth =
    (if budget = 0 \<or> 6 \<le> depth then (JStr evidence_mark, budget)
     else let budget = budget - 1 in
       (case value of
          JStr s \<Rightarrow> (JStr (take 4096 s), budget)
        | JArr xs \<Rightarrow> (case evidence_items (take 64 xs) budget (depth + 1) of (ys, b) \<Rightarrow> (JArr ys, b))
        | JObj d \<Rightarrow>
            (case evidence_fields (take 64 (sort_key fst d)) [] budget (depth + 1) of (e, b) \<Rightarrow>
              (JObj (if 64 < length d \<or> b = 0 then dict_set ''_truncated'' (JBool True) e else e), b))
        | v \<Rightarrow> (v, budget)))"
| "evidence_items [] budget depth = ([], budget)"
| "evidence_items (x # xs) budget depth =
    (if budget = 0 then evidence_items xs budget depth
     else (case bounded_evidence x budget depth of (y, b) \<Rightarrow>
       case evidence_items xs b depth of (ys, b) \<Rightarrow> (y # ys, b)))"
| "evidence_fields [] result budget depth = (result, budget)"
| "evidence_fields (kv # d) result budget depth =
    (if budget = 0 then (result, budget)
     else (case bounded_evidence (snd kv) budget depth of (y, b) \<Rightarrow>
       evidence_fields d (dict_set (take 256 (fst kv)) y result) b depth))"
  by pat_completeness auto
termination
  by (relation "measures [\<lambda>x. case x of
        Inl (_, _, depth) \<Rightarrow> 2 * (7 - depth) + 1
      | Inr (Inl (_, _, depth)) \<Rightarrow> 2 * (7 - depth) + 2
      | Inr (Inr (_, _, _, depth)) \<Rightarrow> 2 * (7 - depth) + 2,
      \<lambda>x. case x of Inl _ \<Rightarrow> 0 | Inr (Inl (xs, _, _)) \<Rightarrow> length xs | Inr (Inr (d, _, _, _)) \<Rightarrow> length d]") auto

declare bounded_evidence.simps [simp del]

text \<open>The value shown for one field: a long collection becomes a sample of its matching items.\<close>

definition evidence_value :: "policy_env \<Rightarrow> (int \<Rightarrow> bool) \<Rightarrow> policy_condition \<Rightarrow> string \<Rightarrow> pyval list \<Rightarrow> pyval eval" where
  "evidence_value env expired c field values =
    (let raw = (case values of [v] \<Rightarrow> v | _ \<Rightarrow> PList values) in
     case raw of
       PList items \<Rightarrow>
         ev_bind (case relative_condition c field of
             None \<Rightarrow> ev_return items
           | Some relative \<Rightarrow> filter_m (\<lambda>item. if is_pdict item then matches env expired relative item else ev_return False) items)
           (\<lambda>matched. ev_return (let sample = take 20 matched in
              if length sample < length matched
              then PDict [(''matched_count'', PInt (int (length matched))), (''sample'', PList sample), (''truncated'', PBool True)]
              else PList sample))
     | _ \<Rightarrow> ev_return raw)"

fun collect_evidence ::
    "policy_env \<Rightarrow> (int \<Rightarrow> bool) \<Rightarrow> policy_condition \<Rightarrow> pyval \<Rightarrow> string list \<Rightarrow> jobj \<Rightarrow> nat \<Rightarrow> jobj eval" where
  "collect_evidence env expired c data [] evidence budget = ev_return evidence"
| "collect_evidence env expired c data (path # paths) evidence budget =
    ev_bind (resolve_values expired path data) (\<lambda>values.
      if values = [] then collect_evidence env expired c data paths evidence budget
      else ev_bind (evidence_value env expired c path values) (\<lambda>raw.
        case bounded_evidence (redact_value (pe_redaction env) raw) budget 0 of
          (shown, budget) \<Rightarrow> collect_evidence env expired c data paths (dict_set path shown evidence) budget))"

section \<open>Evaluation\<close>

definition os_families :: "string list" where
  "os_families = [''WINDOWS'', ''LINUX'', ''MACOS'', ''UNKNOWN'']"

definition observed_family :: "pyval list \<Rightarrow> string option" where
  "observed_family values =
    (case values of
       PStr s # _ \<Rightarrow> if s \<in> set os_families then Some s else None
     | PEnum s # _ \<Rightarrow> if s \<in> set os_families then Some s else None
     | _ \<Rightarrow> None)"

definition rule_allows :: "policy_rule \<Rightarrow> evaluation_context \<Rightarrow> string option \<Rightarrow> bool" where
  "rule_allows rule ctx platform =
    (if pr_platforms rule \<noteq> [] \<and> (case platform of None \<Rightarrow> True | Some p \<Rightarrow> p \<notin> set (pr_platforms rule)) then False
     else pr_scan_types rule = [] \<or> (case ec_scan_type ctx of None \<Rightarrow> False | Some t \<Rightarrow> t \<in> set (pr_scan_types rule)))"

definition is_applicable :: "(int \<Rightarrow> bool) \<Rightarrow> policy_rule \<Rightarrow> pyval \<Rightarrow> evaluation_context \<Rightarrow> bool eval" where
  "is_applicable expired rule data ctx =
    ev_bind (case ec_platform ctx of
        Some p \<Rightarrow> ev_return (Some p)
      | None \<Rightarrow> ev_bind (resolve_values expired ''os.family'' data) (\<lambda>values. ev_return (observed_family values)))
      (\<lambda>platform. ev_return (rule_allows rule ctx platform))"

definition nonempty :: "string option \<Rightarrow> string option" where
  "nonempty s = (if s = Some [] then None else s)"

text \<open>
  The finding; its model refuses evidence beyond eight levels or five thousand nodes, redacts it again,
  and refuses a finding without a subject. The bounds it puts on the texts are those of the rule.
\<close>

definition make_finding ::
    "policy_env \<Rightarrow> (int \<Rightarrow> bool) \<Rightarrow> policy_bundle \<Rightarrow> policy_rule \<Rightarrow> pyval \<Rightarrow> evaluation_context \<Rightarrow> finding eval" where
  "make_finding env expired bundle rule data ctx =
    (let paths = (if pr_evidence_fields rule \<noteq> [] then pr_evidence_fields rule
           else sort (remdups (leaf_fields (pr_condition rule))));
         subject = (case nonempty (ec_endpoint_id ctx) of Some s \<Rightarrow> s
           | None \<Rightarrow> (case nonempty (ec_asset ctx) of Some a \<Rightarrow> a | None \<Rightarrow> ''unknown''))
     in ev_bind (collect_evidence env expired (pr_condition rule) data paths [] 4000) (\<lambda>evidence.
        ev_bind (ev_lift (bounded_json 8 5000 (JObj evidence))) (\<lambda>checked.
        if nonempty (ec_endpoint_id ctx) = None \<and> nonempty (ec_asset ctx) = None
        then ev_raise (ValueError ''finding must identify an endpoint or asset'')
        else ev_return \<lparr>
          fi_finding_id = ''finding-'' @ pe_uuid5 env (subject @ '':'' @ pb_policy_id bundle @ '':'' @ pr_rule_id rule),
          fi_schema_version = pb_schema_version bundle,
          fi_scanner_version = ec_scanner_version ctx, fi_scan_id = ec_scan_id ctx, fi_rule_id = pr_rule_id rule,
          fi_title = pr_title rule, fi_severity = pr_severity rule, fi_category = pr_category rule,
          fi_description = pr_description rule,
          fi_endpoint_id = ec_endpoint_id ctx, fi_asset = ec_asset ctx,
          fi_evidence = redact_mapping (pe_redaction env) (of_json checked),
          fi_remediation = pr_remediation rule, fi_references = pr_references rule, fi_detected_at = ec_detected_at ctx,
          fi_first_seen_at = ec_detected_at ctx, fi_status = ''OPEN'', fi_exploitability = pr_exploitability rule, fi_exposure = pr_exposure rule,
          fi_compliance_impact = pr_compliance_impact rule, fi_tags = pr_tags rule \<rparr>)))"

fun evaluate_rules ::
    "policy_env \<Rightarrow> (int \<Rightarrow> bool) \<Rightarrow> policy_bundle \<Rightarrow> pyval \<Rightarrow> evaluation_context \<Rightarrow> policy_rule list \<Rightarrow> finding list eval" where
  "evaluate_rules env expired bundle data ctx [] = ev_return []"
| "evaluate_rules env expired bundle data ctx (rule # rules) =
    ev_bind (consume expired) (\<lambda>_.
    ev_bind (if \<not> pr_enabled rule then ev_return False else is_applicable expired rule data ctx) (\<lambda>applicable.
    ev_bind (if applicable then matches env expired (pr_condition rule) data else ev_return False) (\<lambda>matched.
    ev_bind (if matched then ev_bind (make_finding env expired bundle rule data ctx) (\<lambda>f. ev_return [f]) else ev_return []) (\<lambda>found.
    ev_bind (evaluate_rules env expired bundle data ctx rules) (\<lambda>rest. ev_return (found @ rest))))))"

definition evaluate ::
    "policy_env \<Rightarrow> (int \<Rightarrow> bool) \<Rightarrow> policy_bundle \<Rightarrow> pyval \<Rightarrow> evaluation_context \<Rightarrow> int \<Rightarrow> py_error + finding list" where
  "evaluate env expired bundle data ctx max_operations =
    (if \<not> (1 \<le> max_operations \<and> max_operations \<le> 100000000)
     then Inl (ValueError ''max_operations must be between 1 and 100,000,000'')
     else (case ev_bind (consume expired) (\<lambda>_.
           if \<not> is_pdict data then ev_raise (TypeError ''policy data must be a Pydantic model or mapping'')
           else evaluate_rules env expired bundle data ctx (pb_rules bundle)) max_operations of
         Inl e \<Rightarrow> Inl e | Inr (findings, _) \<Rightarrow> Inr findings))"

text \<open>The entry points with a budget of their own.\<close>

definition run_eval :: "'a eval \<Rightarrow> int \<Rightarrow> py_error + 'a" where
  "run_eval m budget = (case m budget of Inl e \<Rightarrow> Inl e | Inr (x, _) \<Rightarrow> Inr x)"

definition evaluate_rule :: "policy_env \<Rightarrow> policy_rule \<Rightarrow> pyval \<Rightarrow> py_error + bool" where
  "evaluate_rule env rule data =
    (if \<not> is_pdict data then Inl (TypeError ''policy data must be a Pydantic model or mapping'')
     else if pr_enabled rule then run_eval (matches env (\<lambda>_. False) (pr_condition rule) data) 1000000 else Inr False)"

definition matches_alone :: "policy_env \<Rightarrow> policy_condition \<Rightarrow> pyval \<Rightarrow> py_error + bool" where
  "matches_alone env c data = run_eval (matches env (\<lambda>_. False) c data) 1000000"

definition resolve_values_alone :: "pyval \<Rightarrow> string \<Rightarrow> py_error + pyval list" where
  "resolve_values_alone data field = run_eval (resolve_values (\<lambda>_. False) field data) 1000000"

end
