(* ===== verification/Policy_Semantics.thy ===== *)
theory Policy_Semantics
  imports Policy_Engine
begin

text \<open>
  What a policy condition means, without budget and without order of evaluation, and the proof that the
  engine computes it: with enough budget and no deadline it returns the meaning at a fixed cost,
  otherwise it fails for its budget or its deadline.
\<close>

section \<open>Meaning\<close>

function path_values :: "string list \<Rightarrow> pyval \<Rightarrow> pyval list" where
  "path_values segments current =
    (case segments of
       [] \<Rightarrow> [current]
     | segment # rest \<Rightarrow>
       (case current of
          PDict d \<Rightarrow>
            if segment = ''*'' then concat (map (path_values rest) (dict_values d))
            else (case dict_get d segment of None \<Rightarrow> [] | Some v \<Rightarrow> path_values rest v)
        | PList xs \<Rightarrow> concat (map (path_values segments) xs)
        | _ \<Rightarrow> []))"
  by pat_completeness auto
termination
  by (relation "measure (\<lambda>(segments, current). size current)")
    (auto simp: less_Suc_eq_le size_list_estimation' dest!: size_dict_value size_dict_get)

declare walk_path.simps [simp del] path_values.simps [simp del]

definition field_values :: "string \<Rightarrow> pyval \<Rightarrow> pyval list" where
  "field_values field data = path_values (split_on (CHR ''.'') field) data"

definition leaf_holds :: "policy_env \<Rightarrow> condition_operator \<Rightarrow> json \<Rightarrow> pyval list \<Rightarrow> bool" where
  "leaf_holds env op expected values =
    (case op of
       OP_EXISTS \<Rightarrow> concrete values \<noteq> []
     | OP_NOT_EXISTS \<Rightarrow> concrete values = []
     | OP_EQUALS \<Rightarrow> \<exists>v \<in> set (concrete values). equivalent env v expected
     | OP_NOT_EQUALS \<Rightarrow> concrete values \<noteq> [] \<and> \<not> (\<exists>v \<in> set (concrete values). equivalent env v expected)
     | OP_CONTAINS \<Rightarrow> \<exists>v \<in> set (concrete values). contains_value env v expected = Inr True
     | OP_NOT_CONTAINS \<Rightarrow> concrete values \<noteq> [] \<and> \<not> (\<exists>v \<in> set (concrete values). contains_value env v expected = Inr True)
     | OP_GREATER_THAN \<Rightarrow> \<exists>v \<in> set (concrete values). ordered_compare env v expected True = Inr True
     | OP_LESS_THAN \<Rightarrow> \<exists>v \<in> set (concrete values). ordered_compare env v expected False = Inr True
     | _ \<Rightarrow> False)"

fun holds :: "policy_env \<Rightarrow> policy_condition \<Rightarrow> pyval \<Rightarrow> bool" where
  "holds env (Condition field op expected children) data =
    (if op = OP_AND then \<forall>child \<in> set children. holds env child data
     else if op = OP_OR then \<exists>child \<in> set children. holds env child data
     else let values = field_values (the field) data in
       if op = OP_ANY_ITEM
       then \<exists>item \<in> set (collection_items values). is_pdict item \<and> (\<forall>child \<in> set children. holds env child item)
       else leaf_holds env op expected values)"

text \<open>
  A condition the models accept, whose values compare without a \<open>TypeError\<close>: no list or mapping is looked
  up as a key, and a bound that is a time has an offset.
\<close>

definition node_comparable :: "policy_env \<Rightarrow> condition_operator \<Rightarrow> json \<Rightarrow> bool" where
  "node_comparable env op expected \<longleftrightarrow>
     (op = OP_CONTAINS \<or> op = OP_NOT_CONTAINS \<longrightarrow> hashable expected) \<and>
     (op = OP_GREATER_THAN \<or> op = OP_LESS_THAN \<longrightarrow>
       (case expected of JStr s \<Rightarrow> pe_fromisoformat env (replace_char (CHR ''Z'') ''+00:00'' s) \<noteq> Some None | _ \<Rightarrow> True))"

fun condition_ok :: "policy_env \<Rightarrow> policy_condition \<Rightarrow> bool" where
  "condition_ok env (Condition field op expected children) \<longleftrightarrow>
     (validate_shape True (Condition field op expected children) = Inr (Condition field op expected children)
       \<or> validate_shape False (Condition field op expected children) = Inr (Condition field op expected children))
     \<and> node_comparable env op expected \<and> (\<forall>child \<in> set children. condition_ok env child)"

section \<open>Computations\<close>

definition computes :: "bool \<Rightarrow> 'a eval \<Rightarrow> 'a \<Rightarrow> bool" where
  "computes live m x \<longleftrightarrow>
     (\<forall>left. (\<exists>left'. m left = Inr (x, left')) \<or> m left = Inl budget_error \<or> m left = Inl deadline_error) \<and>
     (live \<longrightarrow> (\<exists>n \<ge> 0. \<forall>left \<ge> 0. m left = (if n \<le> left then Inr (x, left - n) else Inl budget_error)))"

lemma computes_return [intro!]: "computes live (ev_return x) x"
  unfolding computes_def ev_return_def by (auto intro: exI [of _ 0])

lemma computes_lift: "r = Inr x \<Longrightarrow> computes live (ev_lift r) x"
  by (simp add: ev_lift_def computes_return)

lemma computes_bind:
  assumes m: "computes live m x" and f: "computes live (f x) y"
  shows "computes live (ev_bind m f) y"
  unfolding computes_def
proof (intro conjI allI impI)
  show "(\<exists>left'. ev_bind m f left = Inr (y, left')) \<or> ev_bind m f left = Inl budget_error \<or> ev_bind m f left = Inl deadline_error" for left
  proof -
    consider left' where "m left = Inr (x, left')" | "m left = Inl budget_error" | "m left = Inl deadline_error"
      using m unfolding computes_def by blast
    then show ?thesis
    proof cases
      case (1 left')
      moreover have "(\<exists>l. f x left' = Inr (y, l)) \<or> f x left' = Inl budget_error \<or> f x left' = Inl deadline_error"
        using f unfolding computes_def by blast
      ultimately show ?thesis by (simp add: ev_bind_def)
    qed (simp_all add: ev_bind_def)
  qed
next
  assume live
  then obtain k n where kn: "0 \<le> k" "0 \<le> n"
      "\<forall>left \<ge> 0. m left = (if k \<le> left then Inr (x, left - k) else Inl budget_error)"
      "\<forall>left \<ge> 0. f x left = (if n \<le> left then Inr (y, left - n) else Inl budget_error)"
    using m f unfolding computes_def by blast
  have "ev_bind m f left = (if k + n \<le> left then Inr (y, left - (k + n)) else Inl budget_error)" if "0 \<le> left" for left
    using kn that by (auto simp: ev_bind_def)
  then show "\<exists>n \<ge> 0. \<forall>left \<ge> 0. ev_bind m f left = (if n \<le> left then Inr (y, left - n) else Inl budget_error)"
    using kn(1,2) by (intro exI [of _ "k + n"]) simp
qed

lemma computes_consume: "live \<longrightarrow> (\<forall>i. \<not> expired i) \<Longrightarrow> computes live (consume expired) ()"
  unfolding computes_def consume_def by (auto simp: Let_def intro!: exI [of _ 1])

lemma computes_any:
  "\<forall>x \<in> set xs. computes live (f x) (P x) \<Longrightarrow> computes live (any_m f xs) (\<exists>x \<in> set xs. P x)"
proof (induction xs)
  case (Cons x xs)
  show ?case
    unfolding any_m.simps
    by (rule computes_bind [of live "f x" "P x"]) (use Cons in \<open>auto split: if_splits\<close>)
qed auto

lemma computes_all:
  "\<forall>x \<in> set xs. computes live (f x) (P x) \<Longrightarrow> computes live (all_m f xs) (\<forall>x \<in> set xs. P x)"
proof (induction xs)
  case (Cons x xs)
  show ?case
    unfolding all_m.simps
    by (rule computes_bind [of live "f x" "P x"]) (use Cons in \<open>auto split: if_splits\<close>)
qed auto

lemma computes_collect:
  "\<forall>x \<in> set xs. computes live (f x) (g x) \<Longrightarrow> computes live (collect_m f xs) (concat (map g xs))"
proof (induction xs)
  case (Cons x xs)
  then show ?case by (auto intro!: computes_bind [of live "f x" "g x"] computes_bind [of live "collect_m f xs"])
qed auto

lemma computes_filter:
  "\<forall>x \<in> set xs. computes live (f x) (P x) \<Longrightarrow> computes live (filter_m f xs) (filter P xs)"
proof (induction xs)
  case (Cons x xs)
  then show ?case by (auto intro!: computes_bind [of live "f x" "P x"] computes_bind [of live "filter_m f xs"])
qed auto

section \<open>The engine computes the meaning\<close>

lemma walk_path_computes:
  assumes "live \<longrightarrow> (\<forall>i. \<not> expired i)"
  shows "computes live (walk_path expired segments current) (path_values segments current)"
proof (induction segments current rule: path_values.induct)
  case (1 segments current)
  show ?case
  proof (cases segments)
    case Nil
    then show ?thesis
      by (simp add: walk_path.simps [of _ "[]"] path_values.simps [of "[]"] computes_bind [OF computes_consume [OF assms]] computes_return)
  next
    case (Cons segment rest)
    have "computes live (case current of
          PDict d \<Rightarrow>
            if segment = ''*'' then collect_m (walk_path expired rest) (dict_values d)
            else (case dict_get d segment of None \<Rightarrow> ev_return [] | Some v \<Rightarrow> walk_path expired rest v)
        | PList xs \<Rightarrow> collect_m (walk_path expired segments) xs
        | _ \<Rightarrow> ev_return []) (path_values segments current)"
    proof (cases current)
      case (PList xs)
      then show ?thesis
        using 1(1) [OF Cons PList] computes_collect [of xs live "walk_path expired segments"] Cons
        by (simp add: path_values.simps [of "segment # rest" "PList xs"])
    next
      case (PDict d)
      show ?thesis
      proof (cases "segment = ''*''")
        case True
        then show ?thesis
          using 1(2) [OF Cons PDict True] computes_collect [of "dict_values d" live "walk_path expired rest"] Cons PDict
          by (simp add: path_values.simps [of "''*'' # rest" "PDict d"])
      next
        case False
        then show ?thesis
          using 1(3) [OF Cons PDict False] Cons PDict
          by (auto simp: path_values.simps [of "segment # rest" "PDict d"] split: option.split)
      qed
    qed (auto simp: path_values.simps [of "segment # rest"] Cons)
    then show ?thesis
      by (subst walk_path.simps) (simp add: Cons computes_bind [OF computes_consume [OF assms]])
  qed
qed

lemma resolve_computes:
  "live \<longrightarrow> (\<forall>i. \<not> expired i) \<Longrightarrow> computes live (resolve_values expired field data) (field_values field data)"
  by (simp add: resolve_values_def field_values_def walk_path_computes)

lemma contains_value_ok: "hashable expected \<Longrightarrow> \<exists>b. contains_value env v expected = Inr b"
  by (cases v; cases expected) (auto simp: contains_value_def hashable_def)

lemma ordered_compare_ok:
  assumes "case expected of JStr s \<Rightarrow> pe_fromisoformat env (replace_char (CHR ''Z'') ''+00:00'' s) \<noteq> Some None | _ \<Rightarrow> True"
  shows "\<exists>b. ordered_compare env v expected want_more = Inr b"
proof -
  let ?t = "\<lambda>s. pe_fromisoformat env (replace_char (CHR ''Z'') ''+00:00'' s)"
  have "\<exists>b. (case (v, expected) of
            (PTime t, JStr s) \<Rightarrow>
              (case ?t s of
                 None \<Rightarrow> Inr False
               | Some None \<Rightarrow> Inl (TypeError ''can't compare offset-naive and offset-aware datetimes'')
               | Some (Some u) \<Rightarrow> Inr (if want_more then u < t else t < u))
          | _ \<Rightarrow> Inr False) = Inr b"
    using assms by (cases v; cases expected) (auto split: option.splits)
  then show ?thesis
    by (cases "decimal_compare env v (of_json expected) want_more") (auto simp: ordered_compare_def)
qed

lemma concrete_empty: "concrete values = [] \<longleftrightarrow> list_all (\<lambda>v. v = PNone) values"
  by (auto simp: concrete_def filter_empty_conv list_all_iff)

lemma leaf_computes:
  assumes "node_comparable env op expected" and "op \<notin> {OP_AND, OP_OR, OP_ANY_ITEM}"
  shows "computes live (leaf_matches env op expected values) (leaf_holds env op expected values)"
proof -
  have c: "computes live (ev_lift (contains_value env v expected)) (contains_value env v expected = Inr True)"
    if "op = OP_CONTAINS \<or> op = OP_NOT_CONTAINS" for v
    using contains_value_ok [where expected = expected and env = env and v = v] assms(1) that by (auto simp: node_comparable_def computes_lift)
  have o: "computes live (ev_lift (ordered_compare env v expected b)) (ordered_compare env v expected b = Inr True)"
    if "op = OP_GREATER_THAN \<or> op = OP_LESS_THAN" for v b
    using ordered_compare_ok [where expected = expected and env = env and v = v and want_more = b] assms(1) that by (auto simp: node_comparable_def computes_lift)
  have n: "computes live (ev_bind (ev_lift (contains_value env v expected)) (\<lambda>b. ev_return (\<not> b))) (contains_value env v expected \<noteq> Inr True)"
    if "op = OP_CONTAINS \<or> op = OP_NOT_CONTAINS" for v
    by (rule computes_bind [OF c [OF that]]) auto
  consider "op = OP_EXISTS \<or> op = OP_NOT_EXISTS" | "op = OP_EQUALS \<or> op = OP_NOT_EQUALS" | "op = OP_CONTAINS"
    | "op = OP_NOT_CONTAINS" | "op = OP_GREATER_THAN \<or> op = OP_LESS_THAN"
    using assms(2) by (cases op) auto
  then show ?thesis
  proof cases
    case 1
    have "(values \<noteq> [] \<and> list_ex (\<lambda>v. v \<noteq> PNone) values) = (concrete values \<noteq> [])"
      "(values = [] \<or> list_all (\<lambda>v. v = PNone) values) = (concrete values = [])"
      by (auto simp: concrete_empty list_ex_iff list_all_iff)
    then show ?thesis using 1 by (auto simp: leaf_matches_def leaf_holds_def)
  next
    case 2
    then show ?thesis by (auto simp: leaf_matches_def leaf_holds_def list_ex_iff list_all_iff)
  next
    case 3
    then show ?thesis
      using computes_any [of "concrete values" live, OF ballI, OF c] by (auto simp: leaf_matches_def leaf_holds_def)
  next
    case 4
    then show ?thesis
      using computes_all [of "concrete values" live, OF ballI, OF n] by (auto simp: leaf_matches_def leaf_holds_def)
  next
    case 5
    then show ?thesis
      using computes_any [of "concrete values" live, OF ballI, OF o] by (auto simp: leaf_matches_def leaf_holds_def)
  qed
qed

lemma shape_ok_field:
  "validate_shape given (Condition field op expected children) = Inr c \<Longrightarrow> op \<noteq> OP_AND \<Longrightarrow> op \<noteq> OP_OR \<Longrightarrow> \<exists>f. field = Some f"
  by (auto simp: validate_shape_def Let_def split: if_splits)


lemma matches_computes:
  "live \<longrightarrow> (\<forall>i. \<not> expired i) \<Longrightarrow> condition_ok env c \<Longrightarrow> computes live (matches env expired c data) (holds env c data)"
proof (induction env expired c data rule: matches.induct)
  case (1 env expired field op expected children data)
  have children: "\<forall>child \<in> set children. condition_ok env child" and node: "node_comparable env op expected"
    using "1.prems"(2) by auto
  note start = computes_bind [OF computes_consume [OF "1.prems"(1)]]
  consider "op = OP_AND" | "op = OP_OR" | f where "op \<noteq> OP_AND" "op \<noteq> OP_OR" "field = Some f"
    using "1.prems"(2) shape_ok_field by (cases "op = OP_AND \<or> op = OP_OR") (auto, blast+)
  then show ?case
  proof cases
    case and_op: 1
    have "computes live (all_m (\<lambda>child. matches env expired child data) children) (\<forall>child \<in> set children. holds env child data)"
      by (rule computes_all) (use "1.IH"(1) and_op children "1.prems"(1) in blast)
    then show ?thesis unfolding matches.simps holds.simps by (intro start) (simp add: and_op)
  next
    case or_op: 2
    have "computes live (any_m (\<lambda>child. matches env expired child data) children) (\<exists>child \<in> set children. holds env child data)"
      by (rule computes_any) (use "1.IH"(2) or_op children "1.prems"(1) in blast)
    then show ?thesis unfolding matches.simps holds.simps by (intro start) (simp add: or_op)
  next
    case (3 f)
    note vals = resolve_computes [OF "1.prems"(1), of f data]
    show ?thesis
    proof (cases "op = OP_ANY_ITEM")
      case True
      have item: "computes live (if is_pdict item then all_m (\<lambda>child. matches env expired child item) children else ev_return False)
          (is_pdict item \<and> (\<forall>child \<in> set children. holds env child item))"
        if "item \<in> set (collection_items (field_values f data))" for item
      proof (cases "is_pdict item")
        case dict: True
        have "computes live (all_m (\<lambda>child. matches env expired child item) children) (\<forall>child \<in> set children. holds env child item)"
          by (rule computes_all) (use "1.IH"(3) 3 True that dict children "1.prems"(1) in blast)
        with dict show ?thesis by simp
      qed auto
      have "computes live (any_m (\<lambda>item. if is_pdict item then all_m (\<lambda>child. matches env expired child item) children
            else ev_return False) (collection_items (field_values f data)))
          (\<exists>item \<in> set (collection_items (field_values f data)). is_pdict item \<and> (\<forall>child \<in> set children. holds env child item))"
        by (rule computes_any) (use item in blast)
      with vals show ?thesis
        unfolding matches.simps holds.simps by (intro start) (simp add: True 3 computes_bind)
    next
      case False
      have "computes live (leaf_matches env op expected (field_values f data)) (leaf_holds env op expected (field_values f data))"
        by (rule leaf_computes [OF node]) (use 3 False in simp)
      with vals show ?thesis
        unfolding matches.simps holds.simps by (intro start) (simp add: False 3 computes_bind)
    qed
  qed
qed


section \<open>The findings of a bundle\<close>

definition rule_applies :: "policy_rule \<Rightarrow> pyval \<Rightarrow> evaluation_context \<Rightarrow> bool" where
  "rule_applies rule data ctx \<longleftrightarrow>
    (pr_platforms rule = [] \<or>
      (\<exists>p \<in> set (pr_platforms rule). ec_platform ctx = Some p \<or>
        (ec_platform ctx = None \<and> observed_family (field_values ''os.family'' data) = Some p)))
    \<and> (pr_scan_types rule = [] \<or> (\<exists>t \<in> set (pr_scan_types rule). ec_scan_type ctx = Some t))"

lemma rule_applies_allows:
  "rule_applies rule data ctx =
    rule_allows rule ctx (case ec_platform ctx of Some p \<Rightarrow> Some p | None \<Rightarrow> observed_family (field_values ''os.family'' data))"
  by (auto simp: rule_applies_def rule_allows_def split: option.splits)

lemma is_applicable_computes:
  "live \<longrightarrow> (\<forall>i. \<not> expired i) \<Longrightarrow> computes live (is_applicable expired rule data ctx) (rule_applies rule data ctx)"
  by (cases "ec_platform ctx")
    (auto simp: is_applicable_def rule_applies_allows intro!: computes_bind [OF computes_bind [OF resolve_computes]] computes_bind [OF computes_return])

lemma ev_bind_Inr:
  "ev_bind m f left = Inr (y, l) \<longleftrightarrow> (\<exists>x l'. m left = Inr (x, l') \<and> f x l' = Inr (y, l))"
  by (auto simp: ev_bind_def split: sum.splits prod.splits)

lemma ev_return_Inr: "ev_return x left = Inr (y, l) \<longleftrightarrow> y = x \<and> l = left"
  by (auto simp: ev_return_def)

lemma computes_result: "computes live m x \<Longrightarrow> m left = Inr (y, l) \<Longrightarrow> y = x"
  unfolding computes_def by (metis Inr_inject Pair_inject sum.distinct(1))

lemma computes_failure: "computes live m x \<Longrightarrow> m left = Inl e \<Longrightarrow> e = budget_error \<or> e = deadline_error"
  unfolding computes_def by (metis Inl_inject sum.distinct(1))

lemma make_finding_rule: "make_finding env expired bundle rule data ctx left = Inr (f, l) \<Longrightarrow> fi_rule_id f = pr_rule_id rule"
  by (auto simp: make_finding_def Let_def ev_bind_Inr ev_return_Inr ev_raise_def split: if_splits)

definition rule_fires :: "policy_env \<Rightarrow> policy_rule \<Rightarrow> pyval \<Rightarrow> evaluation_context \<Rightarrow> bool" where
  "rule_fires env rule data ctx \<longleftrightarrow> pr_enabled rule \<and> rule_applies rule data ctx \<and> holds env (pr_condition rule) data"

lemma evaluate_rules_exact:
  "\<forall>r \<in> set rules. condition_ok env (pr_condition r) \<Longrightarrow>
    evaluate_rules env expired bundle data ctx rules left = Inr (fs, l) \<Longrightarrow>
    map fi_rule_id fs = map pr_rule_id (filter (\<lambda>r. rule_fires env r data ctx) rules)"
proof (induction rules arbitrary: left fs l)
  case Nil
  then show ?case by (simp add: ev_return_Inr)
next
  case (Cons rule rules)
  obtain l1 applicable l2 matched l3 found l4 rest where
      a: "(if \<not> pr_enabled rule then ev_return False else is_applicable expired rule data ctx) l1 = Inr (applicable, l2)"
    and m: "(if applicable then matches env expired (pr_condition rule) data else ev_return False) l2 = Inr (matched, l3)"
    and f: "(if matched then ev_bind (make_finding env expired bundle rule data ctx) (\<lambda>f. ev_return [f]) else ev_return []) l3 = Inr (found, l4)"
    and r: "evaluate_rules env expired bundle data ctx rules l4 = Inr (rest, l)" and fs: "fs = found @ rest"
    using Cons.prems(2) by (auto simp: ev_bind_Inr ev_return_Inr)
  have app: "applicable = (pr_enabled rule \<and> rule_applies rule data ctx)"
    using a computes_result [OF is_applicable_computes [of False expired rule data ctx]] by (auto simp: ev_return_Inr split: if_splits)
  have match: "matched = (applicable \<and> holds env (pr_condition rule) data)"
    using m computes_result [OF matches_computes [of False expired env "pr_condition rule" data]] Cons.prems(1)
    by (auto simp: ev_return_Inr split: if_splits)
  have "map fi_rule_id found = (if matched then [pr_rule_id rule] else [])"
    using f make_finding_rule by (auto simp: ev_bind_Inr ev_return_Inr split: if_splits)
  with Cons.IH [OF _ r] Cons.prems(1) show ?case by (simp add: fs app match rule_fires_def)
qed

section \<open>The bounds of evidence\<close>

text \<open>
  Every node of the evidence that took from the budget has at most sixty-five children, one more
  than the items kept; a node that took nothing is the mark of the cut.
\<close>

definition evidence_shape :: "nat \<Rightarrow> json \<Rightarrow> bool" where
  "evidence_shape depth v \<longleftrightarrow> depth \<le> 6 \<and>
     (case v of JStr s \<Rightarrow> length s \<le> 4096 | JArr xs \<Rightarrow> length xs \<le> 64
      | JObj d \<Rightarrow> length d \<le> 65 \<and> (\<forall>kv \<in> set d. length (fst kv) \<le> 256) | _ \<Rightarrow> True)"

lemma evidence_shape_simps [simp]:
  "evidence_shape n (JArr xs) \<longleftrightarrow> n \<le> 6 \<and> length xs \<le> 64"
  "evidence_shape n (JObj d) \<longleftrightarrow> n \<le> 6 \<and> length d \<le> 65 \<and> (\<forall>kv \<in> set d. length (fst kv) \<le> 256)"
  "evidence_shape n (JStr s) \<longleftrightarrow> n \<le> 6 \<and> length s \<le> 4096"
  "evidence_shape n JNull \<longleftrightarrow> n \<le> 6" "evidence_shape n (JBool b) \<longleftrightarrow> n \<le> 6"
  "evidence_shape n (JInt i) \<longleftrightarrow> n \<le> 6" "evidence_shape n (JFloat x) \<longleftrightarrow> n \<le> 6"
  by (auto simp: evidence_shape_def)

definition field_nodes :: "jobj \<Rightarrow> nat" where
  "field_nodes d = sum_list (map (\<lambda>kv. json_nodes (snd kv)) d)"

lemma field_nodes_set: "field_nodes (dict_set k v d) \<le> field_nodes d + json_nodes v"
  unfolding dict_set_def field_nodes_def by (induction d) auto

lemma length_dict_set: "length (dict_set k v d) \<le> length d + 1"
  unfolding dict_set_def by (induction d) auto

lemma bounded_evidence_bounds:
  shows "bounded_evidence item b depth = (w, b') \<Longrightarrow> depth \<le> 6 \<Longrightarrow>
      b' \<le> b \<and> json_all evidence_shape depth w \<and> json_nodes w \<le> 1 + 65 * (b - b')"
    and "evidence_items xs b depth = (ys, b') \<Longrightarrow> depth \<le> 6 \<Longrightarrow>
      b' \<le> b \<and> length ys \<le> length xs \<and> (\<forall>y \<in> set ys. json_all evidence_shape depth y)
      \<and> sum_list (map json_nodes ys) \<le> length xs + 65 * (b - b')"
    and "evidence_fields d acc b depth = (e, b') \<Longrightarrow> depth \<le> 6 \<Longrightarrow>
      b' \<le> b \<and> length e \<le> length acc + length d
      \<and> (\<forall>kv \<in> set e. kv \<in> set acc \<or> (length (fst kv) \<le> 256 \<and> json_all evidence_shape depth (snd kv)))
      \<and> field_nodes e \<le> field_nodes acc + length d + 65 * (b - b')"
proof (induction item b depth and xs b depth and d acc b depth arbitrary: w b' and ys b' and e b'
    rule: bounded_evidence_evidence_items_evidence_fields.induct)
  case (1 v b depth)
  show ?case
  proof (cases "b = 0 \<or> 6 \<le> depth")
    case True
    then show ?thesis using 1(3,4) by (auto simp: bounded_evidence.simps evidence_mark_def)
  next
    case False
    then obtain k where k: "b = Suc k" "depth < 6" by (cases b) auto
    note IH_items = 1(1) [OF False refl] and IH_fields = 1(2) [OF False refl]
    show ?thesis
    proof (cases v)
      case (JArr xs)
      obtain ys l where y: "evidence_items (take 64 xs) k (depth + 1) = (ys, l)" by fastforce
      have "w = JArr ys" "b' = l" using 1(3) False JArr y k by (auto simp: bounded_evidence.simps)
      then show ?thesis using IH_items [OF JArr, of ys l] y k by auto
    next
      case (JObj d)
      let ?d = "take 64 (sort_key fst d)"
      obtain e l where y: "evidence_fields ?d [] k (depth + 1) = (e, l)" by fastforce
      let ?e = "if 64 < length d \<or> l = 0 then dict_set ''_truncated'' (JBool True) e else e"
      have w: "w = JObj ?e" "b' = l" using 1(3) False JObj y k by (auto simp: bounded_evidence.simps)
      have f: "l \<le> k" "length e \<le> length ?d" "field_nodes e \<le> length ?d + 65 * (k - l)"
          "\<forall>kv \<in> set e. length (fst kv) \<le> 256 \<and> json_all evidence_shape (depth + 1) (snd kv)"
        using IH_fields [OF JObj, of e l] y k by (auto simp: field_nodes_def)
      have "\<forall>kv \<in> set ?e. length (fst kv) \<le> 256 \<and> json_all evidence_shape (depth + 1) (snd kv)"
      proof -
        have "set ?e \<subseteq> insert (''_truncated'', JBool True) (set e)"
          using set_dict_set [of "''_truncated''" "JBool True" e] by auto
        moreover have "json_all evidence_shape (depth + 1) (JBool True)" using k by simp
        ultimately show ?thesis using f(4) by auto
      qed
      moreover have "length ?e \<le> 65" using f(2) length_dict_set [of "''_truncated''" "JBool True" e] by auto
      moreover have "field_nodes ?e \<le> 1 + 64 + 65 * (k - l)"
        using f(2,3) field_nodes_set [of "''_truncated''" "JBool True" e] by auto
      ultimately show ?thesis using w f(1) k by (auto simp: field_nodes_def)
    qed (use 1(3) False k in \<open>auto simp: bounded_evidence.simps\<close>)
  qed
next
  case (3 x xs b depth)
  show ?case
  proof (cases "b = 0")
    case True
    then show ?thesis using 3(1) [OF True, of ys b'] 3(4,5) by auto
  next
    case False
    obtain y l where y: "bounded_evidence x b depth = (y, l)" by fastforce
    obtain zs l' where z: "evidence_items xs l depth = (zs, l')" by fastforce
    have "ys = y # zs" "b' = l'" using 3(4) False y z by auto
    then show ?thesis using 3(2) [OF False y] 3(3) [OF False y [symmetric] z] 3(5) by auto
  qed
next
  case (5 kv d acc b depth)
  show ?case
  proof (cases "b = 0")
    case False
    obtain y l where y: "bounded_evidence (snd kv) b depth = (y, l)" by fastforce
    let ?acc = "dict_set (take 256 (fst kv)) y acc"
    have rest: "evidence_fields d ?acc l depth = (e, b')" using 5(3) False y by simp
    note head = 5(1) [OF False y 5(4)]
    have tail: "b' \<le> l" "length e \<le> length ?acc + length d" "field_nodes e \<le> field_nodes ?acc + length d + 65 * (l - b')"
        "\<forall>kw \<in> set e. kw \<in> set ?acc \<or> (length (fst kw) \<le> 256 \<and> json_all evidence_shape depth (snd kw))"
      using 5(2) [OF False y [symmetric] rest] 5(4) by auto
    have "\<forall>kw \<in> set e. kw \<in> set acc \<or> (length (fst kw) \<le> 256 \<and> json_all evidence_shape depth (snd kw))"
      using tail(4) set_dict_set [of "take 256 (fst kv)" y acc] head by fastforce
    then show ?thesis
      using tail(1-3) head length_dict_set [of "take 256 (fst kv)" y acc] field_nodes_set [of "take 256 (fst kv)" y acc] by auto
  qed (use 5(3) in auto)
qed auto


text \<open>The validator of JSON fails with a \<open>ValueError\<close> only.\<close>

lemma bj_error:
  shows "bj_walk md mn v depth nodes = Inl e \<Longrightarrow> \<exists>m. e = ValueError m"
    and "bj_list md mn xs depth nodes = Inl e \<Longrightarrow> \<exists>m. e = ValueError m"
    and "bj_dict md mn d depth acc nodes = Inl e \<Longrightarrow> \<exists>m. e = ValueError m"
proof (induction md mn v depth nodes and md mn xs depth nodes and md mn d depth acc nodes
    arbitrary: e and e and e rule: bj_walk_bj_list_bj_dict.induct)
  case (1 md mn v depth nodes)
  then show ?case
    by (auto simp: bj_walk.simps Let_def split: if_splits json.splits pyfloat.splits sum.splits prod.splits)
next
  case (3 md mn x xs depth nodes)
  then show ?case by (auto simp: bj_list.simps split: sum.splits prod.splits)
next
  case (5 md mn kv d depth acc nodes)
  then show ?case by (auto simp: bj_dict.simps split: sum.splits prod.splits if_splits)
qed auto

lemma bounded_json_error: "bounded_json md mn v = Inl e \<Longrightarrow> \<exists>m. e = ValueError m"
  using bj_error(1) by (auto simp: bounded_json_def split: sum.splits)

end
