(* ===== verification/Policy_Properties.thy ===== *)
theory Policy_Properties
  imports Policy_Semantics "HOL-Library.Code_Target_Nat"
begin

text \<open>
  The properties of the policy engine and of the redaction, with witnesses on a small bundle, and the
  evidence that the model of a finding refuses.
\<close>

section \<open>A bundle at concrete values\<close>

definition demo_redaction :: redaction_env where
  "demo_redaction = \<lparr> re_substitute = (\<lambda>s. s), re_str = (\<lambda>_. []) \<rparr>"

definition demo_policy_env :: policy_env where
  "demo_policy_env = \<lparr> pe_redaction = demo_redaction, pe_decimal = (\<lambda>_. None), pe_float_decimal = (\<lambda>q. q),
     pe_fromisoformat = (\<lambda>_. None), pe_uuid5 = (\<lambda>s. s) \<rparr>"

definition demo_rule :: "string \<Rightarrow> policy_condition \<Rightarrow> policy_rule" where
  "demo_rule i c = \<lparr> pr_rule_id = i, pr_title = ''t'', pr_severity = ''LOW'', pr_category = ''c'', pr_description = ''d'',
     pr_condition = c, pr_remediation = ''r'', pr_references = [], pr_evidence_fields = [], pr_platforms = [], pr_scan_types = [],
     pr_enabled = True, pr_tags = [], pr_exploitability = None, pr_exposure = None, pr_compliance_impact = None \<rparr>"

definition demo_bundle :: "policy_rule list \<Rightarrow> policy_bundle" where
  "demo_bundle rules = \<lparr> pb_schema_version = ''1.0'', pb_policy_id = ''p'', pb_policy_version = ''1.0.0'', pb_description = None, pb_rules = rules \<rparr>"

definition demo_context :: evaluation_context where
  "demo_context = \<lparr> ec_scan_id = ''s'', ec_endpoint_id = Some ''e'', ec_asset = None, ec_scanner_version = ''1'',
     ec_detected_at = 0, ec_platform = Some ''LINUX'', ec_scan_type = None \<rparr>"

definition open_port :: policy_condition where
  "open_port = Condition (Some ''ports'') OP_ANY_ITEM JNull
     [Condition (Some ''port'') OP_LESS_THAN (JInt 1024) [], Condition (Some ''owner'') OP_NOT_EQUALS (JStr ''root'') []]"

definition port_data :: pyval where
  "port_data = PDict [(''ports'', PList [PDict [(''port'', PInt 22), (''owner'', PStr ''sshd'')],
     PDict [(''port'', PInt 80)]])]"

definition demo_rules :: "policy_rule list" where
  "demo_rules = [demo_rule ''R1'' open_port, demo_rule ''R2'' (Condition (Some ''disk'') OP_NOT_EQUALS (JInt 0) [])]"

lemma demo_rules_ok: "\<forall>r \<in> set (pb_rules (demo_bundle demo_rules)). condition_ok demo_policy_env (pr_condition r)"
  by (simp add: demo_bundle_def demo_rules_def demo_rule_def open_port_def condition_ok.simps node_comparable_def
      validate_shape_def hashable_def)

lemma demo_evaluation:
  "map_sum id (map fi_rule_id)
     (evaluate demo_policy_env (\<lambda>_. False) (demo_bundle demo_rules) port_data demo_context 1000) = Inr [''R1'']"
  by code_simp

section \<open>Conditions\<close>

text \<open>C32: A condition the models accept, whose values compare without a type error, is computed exactly: a
  result is its meaning, a failure is that of the budget or of the deadline, and without a deadline
  there is a fixed number of operations that is enough and that is what the evaluation costs.\<close>

theorem condition_computed:
  assumes "condition_ok env c"
  shows "(\<forall>left b left'. matches env expired c data left = Inr (b, left') \<longrightarrow> b = holds env c data)
    \<and> (\<forall>left e. matches env expired c data left = Inl e \<longrightarrow> e = budget_error \<or> e = deadline_error)
    \<and> (\<exists>n \<ge> 0. \<forall>left \<ge> 0. matches env (\<lambda>_. False) c data left
          = (if n \<le> left then Inr (holds env c data, left - n) else Inl budget_error))"
proof -
  have "computes False (matches env expired c data) (holds env c data)" by (rule matches_computes) (simp_all add: assms)
  moreover have "computes True (matches env (\<lambda>_. False) c data) (holds env c data)"
    by (rule matches_computes) (simp_all add: assms)
  ultimately show ?thesis
    using computes_result [of False "matches env expired c data"] computes_failure [of False "matches env expired c data"]
    by (auto simp: computes_def)
qed

theorem condition_computed_witness:
  "\<exists>n \<ge> 0. matches demo_policy_env (\<lambda>_. False) open_port port_data (n + 7) = Inr (holds demo_policy_env open_port port_data, 7)"
proof -
  have "condition_ok demo_policy_env open_port"
    using demo_rules_ok by (simp add: demo_bundle_def demo_rules_def demo_rule_def)
  from condition_computed [OF this, of "\<lambda>_. False" port_data] obtain n where "0 \<le> n"
    "\<forall>left \<ge> 0. matches demo_policy_env (\<lambda>_. False) open_port port_data left
       = (if n \<le> left then Inr (holds demo_policy_env open_port port_data, left - n) else Inl budget_error)" by blast
  then show ?thesis by (intro exI [of _ n]) simp
qed

text \<open>C33: An evaluation that returns has one finding for each enabled rule of the bundle that applies to the platform
  and the scan type and whose condition holds, in the order of the rules, and none for the others.\<close>

theorem evaluate_exact:
  assumes "\<forall>r \<in> set (pb_rules bundle). condition_ok env (pr_condition r)"
    and "evaluate env expired bundle data ctx max_operations = Inr findings"
  shows "map fi_rule_id findings = map pr_rule_id (filter (\<lambda>r. pr_enabled r \<and> rule_applies r data ctx
    \<and> holds env (pr_condition r) data) (pb_rules bundle))"
proof -
  obtain left l where "evaluate_rules env expired bundle data ctx (pb_rules bundle) left = Inr (findings, l)"
    using assms(2) by (auto simp: evaluate_def ev_bind_def ev_raise_def split: if_splits sum.splits prod.splits)
  from evaluate_rules_exact [OF assms(1) this] show ?thesis by (simp add: rule_fires_def)
qed

theorem evaluate_exact_witness:
  "map pr_rule_id (filter (\<lambda>r. pr_enabled r \<and> rule_applies r port_data demo_context
    \<and> holds demo_policy_env (pr_condition r) port_data) (pb_rules (demo_bundle demo_rules))) = [''R1'']"
proof -
  obtain fs where f: "evaluate demo_policy_env (\<lambda>_. False) (demo_bundle demo_rules) port_data demo_context 1000 = Inr fs"
      "map fi_rule_id fs = [''R1'']"
    using demo_evaluation by (auto simp: map_sum_def split: sum.splits)
  from evaluate_exact [OF demo_rules_ok f(1)] f(2) show ?thesis by simp
qed

text \<open>Telemetry that is missing or null satisfies no comparison, positive or negative: a leaf other than
  the two existence tests that holds has a value that is present. Where one is present, the negative
  comparisons are the negations of the positive ones.\<close>

lemma missing_telemetry:
  assumes "op \<notin> {OP_AND, OP_OR, OP_ANY_ITEM, OP_EXISTS, OP_NOT_EXISTS}"
  shows "(holds env (Condition (Some f) op e []) data \<longrightarrow> concrete (field_values f data) \<noteq> [])
    \<and> (concrete (field_values f data) \<noteq> [] \<longrightarrow>
        (holds env (Condition (Some f) OP_NOT_EQUALS e []) data \<longleftrightarrow> \<not> holds env (Condition (Some f) OP_EQUALS e []) data)
        \<and> (holds env (Condition (Some f) OP_NOT_CONTAINS e []) data \<longleftrightarrow> \<not> holds env (Condition (Some f) OP_CONTAINS e []) data))
    \<and> (holds env (Condition (Some f) OP_NOT_EXISTS JNull []) data \<longleftrightarrow> concrete (field_values f data) = [])"
  using assms by (cases op) (auto simp: leaf_holds_def)

lemma missing_telemetry_concrete:
  "\<not> holds demo_policy_env (Condition (Some ''disk'') OP_NOT_EQUALS (JInt 0) []) port_data"
proof -
  have "concrete (field_values ''disk'' port_data) = []" by code_simp
  with missing_telemetry [of OP_NOT_EQUALS demo_policy_env "''disk''" "JInt 0" port_data] show ?thesis by auto
qed

section \<open>Evidence\<close>

text \<open>C35: Bounded evidence has at most seven levels, sixty-four items per list, sixty-five fields per object and
  4096 characters per text, and at most sixty-five times as many nodes as it took from the budget, and one.\<close>

theorem evidence_bounded:
  assumes "bounded_evidence item budget 0 = (w, left)"
  shows "left \<le> budget \<and> json_all evidence_shape 0 w \<and> json_nodes w \<le> 1 + 65 * (budget - left)"
  using bounded_evidence_bounds(1) [OF assms] by simp

theorem evidence_bounded_witness:
  "json_nodes (JArr [JStr ''a'', JNull]) \<le> 1 + 65 * (10 - 7)"
proof -
  have "bounded_evidence (JArr [JStr ''a'', JNull]) 10 0 = (JArr [JStr ''a'', JNull], 7)" by code_simp
  from evidence_bounded [OF this] show ?thesis by simp
qed

text \<open>Twenty items with four wide lists each at the last level that is kept.\<close>

definition nest_list :: "pyval \<Rightarrow> pyval" where "nest_list v = PList [PList [PList [v]]]"
definition nest_json :: "json \<Rightarrow> json" where "nest_json v = JArr [JArr [JArr [v]]]"

definition wide_data :: pyval where
  "wide_data = PDict [(''a'', PList (replicate 20 (nest_list (PList (replicate 4 (PList (replicate 64 (PInt 0))))))))]"

definition wide_json :: "json \<Rightarrow> json" where
  "wide_json leaf = JArr (replicate 20 (nest_json (JArr (replicate 4 (JArr (replicate 64 leaf))))))"

lemma redact_items_replicate:
  "\<forall>m. m + k \<le> mn \<longrightarrow> redact_walk env md mn x depth False m = (y, m + k) \<Longrightarrow> nodes + n * k \<le> mn \<Longrightarrow>
    redact_items env md mn (replicate n x) depth nodes = (replicate n y, nodes + n * k)"
  by (induction n arbitrary: nodes) (auto simp: algebra_simps)

lemma redact_list_replicate:
  assumes "\<forall>m. m + k \<le> mn \<longrightarrow> redact_walk env md mn x (depth + 1) False m = (y, m + k)" and "depth \<le> md"
  shows "\<forall>m. m + Suc (n * k) \<le> mn \<longrightarrow>
    redact_walk env md mn (PList (replicate n x)) depth False m = (JArr (replicate n y), m + Suc (n * k))"
  using redact_items_replicate [OF assms(1)] assms(2)
  by (auto simp: redact_walk.simps [of _ _ _ "PList (replicate n x)"] Let_def)

lemma evidence_items_replicate:
  "\<forall>b > k. bounded_evidence x b depth = (y, b - k) \<Longrightarrow> n * k < b \<Longrightarrow>
    evidence_items (replicate n x) b depth = (replicate n y, b - n * k)"
  by (induction n arbitrary: b) auto

lemma evidence_list_replicate:
  assumes "\<forall>b > k. bounded_evidence x b (depth + 1) = (y, b - k)" and "depth < 6" and "n \<le> 64"
  shows "\<forall>b > Suc (n * k). bounded_evidence (JArr (replicate n x)) b depth = (JArr (replicate n y), b - Suc (n * k))"
proof (intro allI impI)
  fix b assume "Suc (n * k) < b"
  then obtain c where c: "b = Suc c" "n * k < c" by (cases b) auto
  show "bounded_evidence (JArr (replicate n x)) b depth = (JArr (replicate n y), b - Suc (n * k))"
    using evidence_items_replicate [OF assms(1) c(2)] assms(2,3)
    by (simp add: c(1) bounded_evidence.simps [of "JArr (replicate n x)"])
qed

lemma redact_one: "redact_walk env md mn (PInt i) depth False m = (if mn < m + 1 \<or> md < depth then JStr truncated_text else JInt i, m + 1)"
  by (simp add: redact_walk.simps)

lemma redact_nest:
  assumes "\<forall>m. m + k \<le> mn \<longrightarrow> redact_walk env md mn x (depth + 3) False m = (y, m + k)" and "depth + 2 \<le> md"
  shows "\<forall>m. m + (k + 3) \<le> mn \<longrightarrow> redact_walk env md mn (nest_list x) depth False m = (nest_json y, m + (k + 3))"
  using redact_list_replicate [of k mn env md x "depth + 2" y 1] redact_list_replicate [of "k + 1" mn env md "PList [x]" "depth + 1" "JArr [y]" 1]
    redact_list_replicate [of "k + 2" mn env md "PList [PList [x]]" depth "JArr [JArr [y]]" 1] assms
  by (simp add: nest_list_def nest_json_def numeral_3_eq_3)

lemma evidence_nest:
  assumes "\<forall>b > k. bounded_evidence x b (depth + 3) = (y, b - k)" and "depth + 2 < 6"
  shows "\<forall>b > k + 3. bounded_evidence (nest_json x) b depth = (nest_json y, b - (k + 3))"
  using evidence_list_replicate [of k x "depth + 2" y 1] evidence_list_replicate [of "k + 1" "JArr [x]" "depth + 1" "JArr [y]" 1]
    evidence_list_replicate [of "k + 2" "JArr [JArr [x]]" depth "JArr [JArr [y]]" 1] assms
  by (simp add: nest_json_def numeral_3_eq_3)

lemma wide_redacted:
  "redact_value demo_redaction (PList (replicate 20 (nest_list (PList (replicate 4 (PList (replicate 64 (PInt 0)))))))) = wide_json (JInt 0)"
proof -
  let ?r = "redact_walk demo_redaction 12 20000"
  have "\<forall>m. m + 1 \<le> 20000 \<longrightarrow> ?r (PInt 0) (5 + 1) False m = (JInt 0, m + 1)" by (simp add: redact_one)
  from redact_list_replicate [OF this, of 64]
  have "\<forall>m. m + 65 \<le> 20000 \<longrightarrow> ?r (PList (replicate 64 (PInt 0))) (4 + 1) False m = (JArr (replicate 64 (JInt 0)), m + 65)" by simp
  from redact_list_replicate [OF this, of 4]
  have "\<forall>m. m + 261 \<le> 20000 \<longrightarrow> ?r (PList (replicate 4 (PList (replicate 64 (PInt 0))))) (1 + 3) False m
      = (JArr (replicate 4 (JArr (replicate 64 (JInt 0)))), m + 261)" by simp
  from redact_nest [OF this]
  have "\<forall>m. m + 264 \<le> 20000 \<longrightarrow> ?r (nest_list (PList (replicate 4 (PList (replicate 64 (PInt 0)))))) (0 + 1) False m
      = (nest_json (JArr (replicate 4 (JArr (replicate 64 (JInt 0))))), m + 264)" by simp
  from redact_list_replicate [OF this, of 20] show ?thesis by (simp add: redact_value_def wide_json_def)
qed

lemma wide_bounded: "bounded_evidence (wide_json (JInt 0)) 4000 0 = (wide_json (JStr evidence_mark), 3839)"
proof -
  have "\<forall>b > 0. bounded_evidence (JInt 0) b (5 + 1) = (JStr evidence_mark, b - 0)" by (simp add: bounded_evidence.simps)
  from evidence_list_replicate [OF this, of 64]
  have "\<forall>b > 1. bounded_evidence (JArr (replicate 64 (JInt 0))) b (4 + 1) = (JArr (replicate 64 (JStr evidence_mark)), b - 1)" by simp
  from evidence_list_replicate [OF this, of 4]
  have "\<forall>b > 5. bounded_evidence (JArr (replicate 4 (JArr (replicate 64 (JInt 0))))) b (1 + 3)
      = (JArr (replicate 4 (JArr (replicate 64 (JStr evidence_mark)))), b - 5)" by simp
  from evidence_nest [OF this]
  have "\<forall>b > 8. bounded_evidence (nest_json (JArr (replicate 4 (JArr (replicate 64 (JInt 0)))))) b (0 + 1)
      = (nest_json (JArr (replicate 4 (JArr (replicate 64 (JStr evidence_mark))))), b - 8)" by simp
  from evidence_list_replicate [OF this, of 20] show ?thesis by (simp add: wide_json_def)
qed

lemma wide_nodes: "json_nodes (JObj [(''a'', wide_json (JStr s))]) = 5282"
  by (simp add: wide_json_def nest_json_def sum_list_replicate)

lemma wide_wf: "json_wf (JObj [(''a'', wide_json (JStr s))])"
  by (auto simp: wide_json_def nest_json_def dict_ok_def)

definition wide_rule :: policy_rule where
  "wide_rule = demo_rule ''R1'' (Condition (Some ''a'') OP_EXISTS JNull [])"

lemma wide_values:
  "resolve_values expired ''a'' wide_data = ev_bind (consume expired) (\<lambda>_. ev_bind (consume expired) (\<lambda>_. ev_return
     [PList (replicate 20 (nest_list (PList (replicate 4 (PList (replicate 64 (PInt 0)))))))]))"
  by (simp add: resolve_values_def wide_data_def walk_path.simps [of _ "[''a'']"] walk_path.simps [of _ "[]"] dict_get_Cons)

text \<open>The bound the engine puts on evidence is not within the one of a finding: on a small value an enabled rule
  that matches produces evidence of 5282 nodes, the finding refuses it, and the whole evaluation
  ends with the error instead of its findings.\<close>

lemma evidence_refused:
  "\<exists>m. evaluate demo_policy_env (\<lambda>_. False) (demo_bundle [wide_rule]) wide_data demo_context 1000 = Inl (ValueError m)"
proof -
  define items where "items = replicate 20 (nest_list (PList (replicate 4 (PList (replicate 64 (PInt 0))))))"
  note shown = wide_redacted [folded items_def] wide_bounded
  have items: "length items = 20" "items \<noteq> []" by (simp_all add: items_def)
  have path: "resolve_values (\<lambda>_. False) ''a'' wide_data left = Inr ([PList items], left - 2)" if "2 \<le> left" for left
    using that unfolding wide_values [folded items_def] by (simp add: ev_bind_def consume_def ev_return_def)
  obtain m where refused: "bounded_json 8 5000 (JObj [(''a'', wide_json (JStr evidence_mark))]) = Inl (ValueError m)"
  proof (cases "bounded_json 8 5000 (JObj [(''a'', wide_json (JStr evidence_mark))])")
    case (Inl e)
    with bounded_json_error that show ?thesis by blast
  next
    case (Inr w)
    then show ?thesis using bounded_json_iff [OF wide_wf, of 8 5000 evidence_mark w] wide_nodes by simp
  qed
  have finding: "make_finding demo_policy_env (\<lambda>_. False) pb wide_rule wide_data ctx left = Inl (ValueError m)"
    if "2 \<le> left" for left pb ctx
    using that refused items path
    by (simp add: make_finding_def wide_rule_def demo_rule_def ev_bind_def evidence_value_def starts_with_def
        demo_policy_env_def shown ev_return_def ev_lift_def ev_raise_def dict_set_def)
  have rule: "pr_platforms wide_rule = []" "pr_scan_types wide_rule = []" "pr_enabled wide_rule"
    "pr_condition wide_rule = Condition (Some ''a'') OP_EXISTS JNull []"
    by (simp_all add: wide_rule_def demo_rule_def)
  have "is_pdict wide_data" by (simp add: wide_data_def is_pdict_def)
  moreover have "matches demo_policy_env (\<lambda>_. False) (pr_condition wide_rule) wide_data 998 = Inr (True, 995)"
    by (simp add: rule ev_bind_def consume_def path leaf_matches_def ev_return_def)
  ultimately show ?thesis
    by (intro exI [of _ m])
      (simp add: evaluate_def demo_bundle_def ev_bind_def consume_def is_applicable_def demo_context_def rule_allows_def
        ev_return_def finding rule(1-3))
qed

section \<open>Redaction\<close>

text \<open>C37: The redacted copy of a value does not depend on what stands below its sensitive keys: two values that
  differ only there, neither side being one of the plain security facts, have the same redacted copy,
  wherever they are cut.\<close>

theorem redaction_hides_secrets:
  assumes "same_public v w"
  shows "redact_value env v = redact_value env w \<and> redact_mapping env v = redact_mapping env w
    \<and> sanitize_for_log env v = sanitize_for_log env w"
  using redact_walk_public(1) [OF assms, of env 12 20000 0 False 0]
  by (simp add: redact_value_def redact_mapping_def sanitize_for_log_def)

theorem redaction_hides_secrets_witness:
  "redact_value demo_redaction (PDict [(''user'', PStr ''u''), (''db_password'', PStr ''a'')])
    = redact_value demo_redaction (PDict [(''user'', PStr ''u''), (''db_password'', PList [PInt 7])])"
proof -
  have "same_public (PDict [(''user'', PStr ''u''), (''db_password'', PStr ''a'')])
      (PDict [(''user'', PStr ''u''), (''db_password'', PList [PInt 7])])" by code_simp
  from redaction_hides_secrets [OF this, of demo_redaction] show ?thesis by simp
qed

text \<open>No text of a sanitised log value, keys included, has a line break or another control character but the
  tabulator, so that a logged value cannot begin a line of its own.\<close>

lemma log_lines_safe:
  "list_all log_safe (json_texts (sanitize_for_log env v))"
  unfolding sanitize_for_log_def by (rule log_clean_safe)

end
