(* ===== verification/Disjoint_Groups.thy ===== *)
theory Disjoint_Groups
  imports Prelude
begin

text \<open>
  Disjoint sets of the numbers below a bound: an interface by the representative of each number, what
  it makes of a list of links between keys, and the parent table with path halving that implements it.
\<close>

section \<open>The interface\<close>

text \<open>\<open>shares P i j\<close>: the pairs of \<open>P\<close> give both numbers a common key.\<close>

definition shares :: "('i \<times> 'k) set \<Rightarrow> 'i \<Rightarrow> 'i \<Rightarrow> bool" where
  "shares P i j \<longleftrightarrow> (\<exists>k. (i, k) \<in> P \<and> (j, k) \<in> P)"

lemma equivclp_mono:
  assumes "equivclp r x y" and "\<And>x y. r x y \<Longrightarrow> equivclp s x y"
  shows "equivclp s x y"
  using assms(1)
proof (induction rule: equivclp_induct)
  case (step y z)
  then show ?case by (metis assms(2) equivclp_sym equivclp_trans)
qed simp

lemma equivclp_edge:
  "equivclp (\<lambda>x y. r x y \<or> (x = a \<and> y = b)) x y \<longleftrightarrow>
    equivclp r x y \<or> (equivclp r x a \<and> equivclp r b y) \<or> (equivclp r x b \<and> equivclp r a y)" (is "equivclp ?e x y \<longleftrightarrow> ?c x y")
proof
  assume "equivclp ?e x y"
  then show "?c x y"
  proof (induction rule: equivclp_induct)
    case (step y z)
    then consider "equivclp r y z" | "y = a" "z = b" | "y = b" "z = a"
      using r_into_equivclp [of r] converse_r_into_equivclp [of r] by blast
    then show ?case using step.IH by cases (meson equivclp_trans equivclp_refl)+
  qed simp
next
  have old: "equivclp ?e u v" if "equivclp r u v" for u v
    by (rule equivclp_mono [OF that]) blast
  have new: "equivclp ?e a b" "equivclp ?e b a" by blast+
  assume "?c x y"
  then show "equivclp ?e x y" using old new by (meson equivclp_trans)
qed

lemma shares_fresh:
  assumes "k \<notin> snd ` P"
  shows "equivclp (shares (insert (i, k) P)) x y \<longleftrightarrow> equivclp (shares P) x y"
proof
  show "equivclp (shares (insert (i, k) P)) x y \<Longrightarrow> equivclp (shares P) x y"
  proof (erule equivclp_mono)
    fix u v assume "shares (insert (i, k) P) u v"
    then have "u = v \<or> shares P u v" using assms by (force simp: shares_def)
    then show "equivclp (shares P) u v" by auto
  qed
  show "equivclp (shares P) x y \<Longrightarrow> equivclp (shares (insert (i, k) P)) x y"
    by (erule equivclp_mono) (rule r_into_equivclp, auto simp: shares_def)
qed

lemma shares_known:
  assumes "(j, k) \<in> P"
  shows "equivclp (shares (insert (i, k) P)) x y \<longleftrightarrow> equivclp (\<lambda>x y. shares P x y \<or> (x = i \<and> y = j)) x y"
proof
  let ?e = "\<lambda>x y. shares P x y \<or> (x = i \<and> y = j)"
  have key: "equivclp ?e i u \<and> equivclp ?e u i" if "(u, k) \<in> P" for u
  proof -
    have "equivclp ?e j u" using that assms by (auto simp: shares_def)
    moreover have "equivclp ?e i j" by blast
    ultimately show ?thesis by (meson equivclp_trans equivclp_sym)
  qed
  show "equivclp (shares (insert (i, k) P)) x y \<Longrightarrow> equivclp ?e x y"
  proof (erule equivclp_mono)
    fix u v assume "shares (insert (i, k) P) u v"
    then consider "shares P u v" | "u = i" "v = i" | "u = i" "(v, k) \<in> P" | "v = i" "(u, k) \<in> P"
      by (auto simp: shares_def)
    then show "equivclp ?e u v" using key by cases auto
  qed
  show "equivclp ?e x y \<Longrightarrow> equivclp (shares (insert (i, k) P)) x y"
    by (erule equivclp_mono) (rule r_into_equivclp, use assms in \<open>auto simp: shares_def\<close>)
qed

locale disjoint_groups =
  fixes ok :: "nat \<Rightarrow> 's \<Rightarrow> bool"
    and root :: "'s \<Rightarrow> nat \<Rightarrow> nat"
    and start :: "nat \<Rightarrow> 's"
    and look :: "nat \<Rightarrow> 's \<Rightarrow> (nat \<times> 's) option"
    and join :: "nat \<Rightarrow> nat \<Rightarrow> 's \<Rightarrow> 's option"
  assumes root_le: "root s x \<le> x"
    and root_root: "ok n s \<Longrightarrow> x < n \<Longrightarrow> root s (root s x) = root s x"
    and start_ok: "ok n (start n)"
    and start_root: "x < n \<Longrightarrow> root (start n) x = x"
    and look_root: "ok n s \<Longrightarrow> x < n \<Longrightarrow>
      \<exists>s'. look x s = Some (root s x, s') \<and> ok n s' \<and> (\<forall>y < n. root s' y = root s y)"
    and join_groups: "ok n s \<Longrightarrow> a < n \<Longrightarrow> b < n \<Longrightarrow>
      \<exists>s'. join a b s = Some s' \<and> ok n s' \<and> (\<forall>x < n. root s' x =
        (if root s x = root s a \<or> root s x = root s b then min (root s a) (root s b) else root s x))"
begin

text \<open>The groups are the classes of the links so far.\<close>

definition groups :: "nat \<Rightarrow> (nat \<Rightarrow> nat \<Rightarrow> bool) \<Rightarrow> 's \<Rightarrow> bool" where
  "groups n r s \<longleftrightarrow> ok n s \<and> (\<forall>x < n. \<forall>y < n. root s x = root s y \<longleftrightarrow> equivclp r x y)"

lemma groups_join:
  assumes g: "groups n r s" and ab: "a < n" "b < n"
  shows "\<exists>s'. join a b s = Some s' \<and> groups n (\<lambda>x y. r x y \<or> (x = a \<and> y = b)) s'"
proof -
  obtain s' where s': "join a b s = Some s'" "ok n s'"
    and root: "\<forall>x < n. root s' x = (if root s x = root s a \<or> root s x = root s b then min (root s a) (root s b) else root s x)"
    using join_groups [of n s a b] g ab by (auto simp: groups_def)
  have same: "root s x = root s y \<longleftrightarrow> equivclp r x y" if "x < n" "y < n" for x y
    using g that by (simp add: groups_def)
  have "root s' x = root s' y \<longleftrightarrow> equivclp (\<lambda>x y. r x y \<or> (x = a \<and> y = b)) x y" if xy: "x < n" "y < n" for x y
  proof -
    have m: "min (root s a) (root s b) = root s a \<or> min (root s a) (root s b) = root s b" by (simp add: min_def)
    have "root s' x = root s' y \<longleftrightarrow> root s x = root s y \<or> (root s x = root s a \<and> root s b = root s y)
        \<or> (root s x = root s b \<and> root s a = root s y)"
      using root xy m by auto
    also have "\<dots> \<longleftrightarrow> equivclp (\<lambda>x y. r x y \<or> (x = a \<and> y = b)) x y"
      unfolding equivclp_edge using same xy ab by auto
    finally show ?thesis .
  qed
  with s' show ?thesis by (auto simp: groups_def)
qed

lemma groups_cong: "(\<And>x y. equivclp r x y \<longleftrightarrow> equivclp r' x y) \<Longrightarrow> groups n r s \<longleftrightarrow> groups n r' s"
  by (simp add: groups_def)

lemma groups_look:
  "groups n r s \<Longrightarrow> x < n \<Longrightarrow>
    \<exists>s'. look x s = Some (root s x, s') \<and> groups n r s' \<and> (\<forall>y < n. root s' y = root s y)"
  using look_root [of n s x] by (auto simp: groups_def)

lemma root_least:
  assumes g: "groups n r s" and x: "x < n"
  shows "root s x = (LEAST y. equivclp r x y)"
proof (rule Least_equality [symmetric])
  have in_n: "root s x < n" using root_le [of s x] x by simp
  then show "equivclp r x (root s x)" using g x root_root [of n s x] by (metis groups_def)
  show "root s x \<le> y" if "equivclp r x y" for y
  proof (rule ccontr)
    assume "\<not> root s x \<le> y"
    then have "y < n" "y < root s x" using in_n by simp_all
    moreover from this have "root s x = root s y" using g x that by (simp add: groups_def)
    ultimately show False using root_le [of s y] by simp
  qed
qed

text \<open>A pass over keys that remembers who had each key first.\<close>

definition linked :: "nat \<Rightarrow> (nat \<times> 'k) set \<Rightarrow> ('k \<times> nat) list \<Rightarrow> 's \<Rightarrow> bool" where
  "linked n P seen s \<longleftrightarrow> groups n (shares P) s \<and> fst ` P \<subseteq> {..<n}
     \<and> (\<forall>j k. (j, k) \<in> P \<longrightarrow> dict_get seen k \<noteq> None) \<and> (\<forall>j k. dict_get seen k = Some j \<longrightarrow> (j, k) \<in> P)"

lemma linked_start: "linked n {} [] (start n)"
proof -
  have "x = y" if "equivclp (shares ({} :: (nat \<times> 'k) set)) x y" for x y :: nat
    using that by (induction rule: equivclp_induct) (auto simp: shares_def)
  then show ?thesis by (auto simp: linked_def groups_def start_ok start_root)
qed

lemma linked_new:
  "linked n P seen s \<Longrightarrow> dict_get seen k = None \<Longrightarrow> i < n \<Longrightarrow> linked n (insert (i, k) P) (dict_set k i seen) s"
  using groups_cong [OF shares_fresh [of k P i], of n s] by (force simp: linked_def)

lemma linked_old:
  assumes l: "linked n P seen s" and k: "dict_get seen k = Some j" and i: "i < n"
  shows "\<exists>s'. join i j s = Some s' \<and> linked n (insert (i, k) P) seen s'"
proof -
  have j: "(j, k) \<in> P" using l k by (simp add: linked_def)
  then have "j < n" using l by (auto simp: linked_def)
  then obtain s' where s': "join i j s = Some s'" "groups n (\<lambda>x y. shares P x y \<or> (x = i \<and> y = j)) s'"
    using groups_join [of n "shares P" s i j] l i by (auto simp: linked_def)
  then have "groups n (shares (insert (i, k) P)) s'"
    using groups_cong [OF shares_known [OF j, of i], of n s'] by simp
  then show ?thesis using s'(1) l i k by (auto simp: linked_def)
qed

end

section \<open>A parent table\<close>

text \<open>
  The table of a union-find structure that always hangs the larger root below the smaller one: no
  parent is larger than its child. \<open>uf_root\<close> is the end of the chain; \<open>uf_find\<close> walks it as the
  program does, halving the path, for at most the given number of steps.
\<close>

function uf_root :: "nat list \<Rightarrow> nat \<Rightarrow> nat" where
  "uf_root parents i = (if i < length parents \<and> parents ! i < i then uf_root parents (parents ! i) else i)"
  by pat_completeness auto
termination by (relation "measure snd") auto

declare uf_root.simps [simp del]

definition uf_ok :: "nat \<Rightarrow> nat list \<Rightarrow> bool" where
  "uf_ok n parents \<longleftrightarrow> length parents = n \<and> (\<forall>i < n. parents ! i \<le> i)"

fun uf_find :: "nat \<Rightarrow> nat \<Rightarrow> nat list \<Rightarrow> (nat \<times> nat list) option" where
  "uf_find 0 i parents = None"
| "uf_find (Suc fuel) i parents =
    (if parents ! i = i then Some (i, parents)
     else let parents = parents[i := parents ! (parents ! i)] in uf_find fuel (parents ! i) parents)"

definition uf_union :: "nat \<Rightarrow> nat \<Rightarrow> nat list \<Rightarrow> nat list option" where
  "uf_union left right parents =
    (case uf_find (length parents) left parents of
       None \<Rightarrow> None
     | Some (left_root, parents) \<Rightarrow>
       (case uf_find (length parents) right parents of
          None \<Rightarrow> None
        | Some (right_root, parents) \<Rightarrow>
          Some (if left_root \<noteq> right_root then parents[max left_root right_root := min left_root right_root] else parents)))"

lemma uf_root_le: "uf_root parents i \<le> i"
  by (induction parents i rule: uf_root.induct) (subst uf_root.simps, auto)

lemma uf_root_fix: "uf_ok n parents \<Longrightarrow> i < n \<Longrightarrow> parents ! (uf_root parents i) = uf_root parents i"
proof (induction parents i rule: uf_root.induct)
  case (1 parents i)
  then show ?case
    by (subst (1 2) uf_root.simps) (auto simp: uf_ok_def dest: spec [of _ i])
qed

lemma uf_root_self: "parents ! i = i \<Longrightarrow> uf_root parents i = i"
  by (subst uf_root.simps) simp

lemma uf_root_step: "uf_ok n parents \<Longrightarrow> i < n \<Longrightarrow> uf_root parents (parents ! i) = uf_root parents i"
  by (cases "parents ! i = i") (simp, subst (2) uf_root.simps, auto simp: uf_ok_def le_less)

text \<open>A table whose entries are replaced by nodes of the same chain has the same representatives.\<close>

lemma uf_root_halve:
  assumes ok: "uf_ok n parents" and i: "i < n" and p: "p \<le> i" "uf_root parents p = uf_root parents i"
    and fixed: "p = i \<longrightarrow> parents ! i = i"
  shows "uf_ok n (parents[i := p]) \<and> (\<forall>x < n. uf_root (parents[i := p]) x = uf_root parents x)"
proof
  have len: "length parents = n" using ok by (simp add: uf_ok_def)
  show ok': "uf_ok n (parents[i := p])" using ok i p(1) by (auto simp: uf_ok_def nth_list_update)
  show "\<forall>x < n. uf_root (parents[i := p]) x = uf_root parents x"
  proof (intro allI impI)
    fix x show "x < n \<Longrightarrow> uf_root (parents[i := p]) x = uf_root parents x"
    proof (induction x rule: less_induct)
      case (less x)
      let ?q = "parents[i := p] ! x"
      have q: "?q \<le> x" "?q < n" using ok' less.prems by (auto simp: uf_ok_def intro: le_less_trans)
      have same: "uf_root parents ?q = uf_root parents x"
        using uf_root_step [OF ok less.prems] p(2) len i by (auto simp: nth_list_update)
      show ?case
      proof (cases "?q < x")
        case True
        then have "uf_root (parents[i := p]) x = uf_root (parents[i := p]) ?q"
          using less.prems len by (subst uf_root.simps) simp
        also have "\<dots> = uf_root parents ?q" by (rule less.IH [OF True q(2)])
        finally show ?thesis using same by simp
      next
        case False
        then have "?q = x" using q by simp
        then have "uf_root (parents[i := p]) x = x" "parents ! x = x"
          using uf_root_self fixed len i by (auto simp: nth_list_update split: if_splits)
        then show ?thesis by (simp add: uf_root_self)
      qed
    qed
  qed
qed

lemma uf_find_root:
  "uf_ok n parents \<Longrightarrow> i < n \<Longrightarrow> i < fuel \<Longrightarrow>
    \<exists>parents'. uf_find fuel i parents = Some (uf_root parents i, parents') \<and> uf_ok n parents'
      \<and> (\<forall>x < n. uf_root parents' x = uf_root parents x)"
proof (induction fuel arbitrary: i parents)
  case (Suc fuel)
  show ?case
  proof (cases "parents ! i = i")
    case True
    then show ?thesis using Suc.prems by (simp add: uf_root_self)
  next
    case False
    let ?p = "parents ! i" and ?g = "parents ! (parents ! i)"
    have p: "?p < i" "?p < n" using Suc.prems(1,2) False by (auto simp: uf_ok_def le_less dest: spec [of _ i])
    have g: "?g \<le> ?p" "?g < n" using Suc.prems(1) p(2) by (auto simp: uf_ok_def intro: le_less_trans)
    have root: "uf_root parents ?g = uf_root parents i"
      using uf_root_step [OF Suc.prems(1) p(2)] uf_root_step [OF Suc.prems(1,2)] by simp
    note halve = uf_root_halve [OF Suc.prems(1,2) _ root] 
    have h: "uf_ok n (parents[i := ?g])" "\<forall>x < n. uf_root (parents[i := ?g]) x = uf_root parents x"
      using halve g(1) p(1) by auto
    have get: "parents[i := ?g] ! i = ?g" using Suc.prems(1,2) by (simp add: uf_ok_def)
    from Suc.IH [OF h(1) g(2)] g(1) p(1) Suc.prems(3)
    obtain parents' where "uf_find fuel ?g (parents[i := ?g]) = Some (uf_root (parents[i := ?g]) ?g, parents')"
      "uf_ok n parents'" "\<forall>x < n. uf_root parents' x = uf_root (parents[i := ?g]) x" by auto
    then show ?thesis using False h(2) g(2) root get by (simp add: Let_def)
  qed
qed simp

lemma uf_union_groups:
  assumes ok: "uf_ok n parents" and ab: "a < n" "b < n"
  shows "\<exists>parents'. uf_union a b parents = Some parents' \<and> uf_ok n parents' \<and> (\<forall>x < n. uf_root parents' x =
    (if uf_root parents x = uf_root parents a \<or> uf_root parents x = uf_root parents b
     then min (uf_root parents a) (uf_root parents b) else uf_root parents x))"
proof -
  have len: "length parents = n" using ok by (simp add: uf_ok_def)
  obtain p1 where p1: "uf_find n a parents = Some (uf_root parents a, p1)" "uf_ok n p1"
      "\<forall>x < n. uf_root p1 x = uf_root parents x"
    using uf_find_root [OF ok ab(1,1)] by blast
  obtain p2 where p2: "uf_find n b p1 = Some (uf_root p1 b, p2)" "uf_ok n p2" "\<forall>x < n. uf_root p2 x = uf_root p1 x"
    using uf_find_root [OF p1(2) ab(2,2)] by blast
  have len': "length p1 = n" "length p2 = n" using p1(2) p2(2) by (simp_all add: uf_ok_def)
  let ?a = "uf_root parents a" and ?b = "uf_root parents b"
  have roots: "uf_root p2 x = uf_root parents x" if "x < n" for x using p1(3) p2(3) that by simp
  have ab': "?a < n" "?b < n" using uf_root_le ab by (meson le_less_trans)+
  have fixed: "p2 ! ?a = ?a" "p2 ! ?b = ?b"
    using uf_root_fix [OF p2(2) ab(1)] uf_root_fix [OF p2(2) ab(2)] roots ab by simp_all
  show ?thesis
  proof (cases "?a = ?b")
    case True
    then show ?thesis using p1 p2 roots len len' ab by (simp add: uf_union_def)
  next
    case False
    let ?hi = "max ?a ?b" and ?lo = "min ?a ?b"
    let ?q = "p2[?hi := ?lo]"
    have q: "uf_union a b parents = Some ?q" using p1 p2 len len' False ab by (simp add: uf_union_def)
    have lo: "?lo < ?hi" "?hi < n" "?lo < n" using False ab' by (auto simp: min_def max_def)
    have ok': "uf_ok n ?q" using p2(2) lo by (auto simp: uf_ok_def nth_list_update)
    have fix_hi: "p2 ! ?hi = ?hi" "p2 ! ?lo = ?lo" using fixed by (auto simp: max_def min_def)
    have "uf_root ?q x = (if uf_root p2 x = ?hi \<or> uf_root p2 x = ?lo then ?lo else uf_root p2 x)" if "x < n" for x
      using that
    proof (induction x rule: less_induct)
      case (less x)
      consider "x = ?hi" | "x \<noteq> ?hi" "p2 ! x = x" | "x \<noteq> ?hi" "p2 ! x < x"
        using p2(2) less.prems by (force simp: uf_ok_def le_less)
      then show ?case
      proof cases
        case 1
        have "uf_root ?q ?hi = uf_root ?q ?lo"
          using lo len' by (subst uf_root.simps) simp
        also have "\<dots> = ?lo" using fix_hi(2) lo by (intro uf_root_self) (simp add: nth_list_update)
        finally show ?thesis using 1 uf_root_self [OF fix_hi(1)] by simp
      next
        case 2
        then have "uf_root ?q x = x" "uf_root p2 x = x" by (simp_all add: uf_root_self)
        with 2 show ?thesis by auto
      next
        case 3
        then have "uf_root ?q x = uf_root ?q (p2 ! x)" using less.prems len' by (subst uf_root.simps) simp
        moreover have "uf_root p2 (p2 ! x) = uf_root p2 x" by (rule uf_root_step [OF p2(2) less.prems])
        ultimately show ?thesis using less.IH [OF 3(2)] 3(2) less.prems by simp
      qed
    qed
    then have "uf_root ?q x = (if uf_root parents x = ?a \<or> uf_root parents x = ?b then ?lo else uf_root parents x)" if "x < n" for x
      using that roots by (auto simp: max_def min_def)
    with q ok' show ?thesis by blast
  qed
qed

lemma uf_root_root: "uf_ok n parents \<Longrightarrow> i < n \<Longrightarrow> uf_root parents (uf_root parents i) = uf_root parents i"
  by (intro uf_root_self uf_root_fix)

interpretation uf: disjoint_groups uf_ok uf_root "\<lambda>n. [0 ..< n]" "\<lambda>i parents. uf_find (length parents) i parents" uf_union
proof unfold_locales
  show "uf_root parents x \<le> x" for parents x by (rule uf_root_le)
  show "uf_ok n parents \<Longrightarrow> x < n \<Longrightarrow> uf_root parents (uf_root parents x) = uf_root parents x" for n parents x
    by (rule uf_root_root)
  show "uf_ok n [0 ..< n]" for n by (simp add: uf_ok_def)
  show "x < n \<Longrightarrow> uf_root [0 ..< n] x = x" for x n by (simp add: uf_root_self)
  show "uf_ok n parents \<Longrightarrow> x < n \<Longrightarrow> \<exists>p. uf_find (length parents) x parents = Some (uf_root parents x, p) \<and> uf_ok n p
      \<and> (\<forall>y < n. uf_root p y = uf_root parents y)" for n parents x
    using uf_find_root [of n parents x n] by (simp add: uf_ok_def)
qed (rule uf_union_groups)

end
