(* ===== verification/Vulnerability_Merge.thy ===== *)
theory Vulnerability_Merge
  imports Disjoint_Groups Json "HOL-Library.Product_Lexorder"
begin

text \<open>
  The merging of vulnerability evidence of \<^verbatim>\<open>app/normalization/vulnerability_merge.py\<close>: the records, the
  keys they share, the union-find pass over them and the merge of one group. A set of strings is the
  list of its members in iteration order; the order in which a set built from given strings is iterated
  is a parameter, \<open>order\<close>.
\<close>

section \<open>Records\<close>

datatype severity = INFO | LOW | MEDIUM | HIGH | CRITICAL

text \<open>\<open>_SEVERITY_RANK\<close>; severities are ordered by it.\<close>

primrec severity_rank :: "severity \<Rightarrow> int" where
  "severity_rank INFO = 0"
| "severity_rank LOW = 1"
| "severity_rank MEDIUM = 2"
| "severity_rank HIGH = 3"
| "severity_rank CRITICAL = 4"

lemma severity_rank_inject [simp]: "severity_rank s = severity_rank t \<longleftrightarrow> s = t"
  by (cases s; cases t) simp_all

instantiation severity :: linorder
begin

definition less_eq_severity :: "severity \<Rightarrow> severity \<Rightarrow> bool" where
  "s \<le> t \<longleftrightarrow> severity_rank s \<le> severity_rank t"

definition less_severity :: "severity \<Rightarrow> severity \<Rightarrow> bool" where
  "s < t \<longleftrightarrow> severity_rank s < severity_rank t"

instance
  by standard (auto simp: less_eq_severity_def less_severity_def)

end

record vulnerability =
  vu_schema_version :: string
  vu_scanner_version :: string
  vu_scan_id :: string
  vu_endpoint_id :: "string option"
  vu_vulnerability_id :: string
  vu_package_name :: string
  vu_package_ecosystem :: "string option"
  vu_installed_version :: "string option"
  vu_affected_versions :: "string list"
  vu_fixed_versions :: "string list"
  vu_aliases :: "string list"
  vu_severity :: severity
  vu_cvss_score :: "rat option"
  vu_exploitability :: "rat option"
  vu_known_exploited :: bool
  vu_summary :: "string option"
  vu_references :: "string list"
  vu_evidence :: jobj
  vu_detected_at :: int

section \<open>Keys\<close>

text \<open>
  \<open>str.upper\<close> and \<open>str.casefold\<close> as the code points they are compared by: two characters have their
  capital, and the micro sign its folding, above 255.
\<close>

definition upper_points :: "string \<Rightarrow> nat list" where
  "upper_points s = concat (map (\<lambda>c. let n = code_point c in
     if n = 223 then [83, 83] else if n = 181 then [924] else if n = 255 then [376] else [code_point (upper_char c)]) s)"

definition fold_points :: "string \<Rightarrow> nat list" where
  "fold_points s = concat (map (\<lambda>c. if code_point c = 181 then [956] else map code_point (casefold_char c)) s)"

definition text_or_empty :: "string option \<Rightarrow> string" where
  "text_or_empty t = (case t of None \<Rightarrow> [] | Some s \<Rightarrow> s)"

definition nonblank :: "string \<Rightarrow> bool" where
  "nonblank s \<longleftrightarrow> py_strip s \<noteq> []"

type_synonym package = "string \<times> string \<times> string"

definition package_key :: "vulnerability \<Rightarrow> package" where
  "package_key item =
     (py_strip (py_casefold (vu_package_name item)),
      py_strip (py_casefold (text_or_empty (vu_package_ecosystem item))),
      py_strip (py_casefold (text_or_empty (vu_installed_version item))))"

definition identifiers :: "(string list \<Rightarrow> string list) \<Rightarrow> vulnerability \<Rightarrow> string list" where
  "identifiers order item =
     order (map py_casefold (filter nonblank (order (vu_vulnerability_id item # vu_aliases item))))"

definition id_priority :: "string \<Rightarrow> nat \<times> nat list" where
  "id_priority v = (let upper = upper_points v in
     if take 4 upper = map code_point ''CVE-'' then (0, upper)
     else if take 5 upper = map code_point ''GHSA-'' then (1, upper) else (2, upper))"

text \<open>\<open>min(values, key=priority)\<close>: the first identifier of least priority.\<close>

definition canonical_identifier :: "string list \<Rightarrow> py_error + string" where
  "canonical_identifier ids =
     (if ids = [] then Inl (ValueError ''min() iterable argument is empty'') else Inr (arg_min_list id_priority ids))"

definition source_text :: "jobj \<Rightarrow> string \<Rightarrow> string option" where
  "source_text evidence k =
     (case jget k evidence of JStr s \<Rightarrow> if nonblank s then Some (take 128 (py_strip s)) else None | _ \<Rightarrow> None)"

definition source_names :: "vulnerability \<Rightarrow> string list" where
  "source_names item =
    (let evidence = vu_evidence item;
         names = (case jget ''sources'' evidence of
           JArr aggregated \<Rightarrow> [take 128 (py_strip s). JStr s \<leftarrow> aggregated, nonblank s] | _ \<Rightarrow> [])
     in if names \<noteq> [] then remdups names
        else case source_text evidence ''source_tool'' of Some s \<Rightarrow> [s]
        | None \<Rightarrow> (case source_text evidence ''source'' of Some s \<Rightarrow> [s]
        | None \<Rightarrow> (case source_text evidence ''source_path'' of Some _ \<Rightarrow> [''dependency-scanner'']
        | None \<Rightarrow> [''unknown''])))"

section \<open>One group\<close>

text \<open>\<open>sorted\<close> of a set, and \<open>max(xs) if xs else None\<close>.\<close>

definition sorted_set :: "'a::linorder list \<Rightarrow> 'a list" where
  "sorted_set xs = sort (remdups xs)"

definition max_or_none :: "'a::linorder list \<Rightarrow> 'a option" where
  "max_or_none xs = (if xs = [] then None else Some (Max (set xs)))"

definition prior_records :: "vulnerability \<Rightarrow> json list" where
  "prior_records item =
     (case jget ''records'' (vu_evidence item) of
        JArr records \<Rightarrow> filter is_jobj records
      | _ \<Rightarrow> [JObj [(''source'', JStr (hd (sorted_set (source_names item)))),
                  (''vulnerability_id'', JStr (vu_vulnerability_id item)), (''evidence'', JObj (vu_evidence item))]])"

fun evidence_records :: "json list \<Rightarrow> vulnerability list \<Rightarrow> json list" where
  "evidence_records records [] = records"
| "evidence_records records (item # ordered) =
     (let records = records @ prior_records item
      in if length records \<ge> 16 then take 16 records else evidence_records records ordered)"

definition longest_summary :: "vulnerability list \<Rightarrow> string option" where
  "longest_summary ordered =
     map_option snd (max_or_none [(length s, s). Some s \<leftarrow> map vu_summary ordered, s \<noteq> []])"

definition merge_order :: "vulnerability \<Rightarrow> int \<times> nat list \<times> nat list" where
  "merge_order item = (vu_detected_at item, fold_points (vu_vulnerability_id item), fold_points (vu_package_name item))"

definition group_identifiers :: "(string list \<Rightarrow> string list) \<Rightarrow> vulnerability list \<Rightarrow> string list" where
  "group_identifiers order ordered =
     order (concat (map (\<lambda>item. filter nonblank (order (vu_vulnerability_id item # vu_aliases item))) ordered))"

definition merge_group :: "(string list \<Rightarrow> string list) \<Rightarrow> vulnerability list \<Rightarrow> py_error + vulnerability" where
  "merge_group order items =
    (let ordered = sort_key merge_order items; ids = group_identifiers order ordered
     in ebind (canonical_identifier ids) (\<lambda>canonical.
        Inr ((hd ordered)
          \<lparr> vu_vulnerability_id := canonical,
            vu_aliases := order (filter (\<lambda>i. i \<noteq> canonical) ids),
            vu_affected_versions := take 512 (sorted_set (concat (map vu_affected_versions ordered))),
            vu_fixed_versions := take 512 (sorted_set (concat (map vu_fixed_versions ordered))),
            vu_severity := Max (set (map vu_severity ordered)),
            vu_cvss_score := max_or_none (List.map_filter vu_cvss_score ordered),
            vu_exploitability := max_or_none (List.map_filter vu_exploitability ordered),
            vu_known_exploited := list_ex vu_known_exploited ordered,
            vu_summary := longest_summary ordered,
            vu_references := take 128 (sorted_set (concat (map vu_references ordered))),
            vu_evidence := [(''sources'', JArr (map JStr (sorted_set (concat (map source_names ordered))))),
                            (''records'', JArr (evidence_records [] ordered))],
            vu_detected_at := Min (set (map vu_detected_at ordered)) \<rparr>)))"

section \<open>All records\<close>

text \<open>
  The pass that links records with a common key. \<open>None\<close> is a \<open>find\<close> that runs out of the steps
  allowed, one for each record.
\<close>

type_synonym seen = "((package \<times> string) \<times> nat) list"

fun link_identifiers :: "nat \<Rightarrow> package \<Rightarrow> string list \<Rightarrow> seen \<Rightarrow> nat list \<Rightarrow> (seen \<times> nat list) option" where
  "link_identifiers index package [] seen parents = Some (seen, parents)"
| "link_identifiers index package (identifier # ids) seen parents =
     (case dict_get seen (package, identifier) of
        None \<Rightarrow> link_identifiers index package ids (dict_set (package, identifier) index seen) parents
      | Some previous \<Rightarrow>
        (case uf_union index previous parents of
           None \<Rightarrow> None
         | Some parents \<Rightarrow> link_identifiers index package ids seen parents))"

fun link_records :: "(string list \<Rightarrow> string list) \<Rightarrow> nat \<Rightarrow> vulnerability list \<Rightarrow> seen \<Rightarrow> nat list \<Rightarrow> nat list option" where
  "link_records order index [] seen parents = Some parents"
| "link_records order index (item # items) seen parents =
     (case link_identifiers index (package_key item) (identifiers order item) seen parents of
        None \<Rightarrow> None
      | Some (seen, parents) \<Rightarrow> link_records order (Suc index) items seen parents)"

fun group_records ::
  "nat \<Rightarrow> vulnerability list \<Rightarrow> nat list \<Rightarrow> (nat \<times> vulnerability list) list \<Rightarrow> (nat \<times> vulnerability list) list option" where
  "group_records index [] parents grouped = Some grouped"
| "group_records index (item # items) parents grouped =
     (case uf_find (length parents) index parents of
        None \<Rightarrow> None
      | Some (leader, parents) \<Rightarrow>
        group_records (Suc index) items parents
          (dict_set leader ((case dict_get grouped leader of None \<Rightarrow> [] | Some group_items \<Rightarrow> group_items) @ [item]) grouped))"

definition advisory_groups :: "(string list \<Rightarrow> string list) \<Rightarrow> vulnerability list \<Rightarrow> vulnerability list list option" where
  "advisory_groups order materialized =
     (case link_records order 0 materialized [] [0 ..< length materialized] of
        None \<Rightarrow> None
      | Some parents \<Rightarrow> map_option (\<lambda>grouped. map snd (sort_key fst grouped)) (group_records 0 materialized parents []))"

fun merge_groups :: "(string list \<Rightarrow> string list) \<Rightarrow> vulnerability list list \<Rightarrow> py_error + vulnerability list" where
  "merge_groups order [] = Inr []"
| "merge_groups order (items # rest) =
     ebind (merge_group order items) (\<lambda>item. ebind (merge_groups order rest) (\<lambda>merged. Inr (item # merged)))"

definition report_order :: "vulnerability \<Rightarrow> int \<times> nat list \<times> nat list \<times> nat list" where
  "report_order item = (- severity_rank (vu_severity item), fold_points (vu_package_name item),
     fold_points (text_or_empty (vu_installed_version item)), fold_points (vu_vulnerability_id item))"

definition merge_vulnerabilities ::
  "(string list \<Rightarrow> string list) \<Rightarrow> vulnerability list \<Rightarrow> (py_error + vulnerability list) option" where
  "merge_vulnerabilities order materialized =
     (if length materialized > 100000 then Some (Inl (ValueError ''vulnerability record count exceeds 100000''))
      else if materialized = [] then Some (Inr [])
      else map_option (\<lambda>groups. ebind (merge_groups order groups) (\<lambda>merged. Inr (sort_key report_order merged)))
        (advisory_groups order materialized))"

end
