(* ===== verification/Merge_Properties.thy ===== *)
theory Merge_Properties
  imports Vulnerability_Merge "HOL-Library.Code_Target_Nat"
begin

text \<open>
  What the merge computes: the groups are the classes of the records under sharing a key, whatever the
  order of the sets, and one record for each class keeps what its members report.
\<close>

section \<open>The classes\<close>

text \<open>The keys of a record: its package with each of its identifiers.\<close>

definition record_keys :: "vulnerability \<Rightarrow> (package \<times> string) set" where
  "record_keys item = (\<lambda>v. (package_key item, py_casefold v)) ` {v \<in> set (vu_vulnerability_id item # vu_aliases item). nonblank v}"

definition record_pairs :: "nat \<Rightarrow> vulnerability list \<Rightarrow> (nat \<times> (package \<times> string)) set" where
  "record_pairs index items = {(j, k). \<exists>i. j = index + i \<and> i < length items \<and> k \<in> record_keys (items ! i)}"

text \<open>The least record connected with a given one by a chain of shared keys, and the records by it.\<close>

definition tied :: "vulnerability list \<Rightarrow> nat \<Rightarrow> nat \<Rightarrow> bool" where
  "tied items = equivclp (shares (record_pairs 0 items))"

definition leader :: "vulnerability list \<Rightarrow> nat \<Rightarrow> nat" where
  "leader items i = (LEAST j. tied items i j)"

definition class_of :: "vulnerability list \<Rightarrow> nat \<Rightarrow> vulnerability list" where
  "class_of items r = map ((!) items) (filter (\<lambda>i. leader items i = r) [0 ..< length items])"

definition class_groups :: "vulnerability list \<Rightarrow> vulnerability list list" where
  "class_groups items = map (class_of items) (filter (\<lambda>r. leader items r = r) [0 ..< length items])"

lemma tied_refl [simp]: "tied items i i"
  by (simp add: tied_def)

lemma tied_sym: "tied items i j \<Longrightarrow> tied items j i"
  unfolding tied_def by (rule equivclp_sym)

lemma tied_trans: "tied items i j \<Longrightarrow> tied items j k \<Longrightarrow> tied items i k"
  unfolding tied_def by (rule equivclp_trans)

lemma tied_leader: "tied items i (leader items i)"
  unfolding leader_def by (rule LeastI [of _ i]) simp

lemma leader_le: "leader items i \<le> i"
  unfolding leader_def by (rule Least_le) simp

lemma leader_iff: "leader items i = leader items j \<longleftrightarrow> tied items i j"
proof
  show "leader items i = leader items j \<Longrightarrow> tied items i j"
    using tied_leader [of items i] tied_leader [of items j] by (auto intro: tied_trans tied_sym)
  assume "tied items i j"
  then have "tied items i = tied items j" by (auto intro: tied_trans tied_sym)
  then show "leader items i = leader items j" by (simp add: leader_def)
qed

lemma leader_leader [simp]: "leader items (leader items i) = leader items i"
  by (simp add: leader_iff tied_leader tied_sym)

section \<open>The pass over the records\<close>

lemma identifiers_keys:
  assumes "\<And>xs. set (order xs) = set xs"
  shows "Pair (package_key item) ` set (identifiers order item) = record_keys item"
  unfolding identifiers_def record_keys_def assms set_map set_filter image_image by auto

lemma link_identifiers_linked:
  "uf.linked n P seen parents \<Longrightarrow> index < n \<Longrightarrow>
    \<exists>seen' parents'. link_identifiers index package ids seen parents = Some (seen', parents')
      \<and> uf.linked n (P \<union> Pair index ` Pair package ` set ids) seen' parents'"
proof (induction ids arbitrary: P seen parents)
  case (Cons v ids)
  let ?k = "(package, v)"
  have keys: "P \<union> Pair index ` Pair package ` set (v # ids) = insert (index, ?k) P \<union> Pair index ` Pair package ` set ids"
    by auto
  show ?case
  proof (cases "dict_get seen ?k")
    case None
    then show ?thesis unfolding keys using Cons.IH [OF uf.linked_new [OF Cons.prems(1) None Cons.prems(2)] Cons.prems(2)] by simp
  next
    case (Some previous)
    obtain parents' where "uf_union index previous parents = Some parents'" "uf.linked n (insert (index, ?k) P) seen parents'"
      using uf.linked_old [OF Cons.prems(1) Some Cons.prems(2)] by blast
    then show ?thesis unfolding keys using Cons.IH [of "insert (index, ?k) P" seen parents'] Cons.prems(2) Some by simp
  qed
qed simp

lemma ex_nat_split: "(\<exists>i. P i) \<longleftrightarrow> P 0 \<or> (\<exists>i. P (Suc i))"
  by (metis not0_implies_Suc)

lemma record_pairs_Cons:
  "record_pairs index (item # items) = Pair index ` record_keys item \<union> record_pairs (Suc index) items"
proof (rule set_eqI)
  fix p
  show "p \<in> record_pairs index (item # items) \<longleftrightarrow> p \<in> Pair index ` record_keys item \<union> record_pairs (Suc index) items"
    unfolding record_pairs_def by (cases p) (simp, subst ex_nat_split, auto)
qed

lemma link_records_linked:
  assumes order: "\<And>xs. set (order xs) = set xs"
  shows "uf.linked n P seen parents \<Longrightarrow> index + length items \<le> n \<Longrightarrow>
    \<exists>parents'. link_records order index items seen parents = Some parents'
      \<and> uf.groups n (shares (P \<union> record_pairs index items)) parents'"
proof (induction items arbitrary: index P seen parents)
  case Nil
  then show ?case by (simp add: uf.linked_def record_pairs_def)
next
  case (Cons item items)
  obtain seen' parents' where
    step: "link_identifiers index (package_key item) (identifiers order item) seen parents = Some (seen', parents')"
    and linked: "uf.linked n (P \<union> Pair index ` record_keys item) seen' parents'"
    using link_identifiers_linked [OF Cons.prems(1), of index "package_key item" "identifiers order item"] Cons.prems(2)
    by (auto simp: identifiers_keys [OF order])
  show ?case using Cons.IH [OF linked, of "Suc index"] Cons.prems(2) step by (simp add: record_pairs_Cons Un_assoc)
qed

text \<open>What a dictionary of lists holds for a key, and the records that go to one.\<close>

definition entry :: "(nat \<times> 'a list) list \<Rightarrow> nat \<Rightarrow> 'a list" where
  "entry grouped r = (case dict_get grouped r of None \<Rightarrow> [] | Some g \<Rightarrow> g)"

lemma group_records_entries:
  "uf.groups n r parents \<Longrightarrow> index + length items \<le> n \<Longrightarrow> dict_ok grouped \<Longrightarrow>
    \<exists>grouped'. group_records index items parents grouped = Some grouped' \<and> dict_ok grouped'
      \<and> fst ` set grouped' = fst ` set grouped \<union> uf_root parents ` {index ..< index + length items}
      \<and> (\<forall>k. entry grouped' k = entry grouped k @ map snd (filter (\<lambda>(j, _). uf_root parents j = k) (enumerate index items)))"
proof (induction items arbitrary: index parents grouped)
  case (Cons item items)
  let ?r = "uf_root parents index"
  obtain parents' where look: "uf_find (length parents) index parents = Some (?r, parents')"
    and g: "uf.groups n r parents'" and same: "\<forall>y < n. uf_root parents' y = uf_root parents y"
    using uf.groups_look [OF Cons.prems(1), of index] Cons.prems(2) by auto
  let ?grouped = "dict_set ?r (entry grouped ?r @ [item]) grouped"
  have ok: "dict_ok ?grouped" using Cons.prems(3) by simp
  have keys: "fst ` set ?grouped = insert ?r (fst ` set grouped)"
    unfolding dict_set_def dom_map_of_conv_image_fst [symmetric] by (simp add: update_conv')
  obtain grouped' where rest: "group_records (Suc index) items parents' ?grouped = Some grouped'" "dict_ok grouped'"
      "fst ` set grouped' = fst ` set ?grouped \<union> uf_root parents' ` {Suc index ..< Suc index + length items}"
      "\<forall>k. entry grouped' k = entry ?grouped k @ map snd (filter (\<lambda>(j, _). uf_root parents' j = k) (enumerate (Suc index) items))"
    using Cons.IH [OF g _ ok, of "Suc index"] Cons.prems(2) by auto
  have roots: "uf_root parents' ` {Suc index ..< Suc index + length items} = uf_root parents ` {Suc index ..< Suc index + length items}"
    using same Cons.prems(2) by (intro image_cong) auto
  have filters: "filter (\<lambda>(j, _). uf_root parents' j = k) (enumerate (Suc index) items)
      = filter (\<lambda>(j, _). uf_root parents j = k) (enumerate (Suc index) items)" for k
    using same Cons.prems(2) by (intro filter_cong) (auto simp: in_set_enumerate_eq)
  have "{index ..< index + length (item # items)} = insert index {Suc index ..< Suc index + length items}" by auto
  then have "fst ` set grouped' = fst ` set grouped \<union> uf_root parents ` {index ..< index + length (item # items)}"
    using rest(3) keys roots by simp
  moreover have "entry grouped' k = entry grouped k @ map snd (filter (\<lambda>(j, _). uf_root parents j = k) (enumerate index (item # items)))" for k
    using rest(4) filters by (simp add: entry_def)
  ultimately show ?case using look rest(1,2) by (simp add: entry_def)
qed simp

lemma enumerate_filter: "map snd (filter (\<lambda>(j, _). P j) (enumerate 0 xs)) = map ((!) xs) (filter P [0 ..< length xs])"
proof -
  have "enumerate 0 xs = map (\<lambda>i. (i, xs ! i)) [0 ..< length xs]"
    by (rule nth_equalityI) (simp_all add: nth_enumerate_eq)
  then show ?thesis by (simp add: filter_map comp_def split_def)
qed

text \<open>A dictionary with distinct keys, read in the order of its keys.\<close>

lemma sorted_entries:
  assumes "dict_ok grouped"
  shows "map snd (sort_key fst grouped) = map (entry grouped) (sorted_list_of_set (fst ` set grouped))"
proof -
  have "map fst (sort_key fst grouped) = sorted_list_of_set (fst ` set grouped)"
    using assms by (intro sorted_distinct_set_unique) (auto simp: dict_ok_def distinct_map_sort_key)
  moreover have "map snd (sort_key fst grouped) = map (entry grouped) (map fst (sort_key fst grouped))"
    using assms by (auto simp: entry_def dict_get_def dict_ok_def intro!: map_cong)
  ultimately show ?thesis by simp
qed

text \<open>Three reports, two of them of one advisory of one package.\<close>

definition demo_vulnerability :: "string \<Rightarrow> string list \<Rightarrow> string \<Rightarrow> severity \<Rightarrow> int \<Rightarrow> vulnerability" where
  "demo_vulnerability i aliases name sev seen_at = \<lparr> vu_schema_version = ''1.0'', vu_scanner_version = ''1.0.0'', vu_scan_id = ''s'',
     vu_endpoint_id = None, vu_vulnerability_id = i, vu_package_name = name, vu_package_ecosystem = None,
     vu_installed_version = Some ''1'', vu_affected_versions = [], vu_fixed_versions = [], vu_aliases = aliases,
     vu_severity = sev, vu_cvss_score = None, vu_exploitability = None, vu_known_exploited = False,
     vu_summary = None, vu_references = [], vu_evidence = [(''source_tool'', JStr ''osv'')], vu_detected_at = seen_at \<rparr>"

definition demo_reports :: "vulnerability list" where
  "demo_reports = [demo_vulnerability ''GHSA-1'' [''CVE-1''] ''Zlib'' MEDIUM 5, demo_vulnerability ''cve-1'' [] ''xz'' LOW 2,
     demo_vulnerability ''OSV-1'' [''ghsa-1''] ''zlib'' HIGH 3]"

lemma demo_groups: "map_option (map (map vu_vulnerability_id)) (advisory_groups remdups demo_reports)
    = Some [[''GHSA-1'', ''OSV-1''], [''cve-1'']]"
  by code_simp

lemma demo_merge: "map_option (map_sum id (map (\<lambda>m. (vu_vulnerability_id m, vu_severity m))))
    (merge_vulnerabilities remdups demo_reports) = Some (Inr [(''CVE-1'', HIGH), (''cve-1'', LOW)])"
  by code_simp

text \<open>C39: The pass over the records and its union-find structure compute exactly the classes of the records
  under sharing, directly or through other records, an identifier of the same package: a fresh definition
  by least members gives the same groups in the same order, whatever the iteration order of the sets, and
  no lookup of a representative runs out of the steps allowed.\<close>

theorem groups_exact:
  assumes order: "\<And>xs. set (order xs) = set xs"
  shows "advisory_groups order items = Some (class_groups items)"
proof -
  let ?n = "length items"
  obtain parents where link: "link_records order 0 items [] [0 ..< ?n] = Some parents"
    and g: "uf.groups ?n (shares (record_pairs 0 items)) parents"
    using link_records_linked [OF order uf.linked_start [of ?n], of 0 items] by auto
  have root: "uf_root parents i = leader items i" if "i < ?n" for i
    using uf.root_least [OF g that] by (simp add: leader_def tied_def)
  obtain grouped where grouped: "group_records 0 items parents [] = Some grouped" "dict_ok grouped"
      "fst ` set grouped = uf_root parents ` {0 ..< ?n}"
      "\<forall>k. entry grouped k = map snd (filter (\<lambda>(j, _). uf_root parents j = k) (enumerate 0 items))"
    using group_records_entries [OF g, of 0 items "[]"] by (auto simp: entry_def)
  have "filter (\<lambda>j. uf_root parents j = k) [0 ..< ?n] = filter (\<lambda>j. leader items j = k) [0 ..< ?n]" for k
    using root by (intro filter_cong) auto
  then have entries: "entry grouped = class_of items"
    by (intro ext) (simp only: grouped(4) [rule_format] enumerate_filter class_of_def)
  have "uf_root parents ` {0 ..< ?n} = {r. r < ?n \<and> leader items r = r}"
  proof (intro equalityI subsetI)
    fix r assume "r \<in> uf_root parents ` {0 ..< ?n}"
    then obtain i where "i < ?n" "r = leader items i" using root by auto
    then show "r \<in> {r. r < ?n \<and> leader items r = r}" using leader_le [of items i] by simp
  next
    fix r assume "r \<in> {r. r < ?n \<and> leader items r = r}"
    then show "r \<in> uf_root parents ` {0 ..< ?n}" using root by (intro image_eqI [of _ _ r]) auto
  qed
  then have "fst ` set grouped = set (filter (\<lambda>r. leader items r = r) [0 ..< ?n])"
    using grouped(3) by auto
  then have "sorted_list_of_set (fst ` set grouped) = filter (\<lambda>r. leader items r = r) [0 ..< ?n]"
    by (simp add: sorted_list_of_set.idem_if_sorted_distinct sorted_wrt_filter del: set_filter)
  then show ?thesis
    by (simp add: advisory_groups_def link grouped(1) sorted_entries [OF grouped(2)] entries class_groups_def)
qed

theorem groups_exact_witness:
  "map (map vu_vulnerability_id) (class_groups demo_reports) = [[''GHSA-1'', ''OSV-1''], [''cve-1'']]"
  using groups_exact [of remdups demo_reports] demo_groups by simp

section \<open>Merged records\<close>

text \<open>What a merged record keeps of one of its members.\<close>

definition keeps :: "vulnerability \<Rightarrow> vulnerability \<Rightarrow> bool" where
  "keeps m item \<longleftrightarrow> record_keys item \<subseteq> record_keys m \<and> vu_severity item \<le> vu_severity m
     \<and> (vu_known_exploited item \<longrightarrow> vu_known_exploited m)
     \<and> (\<forall>score. vu_cvss_score item = Some score \<longrightarrow> (\<exists>top. vu_cvss_score m = Some top \<and> score \<le> top))
     \<and> vu_detected_at m \<le> vu_detected_at item"

lemma max_or_none_ge: "x \<in> set xs \<Longrightarrow> \<exists>top. max_or_none xs = Some top \<and> x \<le> top"
  by (auto simp: max_or_none_def)

lemma set_map_filter: "set (List.map_filter f xs) = {y. \<exists>x \<in> set xs. f x = Some y}"
  by (induction xs) (auto simp: List.map_filter_simps split: option.splits)

lemma merge_group_keeps:
  assumes order: "\<And>xs. set (order xs) = set xs" and ne: "items \<noteq> []"
    and ids: "\<And>item. item \<in> set items \<Longrightarrow> nonblank (vu_vulnerability_id item)"
    and package: "\<And>item. item \<in> set items \<Longrightarrow> package_key item = p"
  shows "\<exists>m. merge_group order items = Inr m \<and> record_keys m = \<Union> (record_keys ` set items) \<and> (\<forall>item \<in> set items. keeps m item)"
proof -
  let ?ordered = "sort_key merge_order items"
  let ?ids = "group_identifiers order ?ordered"
  let ?names = "\<lambda>item. {v \<in> set (vu_vulnerability_id item # vu_aliases item). nonblank v}"
  have all: "set ?ids = (\<Union>item \<in> set items. ?names item)"
    by (simp add: group_identifiers_def order)
  have first: "hd ?ordered \<in> set items"
    using ne by (metis hd_in_set length_0_conv length_sort set_sort)
  have "vu_vulnerability_id (hd items) \<in> set ?ids" using ne ids unfolding all by auto
  then have some: "?ids \<noteq> []" by auto
  define canonical where "canonical = arg_min_list id_priority ?ids"
  have c: "canonical \<in> set ?ids" unfolding canonical_def by (rule arg_min_list_in [OF some])
  then have cn: "nonblank canonical" unfolding all by auto
  obtain m where m: "merge_group order items = Inr m"
    using some by (simp add: merge_group_def canonical_identifier_def Let_def)
  then have fields: "vu_vulnerability_id m = canonical" "set (vu_aliases m) = set ?ids - {canonical}"
      "package_key m = package_key (hd ?ordered)" "vu_severity m = Max (vu_severity ` set items)"
      "vu_known_exploited m = list_ex vu_known_exploited ?ordered"
      "vu_cvss_score m = max_or_none (List.map_filter vu_cvss_score ?ordered)"
      "vu_detected_at m = Min (vu_detected_at ` set items)"
    using some by (auto simp: merge_group_def canonical_identifier_def Let_def canonical_def order package_key_def)
  have "?names m = set ?ids" using fields(1,2) c cn unfolding all by auto
  moreover have "package_key m = p" using fields(3) package first by simp
  ultimately have keys: "record_keys m = \<Union> (record_keys ` set items)"
    unfolding record_keys_def all using package by (simp add: image_UN)
  have "keeps m item" if it: "item \<in> set items" for item
  proof -
    have "\<exists>top. vu_cvss_score m = Some top \<and> score \<le> top" if "vu_cvss_score item = Some score" for score
      using max_or_none_ge [of score "List.map_filter vu_cvss_score ?ordered"] fields(6) that \<open>item \<in> set items\<close>
      by (auto simp: set_map_filter)
    then show ?thesis using that keys fields(4,5,7) by (auto simp: keeps_def list_ex_iff)
  qed
  with m keys show ?thesis by blast
qed

section \<open>The report\<close>

lemma tied_package: "tied items i j \<Longrightarrow> package_key (items ! i) = package_key (items ! j)"
  unfolding tied_def
  by (induction rule: equivclp_induct) (auto simp: shares_def record_pairs_def record_keys_def)

lemma tied_keys:
  "i < length items \<Longrightarrow> j < length items \<Longrightarrow> k \<in> record_keys (items ! i) \<Longrightarrow> k \<in> record_keys (items ! j) \<Longrightarrow> tied items i j"
  unfolding tied_def shares_def record_pairs_def by (rule r_into_equivclp, rule exI [of _ k]) simp

lemma class_of_mem: "item \<in> set (class_of items r) \<longleftrightarrow> (\<exists>i < length items. leader items i = r \<and> item = items ! i)"
  by (auto simp: class_of_def)

lemma merge_groups_all:
  "(\<And>g. g \<in> set gs \<Longrightarrow> \<exists>m. merge_group order g = Inr m \<and> P g m) \<Longrightarrow>
    \<exists>ms. merge_groups order gs = Inr ms \<and> list_all2 P gs ms"
proof (induction gs)
  case (Cons g gs)
  obtain m where "merge_group order g = Inr m" "P g m" using Cons.prems [of g] by auto
  moreover obtain ms where "merge_groups order gs = Inr ms" "list_all2 P gs ms" using Cons.IH Cons.prems by auto
  ultimately show ?case by auto
qed simp

text \<open>The keys of a group; the groups cover the records and share none of their keys.\<close>

definition group_keys :: "vulnerability list \<Rightarrow> (package \<times> string) set" where
  "group_keys g = \<Union> (record_keys ` set g)"

lemma class_groups_cover: "(\<Union>g \<in> set (class_groups items). set g) = set items"
proof (intro equalityI subsetI)
  fix item assume "item \<in> (\<Union>g \<in> set (class_groups items). set g)"
  then show "item \<in> set items" by (auto simp: class_groups_def class_of_mem)
next
  fix item assume "item \<in> set items"
  then obtain i where i: "i < length items" "item = items ! i" by (auto simp: in_set_conv_nth)
  then have "item \<in> set (class_of items (leader items i))" by (auto simp: class_of_mem)
  moreover have "leader items i < length items" using leader_le [of items i] i(1) by simp
  ultimately show "item \<in> (\<Union>g \<in> set (class_groups items). set g)" by (auto simp: class_groups_def)
qed

lemma class_apart:
  assumes "k \<in> group_keys (class_of items r)" "k \<in> group_keys (class_of items r')"
  shows "r = r'"
proof -
  obtain i j where "i < length items" "leader items i = r" "k \<in> record_keys (items ! i)"
      "j < length items" "leader items j = r'" "k \<in> record_keys (items ! j)"
    using assms unfolding class_of_def group_keys_def by auto
  then show ?thesis using tied_keys [of i items j k] leader_iff [of items i j] by simp
qed

lemma class_groups_disjoint: "pairwise disjnt (group_keys ` set (class_groups items))"
proof (rule pairwiseI)
  fix A B assume "A \<in> group_keys ` set (class_groups items)" "B \<in> group_keys ` set (class_groups items)" "A \<noteq> B"
  then obtain r r' where "A = group_keys (class_of items r)" "B = group_keys (class_of items r')" "r \<noteq> r'"
    by (auto simp: class_groups_def)
  then show "disjnt A B" unfolding disjnt_iff using class_apart by blast
qed

lemma class_groups_distinct:
  assumes "\<And>item. item \<in> set items \<Longrightarrow> nonblank (vu_vulnerability_id item)"
  shows "distinct (map group_keys (class_groups items))"
proof -
  have some: "\<exists>k. k \<in> group_keys (class_of items r)" if r: "r < length items" "leader items r = r" for r
  proof -
    have "record_keys (items ! r) \<noteq> {}" using assms [of "items ! r"] r by (auto simp: record_keys_def)
    then show ?thesis using r by (force simp: group_keys_def class_of_mem)
  qed
  have "inj_on (\<lambda>r. group_keys (class_of items r)) {r. r < length items \<and> leader items r = r}"
    using class_apart some by (intro inj_onI) (metis (mono_tags, lifting) mem_Collect_eq)
  then show ?thesis by (simp add: class_groups_def distinct_map comp_def inj_on_def)
qed

lemma class_groups_merge:
  assumes order: "\<And>xs. set (order xs) = set xs"
    and ids: "\<And>item. item \<in> set items \<Longrightarrow> nonblank (vu_vulnerability_id item)"
    and g: "g \<in> set (class_groups items)"
  shows "\<exists>m. merge_group order g = Inr m \<and> record_keys m = group_keys g \<and> (\<forall>item \<in> set g. keeps m item)"
proof -
  obtain r where r: "r < length items" "leader items r = r" "g = class_of items r" using g by (auto simp: class_groups_def)
  then have "items ! r \<in> set g" by (auto simp: class_of_mem)
  then have ne: "g \<noteq> []" by auto
  have package: "package_key item = package_key (items ! r)" if it: "item \<in> set g" for item
  proof -
    obtain i where "leader items i = r" "item = items ! i" using it r by (auto simp: class_of_mem)
    then show ?thesis using tied_package [OF tied_leader [of items i]] by simp
  qed
  have "nonblank (vu_vulnerability_id item)" if "item \<in> set g" for item
    using that r ids by (auto simp: class_of_mem)
  from merge_group_keeps [OF order ne this package] show ?thesis by (simp add: group_keys_def)
qed

text \<open>C40: Merging at most the permitted number of records, each with an identifier, returns: the records of
  the report have no key in common and none twice, their keys are those of the input, every input
  record is kept by one of them, that has all its identifiers under its package, is at least as severe and
  as highly scored, known to be exploited if it was, and no later; and the report is in its order.\<close>

theorem merge_report:
  assumes order: "\<And>xs. set (order xs) = set xs" and size: "length items \<le> 100000"
    and ids: "\<And>item. item \<in> set items \<Longrightarrow> nonblank (vu_vulnerability_id item)"
  shows "\<exists>merged. merge_vulnerabilities order items = Some (Inr merged)
    \<and> distinct (map record_keys merged) \<and> pairwise disjnt (record_keys ` set merged)
    \<and> \<Union> (record_keys ` set merged) = \<Union> (record_keys ` set items)
    \<and> (\<forall>item \<in> set items. \<exists>m \<in> set merged. keeps m item)
    \<and> sorted (map report_order merged)"
proof -
  let ?gs = "class_groups items" and ?P = "\<lambda>g m. record_keys m = group_keys g \<and> (\<forall>item \<in> set g. keeps m item)"
  obtain ms where ms: "merge_groups order ?gs = Inr ms" "list_all2 ?P ?gs ms"
    using merge_groups_all [of ?gs order ?P] class_groups_merge [OF order ids] by blast
  have keys: "map record_keys ms = map group_keys ?gs" using ms(2) by (induction rule: list_all2_induct) auto
  then have sets: "record_keys ` set ms = group_keys ` set ?gs" by (metis set_map)
  have "\<Union> (group_keys ` set ?gs) = \<Union> (record_keys ` (\<Union>g \<in> set ?gs. set g))" unfolding group_keys_def by blast
  then have union: "\<Union> (record_keys ` set ms) = \<Union> (record_keys ` set items)" unfolding sets class_groups_cover .
  have kept: "\<exists>m \<in> set ms. keeps m item" if it: "item \<in> set items" for item
  proof -
    obtain g where "g \<in> set ?gs" "item \<in> set g" using it class_groups_cover [of items] by blast
    then obtain j where "j < length ?gs" "item \<in> set (?gs ! j)" by (auto simp: in_set_conv_nth)
    moreover from this have "keeps (ms ! j) item" using list_all2_nthD [OF ms(2), of j] by simp
    ultimately show ?thesis using list_all2_lengthD [OF ms(2)] by (auto intro: bexI [of _ "ms ! j"])
  qed
  have "merge_vulnerabilities order items = Some (Inr (sort_key report_order ms))"
    using size ms(1) groups_exact [OF order, of items] by (auto simp: merge_vulnerabilities_def class_groups_def)
  moreover have "distinct (map record_keys ms)" unfolding keys by (rule class_groups_distinct [OF ids])
  ultimately show ?thesis
    using union kept class_groups_disjoint [of items] sets by (simp add: distinct_map_sort_key)
qed

theorem merge_report_witness:
  "\<exists>merged. merge_vulnerabilities remdups demo_reports = Some (Inr merged) \<and> distinct (map record_keys merged)
    \<and> sorted (map report_order merged) \<and> map vu_vulnerability_id merged = [''CVE-1'', ''cve-1'']"
proof -
  have "nonblank (vu_vulnerability_id item)" if "item \<in> set demo_reports" for item
    using that by (auto simp: demo_reports_def demo_vulnerability_def nonblank_def py_strip_def is_space_def code_point_def)
  then obtain merged where "merge_vulnerabilities remdups demo_reports = Some (Inr merged)" "distinct (map record_keys merged)"
      "sorted (map report_order merged)"
    using merge_report [of remdups demo_reports] by (auto simp: demo_reports_def)
  then show ?thesis using demo_merge by auto
qed

end
