(* ===== verification/Inventory_Storage.thy ===== *)
theory Inventory_Storage
  imports Upload_Queue Snapshots "HOL-Library.Product_Lexorder"
begin

text \<open>
  The local tables of scans, inventory snapshots and results: \<^verbatim>\<open>app/storage/results.py\<close> with the rows that
  \<^verbatim>\<open>app/storage/base.py\<close> inserts for them. A transaction that raises leaves the tables as they were. The
  columns of canonical JSON are kept as the value their text parses to, the differences of a snapshot
  as the record they are written from.
\<close>

section \<open>Tables\<close>

record endpoint_row =
  er_endpoint_id :: string
  er_state :: jobj
  er_state_hash :: string
  er_enrolled_at :: "string option"
  er_last_seen_at :: "string option"
  er_created_at :: string
  er_updated_at :: string

record job_row =
  jr_scan_id :: string
  jr_endpoint_id :: "string option"
  jr_scan_type :: string
  jr_policy_id :: "string option"
  jr_status :: string
  jr_authorization :: json
  jr_initiator :: "string option"
  jr_target :: "string option"
  jr_requested_at :: string
  jr_started_at :: "string option"
  jr_completed_at :: "string option"
  jr_result_status :: "string option"
  jr_error :: "string option"
  jr_job :: json
  jr_job_hash :: string
  jr_updated_at :: string

record payload_row =
  py_hash :: string
  py_json :: jobj
  py_size_bytes :: nat
  py_created_at :: string

record inventory_row =
  ir_snapshot_id :: nat
  ir_endpoint_id :: string
  ir_scan_id :: string
  ir_payload_hash :: string
  ir_previous :: "nat option"
  ir_schema_version :: string
  ir_policy_version :: "string option"
  ir_scanner_version :: "string option"
  ir_initial :: bool
  ir_changed :: bool
  ir_changes :: "section_change list"
  ir_created_at :: string

record result_row =
  rs_result_id :: nat
  rs_scan_id :: string
  rs_endpoint_id :: "string option"
  rs_result_type :: string
  rs_target :: "string option"
  rs_schema_version :: string
  rs_scanner_version :: "string option"
  rs_policy_version :: "string option"
  rs_status :: string
  rs_payload_hash :: string
  rs_created_at :: string
  rs_updated_at :: string

record history_row =
  hs_history_id :: nat
  hs_scan_id :: string
  hs_event :: string
  hs_status :: "string option"
  hs_details :: string
  hs_idempotency_key :: "string option"
  hs_created_at :: string

record finding_row =
  fr_finding_id :: string
  fr_scan_id :: string
  fr_endpoint_id :: "string option"
  fr_rule_id :: string
  fr_severity :: string
  fr_status :: string
  fr_detected_at :: string
  fr_payload :: jobj
  fr_payload_hash :: string
  fr_updated_at :: string

record collector_row =
  cl_scan_id :: string
  cl_collector :: string
  cl_status :: string
  cl_tool_version :: "string option"
  cl_started_at :: "string option"
  cl_completed_at :: "string option"
  cl_duration :: "pyfloat option"
  cl_details :: string

record local_db =
  ld_endpoints :: "endpoint_row list"
  ld_jobs :: "job_row list"
  ld_payloads :: "payload_row list"
  ld_snapshots :: "inventory_row list"
  ld_snapshot_seq :: nat
  ld_result_payloads :: "payload_row list"
  ld_results :: "result_row list"
  ld_result_seq :: nat
  ld_history :: "history_row list"
  ld_history_seq :: nat
  ld_findings :: "finding_row list"
  ld_collectors :: "collector_row list"

definition empty_db :: local_db where
  "empty_db = \<lparr> ld_endpoints = [], ld_jobs = [], ld_payloads = [], ld_snapshots = [], ld_snapshot_seq = 0,
     ld_result_payloads = [], ld_results = [], ld_result_seq = 0,
     ld_history = [], ld_history_seq = 0, ld_findings = [], ld_collectors = [] \<rparr>"

section \<open>Rows that are made sure to exist\<close>

definition ensure_endpoint :: "runtime \<Rightarrow> string \<Rightarrow> string \<Rightarrow> local_db \<Rightarrow> local_db" where
  "ensure_endpoint rt endpoint_id now db =
    (if endpoint_id \<in> er_endpoint_id ` set (ld_endpoints db) then db
     else db\<lparr>ld_endpoints := ld_endpoints db @ [\<lparr> er_endpoint_id = endpoint_id, er_state = [],
       er_state_hash = rt_sha256 rt (dumps rt (JObj [])), er_enrolled_at = None, er_last_seen_at = None,
       er_created_at = now, er_updated_at = now \<rparr>]\<rparr>)"

definition placeholder_job :: "runtime \<Rightarrow> string \<Rightarrow> string option \<Rightarrow> string \<Rightarrow> job_row" where
  "placeholder_job rt scan_id endpoint_id now =
    (let placeholder = JObj [(''scan_id'', JStr scan_id), (''endpoint_id'', opt_json endpoint_id), (''scan_type'', JStr ''UNKNOWN'')]
     in \<lparr> jr_scan_id = scan_id, jr_endpoint_id = endpoint_id, jr_scan_type = ''UNKNOWN'', jr_policy_id = None, jr_status = ''PENDING'',
          jr_authorization = JObj [], jr_initiator = None, jr_target = None, jr_requested_at = now, jr_started_at = None, jr_completed_at = None,
          jr_result_status = None, jr_error = None, jr_job = canon placeholder,
          jr_job_hash = rt_sha256 rt (dumps rt placeholder), jr_updated_at = now \<rparr>)"

definition ensure_scan :: "runtime \<Rightarrow> string \<Rightarrow> string option \<Rightarrow> string \<Rightarrow> local_db \<Rightarrow> local_db" where
  "ensure_scan rt scan_id endpoint_id now db =
    (let db = (case endpoint_id of None \<Rightarrow> db | Some e \<Rightarrow> if e = [] then db else ensure_endpoint rt e now db) in
     if scan_id \<in> jr_scan_id ` set (ld_jobs db)
     then db\<lparr>ld_jobs := map (\<lambda>j. if jr_scan_id j = scan_id \<and> jr_endpoint_id j = None
       then j\<lparr>jr_endpoint_id := endpoint_id\<rparr> else j) (ld_jobs db)\<rparr>
     else db\<lparr>ld_jobs := ld_jobs db @ [placeholder_job rt scan_id endpoint_id now]\<rparr>)"

section \<open>Snapshots\<close>

record snapshot_change =
  ch_snapshot_id :: nat
  ch_endpoint_id :: string
  ch_scan_id :: string
  ch_snapshot_hash :: string
  ch_previous_hash :: "string option"
  ch_initial :: bool
  ch_changed :: bool
  ch_changes :: "section_change list"

definition inventory_by_id :: "nat \<Rightarrow> local_db \<Rightarrow> inventory_row option" where
  "inventory_by_id i db = find (\<lambda>r. ir_snapshot_id r = i) (ld_snapshots db)"

definition payload_by_hash :: "string \<Rightarrow> local_db \<Rightarrow> jobj option" where
  "payload_by_hash h db = map_option py_json (find (\<lambda>p. py_hash p = h) (ld_payloads db))"

text \<open>The left join with the previous snapshot.\<close>

definition previous_hash_of :: "inventory_row \<Rightarrow> local_db \<Rightarrow> string option" where
  "previous_hash_of row db =
    (case ir_previous row of None \<Rightarrow> None | Some p \<Rightarrow> map_option ir_payload_hash (inventory_by_id p db))"

definition deserialize_change :: "inventory_row \<Rightarrow> string \<Rightarrow> string \<Rightarrow> local_db \<Rightarrow> snapshot_change" where
  "deserialize_change row endpoint_id scan_id db =
    \<lparr> ch_snapshot_id = ir_snapshot_id row, ch_endpoint_id = endpoint_id, ch_scan_id = scan_id,
      ch_snapshot_hash = ir_payload_hash row, ch_previous_hash = previous_hash_of row db,
      ch_initial = ir_initial row, ch_changed = ir_changed row, ch_changes = ir_changes row \<rparr>"

text \<open>\<open>ORDER BY snapshot_id DESC LIMIT 1\<close>: the identifiers grow along the table.\<close>

definition latest_inventory :: "string \<Rightarrow> local_db \<Rightarrow> inventory_row option" where
  "latest_inventory endpoint_id db = find (\<lambda>r. ir_endpoint_id r = endpoint_id) (rev (ld_snapshots db))"

definition add_payload :: "runtime \<Rightarrow> string \<Rightarrow> jobj \<Rightarrow> string \<Rightarrow> payload_row list \<Rightarrow> payload_row list" where
  "add_payload rt digest d now payloads =
    (if digest \<in> py_hash ` set payloads then payloads
     else payloads @ [\<lparr> py_hash = digest, py_json = canon_obj d, py_size_bytes = utf8_length (dumps rt (JObj d)),
       py_created_at = now \<rparr>])"

definition insert_snapshot ::
    "runtime \<Rightarrow> string \<Rightarrow> string \<Rightarrow> jobj \<Rightarrow> string \<Rightarrow> string option \<Rightarrow> string option \<Rightarrow> string \<Rightarrow> local_db \<Rightarrow>
     snapshot_change \<times> local_db" where
  "insert_snapshot rt endpoint_id scan_id normalized schema policy scanner now db =
    (let digest = digest_text rt (JObj normalized);
         previous = latest_inventory endpoint_id db;
         base = (case previous of None \<Rightarrow> None | Some p \<Rightarrow> payload_by_hash (ir_payload_hash p) db);
         changes = compare_snapshots rt base normalized;
         initial = previous = None;
         changed = (initial \<or> changes \<noteq> []);
         i = Suc (ld_snapshot_seq db);
         row = \<lparr> ir_snapshot_id = i, ir_endpoint_id = endpoint_id, ir_scan_id = scan_id, ir_payload_hash = digest,
           ir_previous = map_option ir_snapshot_id previous, ir_schema_version = schema, ir_policy_version = policy,
           ir_scanner_version = scanner, ir_initial = initial, ir_changed = changed, ir_changes = changes,
           ir_created_at = now \<rparr>
     in (\<lparr> ch_snapshot_id = i, ch_endpoint_id = endpoint_id, ch_scan_id = scan_id, ch_snapshot_hash = digest,
           ch_previous_hash = map_option ir_payload_hash previous, ch_initial = initial, ch_changed = changed,
           ch_changes = changes \<rparr>,
         db\<lparr>ld_payloads := add_payload rt digest normalized now (ld_payloads db),
            ld_snapshots := ld_snapshots db @ [row], ld_snapshot_seq := i\<rparr>))"

definition store_snapshot ::
    "runtime \<Rightarrow> string \<Rightarrow> string \<Rightarrow> jobj \<Rightarrow> string \<Rightarrow> string option \<Rightarrow> string option \<Rightarrow> string \<Rightarrow> local_db \<Rightarrow>
     storage_error + (snapshot_change \<times> local_db)" where
  "store_snapshot rt endpoint_id scan_id snapshot schema policy scanner now db =
    ebind (lift_py (clean_identifier ''endpoint_id'' 256 (JStr endpoint_id))) (\<lambda>endpoint_id.
    ebind (lift_py (clean_identifier ''scan_id'' 256 (JStr scan_id))) (\<lambda>scan_id.
    ebind (lift_py (clean_identifier ''schema_version'' 64 (JStr schema))) (\<lambda>schema.
    ebind (lift_py (normalize_snapshot rt snapshot)) (\<lambda>normalized.
      let db = ensure_scan rt scan_id (Some endpoint_id) now (ensure_endpoint rt endpoint_id now db) in
      case find (\<lambda>r. ir_scan_id r = scan_id) (ld_snapshots db) of
        Some existing \<Rightarrow>
          if ir_endpoint_id existing \<noteq> endpoint_id \<or> ir_payload_hash existing \<noteq> digest_text rt (JObj normalized)
          then Inl (IdempotencyConflictError ''scan_id was reused for a different inventory snapshot'')
          else Inr (deserialize_change existing endpoint_id scan_id db, db)
      | None \<Rightarrow> Inr (insert_snapshot rt endpoint_id scan_id normalized schema policy scanner now db)))))"

text \<open>\<open>SectionChange.as_dict\<close>, and the envelope of a stored snapshot.\<close>

definition change_dict :: "section_change \<Rightarrow> json" where
  "change_dict c = JObj [(''section'', JStr (sc_section c)), (''event'', JStr (sc_event c)),
     (''before_hash'', opt_json (sc_before_hash c)), (''after_hash'', opt_json (sc_after_hash c)),
     (''added_count'', JInt (int (sc_added_count c))), (''removed_count'', JInt (int (sc_removed_count c))),
     (''modified_count'', JInt (int (sc_modified_count c)))]"

definition sync_envelope :: "inventory_row \<Rightarrow> local_db \<Rightarrow> jobj" where
  "sync_envelope row db =
    [(''endpoint_id'', JStr (ir_endpoint_id row)), (''scan_id'', JStr (ir_scan_id row)),
     (''schema_version'', JStr (ir_schema_version row)), (''policy_version'', opt_json (ir_policy_version row)),
     (''scanner_version'', opt_json (ir_scanner_version row)), (''snapshot_hash'', JStr (ir_payload_hash row)),
     (''previous_hash'', opt_json (previous_hash_of row db))]"

definition delta_sections :: "section_change list \<Rightarrow> jobj \<Rightarrow> jobj" where
  "delta_sections changes snapshot =
     [(sec, v). sec \<leftarrow> map sc_section changes, v \<leftarrow> (case dict_get snapshot sec of None \<Rightarrow> [] | Some v \<Rightarrow> [v])]"

definition removed_sections :: "section_change list \<Rightarrow> jobj \<Rightarrow> string list" where
  "removed_sections changes snapshot = filter (\<lambda>sec. \<not> dict_has sec snapshot) (map sc_section changes)"

definition snapshot_upload_payload :: "nat \<Rightarrow> local_db \<Rightarrow> storage_error + jobj" where
  "snapshot_upload_payload snapshot_id db =
    (let unknown = StorageError (''unknown snapshot_id: '' @ show_nat snapshot_id) in
     case inventory_by_id snapshot_id db of
       None \<Rightarrow> Inl unknown
     | Some row \<Rightarrow>
       (case payload_by_hash (ir_payload_hash row) db of
          None \<Rightarrow> Inl unknown
        | Some snapshot \<Rightarrow>
          Inr (sync_envelope row db @
            (if ir_initial row then [(''mode'', JStr ''full''), (''snapshot'', JObj snapshot)]
             else if \<not> ir_changed row then [(''mode'', JStr ''unchanged'')]
             else [(''mode'', JStr ''delta''), (''changes'', JArr (map change_dict (ir_changes row))),
               (''sections'', JObj (delta_sections (ir_changes row) snapshot)),
               (''removed_sections'', JArr (map JStr (removed_sections (ir_changes row) snapshot)))]))))"

definition get_latest_snapshot :: "string \<Rightarrow> local_db \<Rightarrow> storage_error + (inventory_row \<times> jobj) option" where
  "get_latest_snapshot endpoint_id db =
    ebind (lift_py (clean_identifier ''endpoint_id'' 256 (JStr endpoint_id))) (\<lambda>endpoint_id.
      Inr (case latest_inventory endpoint_id db of
         None \<Rightarrow> None
       | Some row \<Rightarrow> map_option (Pair row) (payload_by_hash (ir_payload_hash row) db)))"

definition get_snapshot_change_for_scan :: "string \<Rightarrow> local_db \<Rightarrow> storage_error + snapshot_change option" where
  "get_snapshot_change_for_scan scan_id db =
    ebind (lift_py (clean_identifier ''scan_id'' 256 (JStr scan_id))) (\<lambda>scan_id.
      Inr (map_option (\<lambda>row. deserialize_change row (ir_endpoint_id row) scan_id db)
        (find (\<lambda>r. ir_scan_id r = scan_id) (ld_snapshots db))))"

section \<open>Results\<close>

text \<open>
  \<open>str(result.get(k, default))\<close>, and what a text column keeps of a bound value: \<open>bind\<close> is the driver, which
  refuses a list or an object with \<open>None\<close>.
\<close>

definition result_text :: "runtime \<Rightarrow> jobj \<Rightarrow> string \<Rightarrow> string \<Rightarrow> string" where
  "result_text rt result k dflt = (case dict_get result k of None \<Rightarrow> dflt | Some v \<Rightarrow> py_str rt v)"

definition bound_text :: "(json \<Rightarrow> string option option) \<Rightarrow> json \<Rightarrow> storage_error + string option" where
  "bound_text bind v = (case bind v of None \<Rightarrow> Inl (StorageError ''unsupported type of a bound value'') | Some t \<Rightarrow> Inr t)"

definition clean_optional :: "string \<Rightarrow> string option \<Rightarrow> storage_error + string option" where
  "clean_optional field v = (case v of None \<Rightarrow> Inr None | Some s \<Rightarrow>
     if s = [] then Inr None else ebind (lift_py (clean_identifier field 256 (JStr s))) (\<lambda>s. Inr (Some s)))"

definition insert_result :: "runtime \<Rightarrow> result_row \<Rightarrow> jobj \<Rightarrow> string \<Rightarrow> local_db \<Rightarrow> nat \<times> local_db" where
  "insert_result rt row result now db =
    (let i = Suc (ld_result_seq db)
     in (i, db\<lparr>ld_result_payloads := add_payload rt (rs_payload_hash row) result now (ld_result_payloads db),
             ld_results := ld_results db @ [row\<lparr>rs_result_id := i\<rparr>], ld_result_seq := i\<rparr>))"

text \<open>The transaction, once the arguments are checked and serialized.\<close>

definition store_result_body ::
    "runtime \<Rightarrow> (json \<Rightarrow> string option option) \<Rightarrow> result_row \<Rightarrow> jobj \<Rightarrow> string option \<Rightarrow> local_db \<Rightarrow>
     storage_error + (nat \<times> local_db)" where
  "store_result_body rt bind row result target db =
    (case find (\<lambda>r. rs_scan_id r = rs_scan_id row) (ld_results db) of
       Some existing \<Rightarrow>
         if (rs_payload_hash existing, rs_endpoint_id existing, rs_result_type existing)
           \<noteq> (rs_payload_hash row, rs_endpoint_id row, rs_result_type row)
         then Inl (IdempotencyConflictError ''scan_id was reused for a different normalized result'')
         else Inr (rs_result_id existing, db)
     | None \<Rightarrow>
       ebind (bound_text bind (if target \<noteq> None \<and> target \<noteq> Some [] then opt_json target else jget ''target'' result)) (\<lambda>target.
       ebind (bound_text bind (jget ''scanner_version'' result)) (\<lambda>scanner.
       ebind (bound_text bind (jget ''policy_version'' result)) (\<lambda>policy.
         Inr (insert_result rt (row\<lparr>rs_target := target, rs_scanner_version := scanner, rs_policy_version := policy\<rparr>)
           result (rs_created_at row) db)))))"

definition store_normalized_result ::
    "runtime \<Rightarrow> (json \<Rightarrow> string option option) \<Rightarrow> string \<Rightarrow> jobj \<Rightarrow> string option \<Rightarrow> string option \<Rightarrow> string option \<Rightarrow>
     string \<Rightarrow> local_db \<Rightarrow> storage_error + (nat \<times> local_db)" where
  "store_normalized_result rt bind scan_id result endpoint_id result_type target now db =
    ebind (lift_py (clean_identifier ''scan_id'' 256 (JStr scan_id))) (\<lambda>scan_id.
    ebind (clean_optional ''endpoint_id'' endpoint_id) (\<lambda>endpoint_id.
    ebind (lift_py (clean_identifier ''result_type'' 64 (JStr (case result_type of
        Some t \<Rightarrow> if t = [] then result_text rt result ''scan_type'' ''ENDPOINT'' else t
      | None \<Rightarrow> result_text rt result ''scan_type'' ''ENDPOINT'')))) (\<lambda>normalized_type.
    ebind (lift_py (clean_identifier ''schema_version'' 64 (JStr (result_text rt result ''schema_version'' ''1.0'')))) (\<lambda>schema.
    ebind (lift_py (clean_identifier ''status'' 64 (JStr (result_text rt result ''status'' ''SUCCESS'')))) (\<lambda>status.
    ebind (lift_py (canonical_json rt (JObj result))) (\<lambda>serialized.
      store_result_body rt bind
        \<lparr> rs_result_id = 0, rs_scan_id = scan_id, rs_endpoint_id = endpoint_id, rs_result_type = normalized_type,
          rs_target = None, rs_schema_version = schema, rs_scanner_version = None, rs_policy_version = None,
          rs_status = status, rs_payload_hash = rt_sha256 rt serialized, rs_created_at = now, rs_updated_at = now \<rparr>
        result target (ensure_scan rt scan_id endpoint_id now db)))))))"

definition get_normalized_result :: "string \<Rightarrow> local_db \<Rightarrow> storage_error + (result_row \<times> jobj) option" where
  "get_normalized_result scan_id db =
    ebind (lift_py (clean_identifier ''scan_id'' 256 (JStr scan_id))) (\<lambda>scan_id.
      Inr (case find (\<lambda>r. rs_scan_id r = scan_id) (ld_results db) of
         None \<Rightarrow> None
       | Some row \<Rightarrow> map_option (\<lambda>p. (row, py_json p)) (find (\<lambda>p. py_hash p = rs_payload_hash row) (ld_result_payloads db))))"

section \<open>Retention\<close>

text \<open>A terminal job, by the time it ended; the newest snapshot of each endpoint; unfinished uploads.\<close>

definition terminal_job :: "job_row \<Rightarrow> bool" where
  "terminal_job j \<longleftrightarrow> jr_status j = ''COMPLETED'' \<or> jr_status j = ''FAILED''"

definition ended_at :: "job_row \<Rightarrow> string" where
  "ended_at j = (case jr_completed_at j of None \<Rightarrow> jr_updated_at j | Some t \<Rightarrow> t)"

definition prune_candidates :: "string \<Rightarrow> nat \<Rightarrow> nat \<Rightarrow> local_db \<Rightarrow> string list" where
  "prune_candidates older_than max_completed candidate_limit db =
    (let ended = sort_key (\<lambda>j. (ended_at j, jr_scan_id j)) (filter terminal_job (ld_jobs db));
         aged = take candidate_limit (filter (\<lambda>j. ended_at j < older_than) ended);
         overflow = take candidate_limit (drop max_completed (rev ended))
     in rev (remdups (rev (map jr_scan_id (aged @ overflow)))))"

definition latest_scans :: "local_db \<Rightarrow> string list" where
  "latest_scans db = map ir_scan_id (filter (\<lambda>r. latest_inventory (ir_endpoint_id r) db = Some r) (ld_snapshots db))"

definition unfinished_upload :: "upload_row list \<Rightarrow> upload_row \<Rightarrow> bool" where
  "unfinished_upload rows r \<longleftrightarrow> up_status r = UPLOAD_PENDING \<or> up_status r = UPLOAD_IN_FLIGHT
     \<or> (up_status r = UPLOAD_DEAD \<and> status_of (up_superseded_by r) rows \<noteq> Some UPLOAD_SUCCEEDED)"

definition blocked_scans :: "upload_row list \<Rightarrow> string list" where
  "blocked_scans rows = concat (map (\<lambda>r. case jget ''scan_id'' (metadata_obj r) of JStr s \<Rightarrow> if s = [] then [] else [s] | _ \<Rightarrow> [])
     (filter (unfinished_upload rows) rows))"

text \<open>
  One chunk: the children of its snapshots become full ones, then its jobs go with all that refers to them.
\<close>

definition make_full :: "nat list \<Rightarrow> inventory_row \<Rightarrow> inventory_row" where
  "make_full gone r = (case ir_previous r of None \<Rightarrow> r | Some p \<Rightarrow>
     if p \<in> set gone then r\<lparr>ir_previous := None, ir_initial := True, ir_changed := True, ir_changes := []\<rparr> else r)"

definition prune_chunk :: "string list \<Rightarrow> local_db \<Rightarrow> local_db" where
  "prune_chunk scans db =
    (let gone = map ir_snapshot_id (filter (\<lambda>r. ir_scan_id r \<in> set scans) (ld_snapshots db)) in
     db\<lparr>ld_snapshots := filter (\<lambda>r. ir_scan_id r \<notin> set scans) (map (make_full gone) (ld_snapshots db)),
        ld_results := filter (\<lambda>r. rs_scan_id r \<notin> set scans) (ld_results db),
        ld_history := filter (\<lambda>h. hs_scan_id h \<notin> set scans) (ld_history db),
        ld_findings := filter (\<lambda>f. fr_scan_id f \<notin> set scans) (ld_findings db),
        ld_collectors := filter (\<lambda>c. cl_scan_id c \<notin> set scans) (ld_collectors db),
        ld_jobs := filter (\<lambda>j. jr_scan_id j \<notin> set scans) (ld_jobs db)\<rparr>)"

function prune_chunks :: "string list \<Rightarrow> local_db \<Rightarrow> local_db" where
  "prune_chunks scans db = (if scans = [] then db else prune_chunks (drop 500 scans) (prune_chunk (take 500 scans) db))"
  by pat_completeness auto
termination by (relation "measure (length \<circ> fst)") auto

declare prune_chunks.simps [simp del]

definition drop_payloads :: "local_db \<Rightarrow> local_db" where
  "drop_payloads db =
    db\<lparr>ld_payloads := filter (\<lambda>p. py_hash p \<in> ir_payload_hash ` set (ld_snapshots db)) (ld_payloads db),
       ld_result_payloads := filter (\<lambda>p. py_hash p \<in> rs_payload_hash ` set (ld_results db)) (ld_result_payloads db)\<rparr>"

fun clean_all :: "string \<Rightarrow> string list \<Rightarrow> storage_error + string list" where
  "clean_all field [] = Inr []"
| "clean_all field (s # ss) =
    ebind (lift_py (clean_identifier field 256 (JStr s))) (\<lambda>s. ebind (clean_all field ss) (\<lambda>ss. Inr (s # ss)))"

definition prune_completed_scan_records ::
    "string \<Rightarrow> int \<Rightarrow> string list \<Rightarrow> int \<Rightarrow> upload_row list \<Rightarrow> local_db \<Rightarrow> storage_error + (nat \<times> local_db)" where
  "prune_completed_scan_records older_than max_completed protected_ids limit rows db =
    (if \<not> (1 \<le> max_completed \<and> max_completed \<le> 1000000)
     then Inl (PyErr (ValueError ''max_completed_scans must be between 1 and 1,000,000''))
     else if \<not> (1 \<le> limit \<and> limit \<le> 100000) then Inl (PyErr (ValueError ''limit must be between 1 and 100,000''))
     else ebind (clean_all ''protected_scan_id'' protected_ids) (\<lambda>protected_ids.
       let candidates = prune_candidates older_than (nat max_completed) (nat (min 100000 (max (limit * 4) limit))) db;
           selected = take (nat limit) (filter (\<lambda>s. s \<notin> set protected_ids \<and> s \<notin> set (latest_scans db)
             \<and> s \<notin> set (blocked_scans rows)) candidates)
       in if selected = [] then Inr (0, db)
          else Inr (length selected, drop_payloads (prune_chunks selected db))))"

end
