(* ===== verification/Job_Storage.thy ===== *)
theory Job_Storage
  imports Inventory_Storage
begin

text \<open>
  The operations on endpoints, jobs, history, findings and collector states:
  \<^verbatim>\<open>app/storage/jobs.py\<close>. As in the other storage theories each operation is its transaction; \<open>now\<close> is what
  \<open>utc_now_iso\<close> returns in it and \<open>bind\<close> the driver's conversion of a bound value to text.
\<close>

section \<open>Endpoints\<close>

definition or_else :: "'a option \<Rightarrow> 'a option \<Rightarrow> 'a option" where
  "or_else v w = (case v of None \<Rightarrow> w | Some _ \<Rightarrow> v)"

text \<open>\<open>now or utc_now_iso()\<close>.\<close>

definition given_or :: "string option \<Rightarrow> string \<Rightarrow> string" where
  "given_or v now = (case v of None \<Rightarrow> now | Some t \<Rightarrow> if t = [] then now else t)"

definition put_endpoint :: "endpoint_row \<Rightarrow> local_db \<Rightarrow> local_db" where
  "put_endpoint row db =
    (if er_endpoint_id row \<in> er_endpoint_id ` set (ld_endpoints db)
     then db\<lparr>ld_endpoints := map (\<lambda>e. if er_endpoint_id e = er_endpoint_id row
         then row\<lparr>er_enrolled_at := or_else (er_enrolled_at row) (er_enrolled_at e),
           er_last_seen_at := or_else (er_last_seen_at row) (er_last_seen_at e), er_created_at := er_created_at e\<rparr>
         else e) (ld_endpoints db)\<rparr>
     else db\<lparr>ld_endpoints := ld_endpoints db @ [row]\<rparr>)"

definition upsert_endpoint ::
    "runtime \<Rightarrow> string \<Rightarrow> jobj \<Rightarrow> string option \<Rightarrow> string option \<Rightarrow> string option \<Rightarrow> string \<Rightarrow> local_db \<Rightarrow>
     storage_error + local_db" where
  "upsert_endpoint rt endpoint_id state enrolled_at last_seen_at given now db =
    ebind (lift_py (clean_identifier ''endpoint_id'' 256 (JStr endpoint_id))) (\<lambda>endpoint_id.
    ebind (lift_py (canonical_json rt (JObj state))) (\<lambda>serialized.
      let timestamp = given_or given now in
      Inr (put_endpoint \<lparr> er_endpoint_id = endpoint_id, er_state = canon_obj state, er_state_hash = rt_sha256 rt serialized,
        er_enrolled_at = enrolled_at, er_last_seen_at = last_seen_at, er_created_at = timestamp,
        er_updated_at = timestamp \<rparr> db)))"

definition get_endpoint :: "string \<Rightarrow> local_db \<Rightarrow> storage_error + endpoint_row option" where
  "get_endpoint endpoint_id db =
    ebind (lift_py (clean_identifier ''endpoint_id'' 256 (JStr endpoint_id))) (\<lambda>endpoint_id.
      Inr (find (\<lambda>e. er_endpoint_id e = endpoint_id) (ld_endpoints db)))"

definition list_endpoint_ids :: "bool \<Rightarrow> int \<Rightarrow> local_db \<Rightarrow> storage_error + string list" where
  "list_endpoint_ids enrolled_only limit db =
    (if \<not> (1 \<le> limit \<and> limit \<le> 10000)
     then Inl (PyErr (ValueError ''endpoint list limit must be between 1 and 10,000''))
     else Inr (map er_endpoint_id (take (nat limit)
       (sort_key (\<lambda>e. (er_created_at e, er_endpoint_id e))
         (filter (\<lambda>e. \<not> enrolled_only \<or> er_enrolled_at e \<noteq> None) (ld_endpoints db))))))"

section \<open>Jobs\<close>

definition job_by_id :: "string \<Rightarrow> local_db \<Rightarrow> job_row option" where
  "job_by_id scan_id db = find (\<lambda>j. jr_scan_id j = scan_id) (ld_jobs db)"

definition update_job :: "string \<Rightarrow> (job_row \<Rightarrow> job_row) \<Rightarrow> local_db \<Rightarrow> local_db" where
  "update_job scan_id f db = db\<lparr>ld_jobs := map (\<lambda>j. if jr_scan_id j = scan_id then f j else j) (ld_jobs db)\<rparr>"

text \<open>The columns the insertion and the replacement of a placeholder write.\<close>

definition write_job :: "job_row \<Rightarrow> job_row \<Rightarrow> job_row" where
  "write_job new j = j\<lparr>jr_endpoint_id := jr_endpoint_id new, jr_scan_type := jr_scan_type new,
     jr_policy_id := jr_policy_id new, jr_status := jr_status new, jr_authorization := jr_authorization new,
     jr_initiator := jr_initiator new, jr_target := jr_target new, jr_requested_at := jr_requested_at new,
     jr_job := jr_job new, jr_job_hash := jr_job_hash new, jr_updated_at := jr_updated_at new\<rparr>"

definition new_job_row ::
    "runtime \<Rightarrow> (json \<Rightarrow> string option option) \<Rightarrow> jobj \<Rightarrow> string \<Rightarrow> string option \<Rightarrow> string \<Rightarrow> string \<Rightarrow> string \<Rightarrow>
     storage_error + job_row" where
  "new_job_row rt bind job scan_id endpoint_id scan_type status timestamp =
    ebind (bound_text bind (jget ''policy_id'' job)) (\<lambda>policy.
    ebind (bound_text bind (jget ''initiator'' job)) (\<lambda>initiator.
    ebind (bound_text bind (jget ''target'' job)) (\<lambda>target.
      Inr \<lparr> jr_scan_id = scan_id, jr_endpoint_id = endpoint_id, jr_scan_type = scan_type, jr_policy_id = policy,
        jr_status = status,
        jr_authorization = canon (jget_default (jget_default (JObj []) ''authorization_metadata'' job) ''authorization'' job),
        jr_initiator = initiator, jr_target = target, jr_requested_at = timestamp, jr_started_at = None,
        jr_completed_at = None, jr_result_status = None, jr_error = None, jr_job = canon (JObj job),
        jr_job_hash = digest_text rt (JObj job), jr_updated_at = timestamp \<rparr>)))"

definition create_scan_job_body ::
    "runtime \<Rightarrow> (json \<Rightarrow> string option option) \<Rightarrow> jobj \<Rightarrow> string \<Rightarrow> string option \<Rightarrow> string \<Rightarrow> string \<Rightarrow> string \<Rightarrow>
     local_db \<Rightarrow> storage_error + (bool \<times> local_db)" where
  "create_scan_job_body rt bind job scan_id endpoint_id scan_type status timestamp db =
    (let db = (case endpoint_id of None \<Rightarrow> db | Some e \<Rightarrow> ensure_endpoint rt e timestamp db) in
     case job_by_id scan_id db of
       Some existing \<Rightarrow>
         if jr_scan_type existing \<noteq> ''UNKNOWN'' \<and> jr_job_hash existing \<noteq> digest_text rt (JObj job)
         then Inl (IdempotencyConflictError ''scan_id was reused with different job content'')
         else if jr_scan_type existing \<noteq> ''UNKNOWN'' then Inr (False, db)
         else ebind (new_job_row rt bind job scan_id endpoint_id scan_type status timestamp) (\<lambda>row.
           Inr (True, update_job scan_id (write_job row) db))
     | None \<Rightarrow>
         ebind (new_job_row rt bind job scan_id endpoint_id scan_type status timestamp) (\<lambda>row.
           Inr (True, db\<lparr>ld_jobs := ld_jobs db @ [row]\<rparr>)))"

definition create_scan_job ::
    "runtime \<Rightarrow> (json \<Rightarrow> string option option) \<Rightarrow> json \<Rightarrow> string \<Rightarrow> local_db \<Rightarrow> storage_error + (bool \<times> local_db)" where
  "create_scan_job rt bind job_value now db =
    (case job_value of
       JObj job \<Rightarrow>
         ebind (lift_py (clean_identifier ''scan_id'' 256 (jget ''scan_id'' job))) (\<lambda>scan_id.
         ebind (if truthy (jget ''endpoint_id'' job)
             then ebind (lift_py (clean_identifier ''endpoint_id'' 256 (jget ''endpoint_id'' job))) (\<lambda>e. Inr (Some e))
             else Inr None) (\<lambda>endpoint_id.
         ebind (lift_py (clean_identifier ''scan_type'' 64 (jget_default (JStr ''UNKNOWN'') ''scan_type'' job))) (\<lambda>scan_type.
         ebind (lift_py (clean_identifier ''status'' 64 (jget_default (JStr ''PENDING'') ''status'' job))) (\<lambda>status.
         let timestamp = (if truthy (jget ''requested_at'' job) then py_str rt (jget ''requested_at'' job) else now) in
         ebind (lift_py (canonical_json rt (JObj job))) (\<lambda>_.
           create_scan_job_body rt bind job scan_id endpoint_id scan_type status timestamp db)))))
     | _ \<Rightarrow> Inl (PyErr (TypeError ''job must be a mapping'')))"

definition update_scan_job ::
    "queue_env \<Rightarrow> string \<Rightarrow> string \<Rightarrow> string option \<Rightarrow> string option \<Rightarrow> string option \<Rightarrow> string option \<Rightarrow> string \<Rightarrow>
     local_db \<Rightarrow> storage_error + local_db" where
  "update_scan_job env scan_id status started_at completed_at result_status error now db =
    ebind (lift_py (clean_identifier ''scan_id'' 256 (JStr scan_id))) (\<lambda>scan_id.
    ebind (lift_py (clean_identifier ''status'' 64 (JStr status))) (\<lambda>status.
      let error = (case error of None \<Rightarrow> None | Some e \<Rightarrow> if e = [] then None else Some (clean_error env e 1024)) in
      if job_by_id scan_id db = None then Inl (StorageError (''unknown scan_id: '' @ scan_id))
      else Inr (update_job scan_id (\<lambda>j. j\<lparr>jr_status := status, jr_started_at := or_else started_at (jr_started_at j),
        jr_completed_at := or_else completed_at (jr_completed_at j),
        jr_result_status := or_else result_status (jr_result_status j), jr_error := error, jr_updated_at := now\<rparr>) db)))"

definition get_scan_job :: "string \<Rightarrow> local_db \<Rightarrow> storage_error + job_row option" where
  "get_scan_job scan_id db =
    ebind (lift_py (clean_identifier ''scan_id'' 256 (JStr scan_id))) (\<lambda>scan_id. Inr (job_by_id scan_id db))"

text \<open>Terminal jobs whose status has not been queued yet.\<close>

definition status_unqueued :: "local_db \<Rightarrow> job_row \<Rightarrow> bool" where
  "status_unqueued db j \<longleftrightarrow> terminal_job j \<and> jr_result_status j \<noteq> None
     \<and> \<not> list_ex (\<lambda>h. hs_scan_id h = jr_scan_id j \<and> hs_event h = ''TERMINAL_STATUS_QUEUED'') (ld_history db)"

definition terminal_scan_jobs ::
    "int \<Rightarrow> local_db \<Rightarrow> storage_error + (string \<times> string \<times> string option \<times> json) list" where
  "terminal_scan_jobs limit db =
    (if \<not> (1 \<le> limit \<and> limit \<le> 10000)
     then Inl (PyErr (ValueError ''terminal job limit must be between 1 and 10,000''))
     else Inr (map (\<lambda>j. (jr_scan_id j, jr_status j, jr_result_status j, jr_job j)) (take (nat limit)
       (sort_key (\<lambda>j. (jr_updated_at j, jr_scan_id j)) (filter (status_unqueued db) (ld_jobs db))))))"

section \<open>History\<close>

text \<open>An empty key is no key to the check, but the unique column holds only one of them.\<close>

definition insert_history :: "history_row \<Rightarrow> local_db \<Rightarrow> nat \<times> local_db" where
  "insert_history row db =
    (let i = Suc (ld_history_seq db)
     in (i, db\<lparr>ld_history := ld_history db @ [row\<lparr>hs_history_id := i\<rparr>], ld_history_seq := i\<rparr>))"

definition append_history_body :: "history_row \<Rightarrow> local_db \<Rightarrow> storage_error + (nat \<times> local_db)" where
  "append_history_body new db =
    (case (if hs_idempotency_key new = None then None
           else find (\<lambda>h. hs_idempotency_key h = hs_idempotency_key new) (ld_history db)) of
       Some row \<Rightarrow>
         if hs_idempotency_key new = Some []
         then Inl (IntegrityError ''UNIQUE constraint failed: scan_history.idempotency_key'')
         else if (hs_event row, hs_status row, hs_details row) \<noteq> (hs_event new, hs_status new, hs_details new)
         then Inl (IdempotencyConflictError ''history idempotency key was reused with different content'')
         else Inr (hs_history_id row, db)
     | None \<Rightarrow> Inr (insert_history new db))"

definition clean_key :: "string option \<Rightarrow> storage_error + string option" where
  "clean_key key = (case key of None \<Rightarrow> Inr None | Some k \<Rightarrow> if k = [] then Inr (Some [])
     else ebind (lift_py (clean_identifier ''idempotency_key'' 256 (JStr k))) (\<lambda>k. Inr (Some k)))"

definition append_scan_history ::
    "runtime \<Rightarrow> string \<Rightarrow> string \<Rightarrow> string option \<Rightarrow> jobj \<Rightarrow> string option \<Rightarrow> string option \<Rightarrow> string \<Rightarrow> local_db \<Rightarrow>
     storage_error + (nat \<times> local_db)" where
  "append_scan_history rt scan_id event status details key created_at now db =
    ebind (lift_py (clean_identifier ''scan_id'' 256 (JStr scan_id))) (\<lambda>scan_id.
    ebind (lift_py (clean_identifier ''event'' 128 (JStr event))) (\<lambda>event.
    ebind (clean_key key) (\<lambda>key.
    ebind (lift_py (canonical_json rt (JObj details))) (\<lambda>serialized.
      let timestamp = given_or created_at now in
      append_history_body \<lparr> hs_history_id = 0, hs_scan_id = scan_id, hs_event = event, hs_status = status,
        hs_details = serialized, hs_idempotency_key = key, hs_created_at = timestamp \<rparr>
        (ensure_scan rt scan_id None timestamp db)))))"

section \<open>Findings\<close>

definition finding_severities :: "string list" where
  "finding_severities = [''CRITICAL'', ''HIGH'', ''MEDIUM'', ''LOW'', ''INFO'']"

definition upsert_finding :: "finding_row \<Rightarrow> local_db \<Rightarrow> local_db" where
  "upsert_finding row db =
    (if fr_finding_id row \<in> fr_finding_id ` set (ld_findings db)
     then db\<lparr>ld_findings := map (\<lambda>f. if fr_finding_id f = fr_finding_id row then row else f) (ld_findings db)\<rparr>
     else db\<lparr>ld_findings := ld_findings db @ [row]\<rparr>)"

definition finding_to_row ::
    "runtime \<Rightarrow> string \<Rightarrow> string option \<Rightarrow> string \<Rightarrow> jobj \<Rightarrow> storage_error + finding_row" where
  "finding_to_row rt scan_id endpoint_id now d =
    ebind (lift_py (clean_identifier ''finding_id'' 256 (jget ''finding_id'' d))) (\<lambda>finding_id.
    ebind (lift_py (clean_identifier ''rule_id'' 256 (jget ''rule_id'' d))) (\<lambda>rule_id.
    ebind (lift_py (clean_identifier ''severity'' 16
        (JStr (py_upper (py_str rt (jget_default (JStr ''INFO'') ''severity'' d)))))) (\<lambda>severity.
    if severity \<notin> set finding_severities then Inl (PyErr (ValueError (''unsupported finding severity: '' @ severity)))
    else ebind (lift_py (clean_identifier ''status'' 64 (jget_default (JStr ''OPEN'') ''status'' d))) (\<lambda>status.
    ebind (lift_py (canonical_json rt (JObj d))) (\<lambda>serialized.
      Inr \<lparr> fr_finding_id = finding_id, fr_scan_id = scan_id, fr_endpoint_id = endpoint_id, fr_rule_id = rule_id,
        fr_severity = severity, fr_status = status,
        fr_detected_at = (if truthy (jget ''detected_at'' d) then py_str rt (jget ''detected_at'' d) else now),
        fr_payload = canon_obj d, fr_payload_hash = rt_sha256 rt serialized, fr_updated_at = now \<rparr>)))))"

fun save_findings_loop ::
    "runtime \<Rightarrow> string \<Rightarrow> string option \<Rightarrow> string \<Rightarrow> json list \<Rightarrow> local_db \<Rightarrow> storage_error + local_db" where
  "save_findings_loop rt scan_id endpoint_id now [] db = Inr db"
| "save_findings_loop rt scan_id endpoint_id now (JObj d # fs) db =
    ebind (finding_to_row rt scan_id endpoint_id now d) (\<lambda>row.
      save_findings_loop rt scan_id endpoint_id now fs (upsert_finding row db))"
| "save_findings_loop rt scan_id endpoint_id now (v # fs) db =
    Inl (PyErr (AttributeError (CHR 0x27 # json_type v @ CHR 0x27 # '' object has no attribute '' @ CHR 0x27 # ''get'' @ [CHR 0x27])))"

definition save_findings ::
    "runtime \<Rightarrow> string \<Rightarrow> string option \<Rightarrow> json list \<Rightarrow> string \<Rightarrow> local_db \<Rightarrow> storage_error + (nat \<times> local_db)" where
  "save_findings rt scan_id endpoint_id fs now db =
    ebind (lift_py (clean_identifier ''scan_id'' 256 (JStr scan_id))) (\<lambda>scan_id.
    ebind (clean_optional ''endpoint_id'' endpoint_id) (\<lambda>endpoint_id.
    ebind (save_findings_loop rt scan_id endpoint_id now fs (ensure_scan rt scan_id endpoint_id now db)) (\<lambda>db.
      Inr (length fs, db))))"

definition get_finding_first_seen :: "runtime \<Rightarrow> string \<Rightarrow> local_db \<Rightarrow> storage_error + string option" where
  "get_finding_first_seen rt finding_id db =
    ebind (lift_py (clean_identifier ''finding_id'' 256 (JStr finding_id))) (\<lambda>finding_id.
      Inr (case find (\<lambda>f. fr_finding_id f = finding_id) (ld_findings db) of
         None \<Rightarrow> None
       | Some row \<Rightarrow>
           (let first = jget ''first_seen_at'' (fr_payload row);
                value = (if truthy first then first else jget ''detected_at'' (fr_payload row));
                detected = (if fr_detected_at row = [] then None else Some (fr_detected_at row))
            in case value of JStr s \<Rightarrow> if s = [] then detected else Some s | _ \<Rightarrow> detected)))"

section \<open>Collector states\<close>

definition collector_states :: "string list" where
  "collector_states = [''SUCCESS'', ''PARTIAL'', ''FAILED'', ''UNAVAILABLE'', ''TIMEOUT'', ''SKIPPED'']"

fun negative_float :: "pyfloat \<Rightarrow> bool" where
  "negative_float (Finite q) = (q < 0)"
| "negative_float NegInf = True"
| "negative_float _ = False"

text \<open>SQLite stores a NaN as NULL.\<close>

definition real_column :: "pyfloat option \<Rightarrow> pyfloat option" where
  "real_column v = (if v = Some NotANumber then None else v)"

definition upsert_collector :: "collector_row \<Rightarrow> local_db \<Rightarrow> local_db" where
  "upsert_collector row db =
    (let same = (\<lambda>c. (cl_scan_id c, cl_collector c) = (cl_scan_id row, cl_collector row)) in
     if list_ex same (ld_collectors db)
     then db\<lparr>ld_collectors := map (\<lambda>c. if same c then row else c) (ld_collectors db)\<rparr>
     else db\<lparr>ld_collectors := ld_collectors db @ [row]\<rparr>)"

definition save_collector_status ::
    "runtime \<Rightarrow> string \<Rightarrow> string \<Rightarrow> string \<Rightarrow> jobj \<Rightarrow> string option \<Rightarrow> string option \<Rightarrow> string option \<Rightarrow> pyfloat option \<Rightarrow>
     string \<Rightarrow> local_db \<Rightarrow> storage_error + local_db" where
  "save_collector_status rt scan_id collector status details tool_version started_at completed_at duration now db =
    ebind (lift_py (clean_identifier ''scan_id'' 256 (JStr scan_id))) (\<lambda>scan_id.
    ebind (lift_py (clean_identifier ''collector'' 128 (JStr collector))) (\<lambda>collector.
    ebind (lift_py (clean_identifier ''status'' 16 (JStr (py_upper status)))) (\<lambda>status.
    if status \<notin> set collector_states then Inl (PyErr (ValueError (''unsupported collector status: '' @ status)))
    else if (case duration of None \<Rightarrow> False | Some x \<Rightarrow> negative_float x)
    then Inl (PyErr (ValueError ''duration_seconds cannot be negative''))
    else ebind (lift_py (canonical_json rt (JObj details))) (\<lambda>serialized.
      Inr (upsert_collector \<lparr> cl_scan_id = scan_id, cl_collector = collector, cl_status = status,
        cl_tool_version = tool_version, cl_started_at = started_at, cl_completed_at = completed_at,
        cl_duration = real_column duration, cl_details = serialized \<rparr>
        (ensure_scan rt scan_id None now db))))))"

end
