(* ===== verification/Scan_Results.thy ===== *)
theory Scan_Results
  imports Job_Storage
begin

text \<open>
  \<open>save_scan_result\<close> of \<^verbatim>\<open>app/storage/results.py\<close>: one transaction that stores the normalized result of a
  scan, its inventory, findings and collector states and the entry of its history. Sections the scan
  did not observe are carried over from the latest snapshot of the endpoint.
\<close>

section \<open>The inventory of a result\<close>

definition inventory_fields :: "string list" where
  "inventory_fields = [''endpoint'', ''os'', ''hardware'', ''software'', ''processes'', ''services'', ''users'', ''groups'',
     ''network'', ''network_interfaces'', ''listening_ports'', ''security'', ''updates'', ''browser_extensions'',
     ''certificates'', ''persistence'', ''compliance'', ''vulnerabilities'']"

definition py_or :: "json \<Rightarrow> json \<Rightarrow> json" where
  "py_or v w = (if truthy v then v else w)"

definition result_inventory :: "jobj \<Rightarrow> json" where
  "result_inventory result =
    (if jget ''inventory'' result = JNull then JObj (filter (\<lambda>kv. fst kv \<in> set inventory_fields) result)
     else jget ''inventory'' result)"

definition metadata_target :: "jobj \<Rightarrow> json" where
  "metadata_target result =
    (case jget_default (JObj []) ''metadata'' result of
       JObj m \<Rightarrow> py_or (py_or (jget ''authorized_target'' m) (jget ''target'' m)) (jget ''domain'' m)
     | _ \<Rightarrow> JNull)"

definition observed_sections :: "jobj \<Rightarrow> string list option" where
  "observed_sections result =
    (case jget_default (JObj []) ''metadata'' result of
       JObj m \<Rightarrow> (case jget ''observed_inventory_sections'' m of
           JArr xs \<Rightarrow> if list_all (\<lambda>x. as_jstr x \<noteq> None) xs then Some (map (the \<circ> as_jstr) xs) else None
         | _ \<Rightarrow> None)
     | _ \<Rightarrow> None)"

fun set_defaults :: "jobj \<Rightarrow> jobj \<Rightarrow> jobj" where
  "set_defaults d [] = d"
| "set_defaults d ((k, v) # kvs) = set_defaults (if dict_has k d then d else d @ [(k, v)]) kvs"

definition completeness :: "string list \<Rightarrow> json" where
  "completeness observed = JObj
    [(''observed_sections'', JArr (map JStr (sort (remdups observed)))),
     (''unobserved_sections'', JArr (map JStr (sort (filter (\<lambda>k. k \<noteq> ''endpoint'' \<and> k \<notin> set observed) inventory_fields))))]"

definition carried_over :: "string list \<Rightarrow> jobj \<Rightarrow> jobj" where
  "carried_over observed previous =
     filter (\<lambda>kv. fst kv \<notin> set observed \<and> fst kv \<noteq> ''collection_completeness'') previous"

definition current_inventory :: "string list \<Rightarrow> jobj \<Rightarrow> jobj option \<Rightarrow> jobj" where
  "current_inventory observed inventory previous =
    (let current = filter (\<lambda>kv. fst kv \<in> set observed \<or> fst kv = ''endpoint'') inventory
     in dict_set ''collection_completeness'' (completeness observed)
       (case previous of None \<Rightarrow> current | Some p \<Rightarrow> set_defaults current (carried_over observed p)))"

definition given :: "string option \<Rightarrow> bool" where
  "given v \<longleftrightarrow> v \<noteq> None \<and> v \<noteq> Some []"

definition inventory_to_store :: "string option \<Rightarrow> jobj \<Rightarrow> local_db \<Rightarrow> storage_error + json" where
  "inventory_to_store endpoint_id result db =
    (case (result_inventory result, observed_sections result) of
       (JObj inventory, Some observed) \<Rightarrow>
         ebind (if given endpoint_id then get_latest_snapshot (the endpoint_id) db else Inr None) (\<lambda>latest.
           Inr (JObj (current_inventory observed inventory (map_option snd latest))))
     | (inventory, _) \<Rightarrow> Inr inventory)"

section \<open>The parts of the transaction\<close>

definition optional_text :: "runtime \<Rightarrow> json \<Rightarrow> string option" where
  "optional_text rt v = (if truthy v then Some (py_str rt v) else None)"

definition save_inventory ::
    "runtime \<Rightarrow> string \<Rightarrow> string option \<Rightarrow> jobj \<Rightarrow> json \<Rightarrow> string \<Rightarrow> local_db \<Rightarrow>
     storage_error + (snapshot_change option \<times> local_db)" where
  "save_inventory rt scan_id endpoint_id result inventory now db =
    (if \<not> given endpoint_id then Inr (None, db)
     else (case inventory of
       JObj d \<Rightarrow> ebind (store_snapshot rt (the endpoint_id) scan_id d (result_text rt result ''schema_version'' ''1.0'')
           (optional_text rt (jget ''policy_version'' result)) (optional_text rt (jget ''scanner_version'' result)) now db)
           (\<lambda>(change, db). Inr (Some change, db))
     | _ \<Rightarrow> Inl (PyErr (TypeError ''result.inventory must be a mapping''))))"

text \<open>What a \<open>for\<close> loop over a value goes through.\<close>

definition iterated :: "json \<Rightarrow> storage_error + json list" where
  "iterated v = (case v of
     JArr xs \<Rightarrow> Inr xs
   | JObj d \<Rightarrow> Inr (map (JStr \<circ> fst) d)
   | JStr s \<Rightarrow> Inr (map (\<lambda>c. JStr [c]) s)
   | _ \<Rightarrow> Inl (PyErr (TypeError (CHR 0x27 # json_type v @ CHR 0x27 # '' object is not iterable''))))"

definition save_result_findings ::
    "runtime \<Rightarrow> string \<Rightarrow> string option \<Rightarrow> jobj \<Rightarrow> string \<Rightarrow> local_db \<Rightarrow> storage_error + local_db" where
  "save_result_findings rt scan_id endpoint_id result now db =
    (let fs = jget_default (JArr []) ''findings'' result in
     if \<not> truthy fs then Inr db
     else ebind (iterated fs) (\<lambda>fs. ebind (save_findings rt scan_id endpoint_id fs now db) (\<lambda>(_, db). Inr db)))"

text \<open>\<open>to_float\<close> is \<open>float(value)\<close>.\<close>

fun save_collectors ::
    "runtime \<Rightarrow> (json \<Rightarrow> py_error + pyfloat) \<Rightarrow> string \<Rightarrow> jobj \<Rightarrow> string \<Rightarrow> local_db \<Rightarrow> storage_error + local_db" where
  "save_collectors rt to_float scan_id [] now db = Inr db"
| "save_collectors rt to_float scan_id ((name, JObj c) # cs) now db =
    ebind (if jget ''duration_seconds'' c = JNull then Inr None
       else ebind (lift_py (to_float (jget ''duration_seconds'' c))) (\<lambda>x. Inr (Some x))) (\<lambda>duration.
    ebind (save_collector_status rt scan_id name (result_text rt c ''status'' ''FAILED'') c
       (optional_text rt (jget ''tool_version'' c)) None None duration now db)
      (save_collectors rt to_float scan_id cs now))"
| "save_collectors rt to_float scan_id (_ # cs) now db = save_collectors rt to_float scan_id cs now db"

definition stored_details :: "jobj \<Rightarrow> snapshot_change option \<Rightarrow> jobj" where
  "stored_details result change =
    [(''snapshot_id'', case change of None \<Rightarrow> JNull | Some c \<Rightarrow> JInt (int (ch_snapshot_id c))),
     (''snapshot_hash'', case change of None \<Rightarrow> JNull | Some c \<Rightarrow> JStr (ch_snapshot_hash c)),
     (''result_type'', jget_default (JStr ''ENDPOINT'') ''scan_type'' result)]"

text \<open>\<open>clock i\<close> is the time of the \<open>i\<close>th part.\<close>

definition save_scan_result ::
    "runtime \<Rightarrow> (json \<Rightarrow> string option option) \<Rightarrow> (json \<Rightarrow> py_error + pyfloat) \<Rightarrow> string \<Rightarrow> string option \<Rightarrow> jobj \<Rightarrow>
     string option \<Rightarrow> (nat \<Rightarrow> string) \<Rightarrow> local_db \<Rightarrow> storage_error + (snapshot_change option \<times> local_db)" where
  "save_scan_result rt bind to_float scan_id endpoint_id result target clock db =
    ebind (inventory_to_store endpoint_id result db) (\<lambda>inventory.
    let stored_target = py_or (py_or (opt_json target) (jget ''target'' result)) (metadata_target result) in
    ebind (store_normalized_result rt bind scan_id result endpoint_id (Some (result_text rt result ''scan_type'' ''ENDPOINT''))
      (optional_text rt stored_target) (clock 0) db) (\<lambda>(_, db).
    ebind (save_inventory rt scan_id endpoint_id result inventory (clock 1) db) (\<lambda>(change, db).
    ebind (save_result_findings rt scan_id endpoint_id result (clock 2) db) (\<lambda>db.
    ebind (case jget_default (JObj []) ''collectors'' result of
        JObj cs \<Rightarrow> save_collectors rt to_float scan_id cs (clock 3) db | _ \<Rightarrow> Inr db) (\<lambda>db.
    ebind (append_scan_history rt scan_id ''RESULT_STORED'' (Some (result_text rt result ''status'' ''SUCCESS''))
      (stored_details result change) (Some (''result-stored:'' @ scan_id)) None (clock 4) db) (\<lambda>(_, db).
      Inr (change, db)))))))"

end
