(* ===== verification/Inventory_Invariants.thy ===== *)
theory Inventory_Invariants
  imports Inventory_Storage
begin

text \<open>
  The invariant of the local snapshot tables: every snapshot has its content, named by its digest, and
  either stands alone or lists its differences from an older snapshot of the same endpoint that is
  still there. Storing, storing a result and pruning keep it.
\<close>

section \<open>Unique rows\<close>

lemma find_key: "distinct (map f xs) \<Longrightarrow> find (\<lambda>y. f y = k) xs = Some x \<longleftrightarrow> x \<in> set xs \<and> f x = k"
  by (induction xs) (auto simp: image_iff split: if_splits)

lemma find_append: "find P (xs @ ys) = (case find P xs of None \<Rightarrow> find P ys | Some x \<Rightarrow> Some x)"
  by (induction xs) auto

lemma find_filter: "(\<And>x. x \<in> set xs \<Longrightarrow> P x \<Longrightarrow> Q x) \<Longrightarrow> find P (filter Q xs) = find P xs"
  by (induction xs) auto

section \<open>The invariant\<close>

definition payload_ok :: "runtime \<Rightarrow> payload_row \<Rightarrow> bool" where
  "payload_ok rt p \<longleftrightarrow> json_wf (JObj (py_json p)) \<and> json_finite (JObj (py_json p))
     \<and> canon_obj (py_json p) = py_json p \<and> normalize_sections rt (py_json p) = py_json p
     \<and> py_hash p = digest_text rt (JObj (py_json p))"

definition difference_ok :: "runtime \<Rightarrow> local_db \<Rightarrow> inventory_row \<Rightarrow> inventory_row \<Rightarrow> jobj \<Rightarrow> bool" where
  "difference_ok rt db r q d \<longleftrightarrow> ir_endpoint_id q = ir_endpoint_id r \<and> ir_snapshot_id q < ir_snapshot_id r \<and> \<not> ir_initial r
     \<and> ir_changed r = (ir_changes r \<noteq> [])
     \<and> (\<exists>b n. payload_by_hash (ir_payload_hash q) db = Some b \<and> json_wf (JObj n) \<and> canon_obj n = d
          \<and> ir_changes r = compare_snapshots rt (Some b) n)"

definition snapshot_ok :: "runtime \<Rightarrow> local_db \<Rightarrow> inventory_row \<Rightarrow> bool" where
  "snapshot_ok rt db r \<longleftrightarrow> (\<exists>d. payload_by_hash (ir_payload_hash r) db = Some d
     \<and> (case ir_previous r of
          None \<Rightarrow> ir_initial r
        | Some p \<Rightarrow> \<exists>q \<in> set (ld_snapshots db). ir_snapshot_id q = p \<and> difference_ok rt db r q d))"

definition local_inv :: "runtime \<Rightarrow> local_db \<Rightarrow> bool" where
  "local_inv rt db \<longleftrightarrow> (\<forall>p \<in> set (ld_payloads db). payload_ok rt p)
     \<and> distinct (map ir_snapshot_id (ld_snapshots db))
     \<and> (\<forall>r \<in> set (ld_snapshots db). ir_snapshot_id r \<le> ld_snapshot_seq db \<and> snapshot_ok rt db r)"

lemma payload_by_hash_ok:
  "\<forall>p \<in> set (ld_payloads db). payload_ok rt p \<Longrightarrow> payload_by_hash h db = Some d \<Longrightarrow>
    json_wf (JObj d) \<and> json_finite (JObj d) \<and> canon_obj d = d \<and> normalize_sections rt d = d \<and> h = digest_text rt (JObj d)"
  by (auto simp: payload_by_hash_def payload_ok_def simp del: json_wf.simps json_finite.simps dest!: find_SomeD)

lemma inventory_by_id_iff:
  "local_inv rt db \<Longrightarrow> inventory_by_id i db = Some r \<longleftrightarrow> r \<in> set (ld_snapshots db) \<and> ir_snapshot_id r = i"
  by (simp add: local_inv_def inventory_by_id_def find_key)

text \<open>What the tables of snapshots and contents are read for.\<close>

lemma snapshot_ok_mono:
  assumes "r \<in> set (ld_snapshots db)" and "snapshot_ok rt db r"
    and "\<And>q d. q \<in> set (ld_snapshots db) \<Longrightarrow> payload_by_hash (ir_payload_hash q) db = Some d \<Longrightarrow>
      payload_by_hash (ir_payload_hash q) db' = Some d"
    and "set (ld_snapshots db) \<subseteq> set (ld_snapshots db')"
  shows "snapshot_ok rt db' r"
proof -
  obtain d where d: "payload_by_hash (ir_payload_hash r) db = Some d" and link: "case ir_previous r of None \<Rightarrow> ir_initial r
      | Some p \<Rightarrow> \<exists>q \<in> set (ld_snapshots db). ir_snapshot_id q = p \<and> difference_ok rt db r q d"
    using assms(2) by (auto simp: snapshot_ok_def)
  have "difference_ok rt db' r q d" if "q \<in> set (ld_snapshots db)" "difference_ok rt db r q d" for q
    using that assms(3) [of q] unfolding difference_ok_def by blast
  then show ?thesis using assms(3) [OF assms(1) d] link assms(4) by (cases "ir_previous r") (auto simp: snapshot_ok_def)
qed

section \<open>Storing\<close>

lemma json_wf_drop_keys: "json_wf (JObj d) \<Longrightarrow> json_wf (JObj (drop_keys ks d))"
  by (auto simp: drop_keys_def dict_ok_def distinct_map_filter)

lemma json_wf_strip: "json_wf v \<Longrightarrow> json_wf (strip_volatile vol v)"
  by (cases v) (auto simp: strip_volatile_def strip_item_def json_wf_drop_keys simp del: json_wf.simps(2) split: json.splits)

lemma json_wf_normalize_section: "json_wf v \<Longrightarrow> json_wf (normalize_section rt name v)"
  using json_wf_strip [of v "get_list volatile_fields name"]
  by (cases "strip_volatile (get_list volatile_fields name) v") (auto simp: normalize_section_def Let_def simp del: json_wf.simps(2))

lemma json_wf_normalize: "json_wf (JObj d) \<Longrightarrow> json_wf (JObj (normalize_sections rt d))"
  using dict_ok_normalize [of d rt] by (auto simp: normalize_sections_def json_wf_normalize_section)

lemma set_map_values: "set (map_values f d) = (\<lambda>kv. (fst kv, f (snd kv))) ` set d"
  by (auto simp: map_values_def)

lemma json_wf_canon: "json_wf v \<Longrightarrow> json_wf (canon v)"
  by (induction v rule: json_induct) (auto simp: set_map_values)

lemma ensure_rows [simp]:
  "ld_payloads (ensure_endpoint rt e now db) = ld_payloads db"
  "ld_snapshots (ensure_endpoint rt e now db) = ld_snapshots db"
  "ld_snapshot_seq (ensure_endpoint rt e now db) = ld_snapshot_seq db"
  "ld_payloads (ensure_scan rt k eo now db) = ld_payloads db"
  "ld_snapshots (ensure_scan rt k eo now db) = ld_snapshots db"
  "ld_snapshot_seq (ensure_scan rt k eo now db) = ld_snapshot_seq db"
  by (auto simp: ensure_endpoint_def ensure_scan_def Let_def split: option.splits)

text \<open>The operations that leave the two tables alone.\<close>

lemma local_inv_cong:
  "ld_payloads db' = ld_payloads db \<Longrightarrow> ld_snapshots db' = ld_snapshots db \<Longrightarrow> ld_snapshot_seq db' = ld_snapshot_seq db \<Longrightarrow>
    local_inv rt db' = local_inv rt db"
  by (simp add: local_inv_def snapshot_ok_def difference_ok_def payload_by_hash_def cong: option.case_cong)

lemma latest_inventory_mem:
  "latest_inventory e db = Some r \<Longrightarrow> r \<in> set (ld_snapshots db) \<and> ir_endpoint_id r = e"
  by (auto simp: latest_inventory_def dest!: find_SomeD)

definition unmixed :: "runtime \<Rightarrow> jobj \<Rightarrow> local_db \<Rightarrow> bool" where
  "unmixed rt normalized db \<longleftrightarrow>
     (\<forall>p \<in> set (ld_payloads db). py_hash p = digest_text rt (JObj normalized) \<longrightarrow> py_json p = canon_obj normalized)"

lemma add_payload_content:
  assumes "\<forall>p \<in> set ps. py_hash p = h \<longrightarrow> py_json p = canon_obj n"
  shows "map_option py_json (find (\<lambda>p. py_hash p = h) (add_payload rt h n now ps)) = Some (canon_obj n)"
proof (cases "find (\<lambda>p. py_hash p = h) ps")
  case None
  then have "h \<notin> py_hash ` set ps" by (auto simp: find_None_iff)
  then show ?thesis using None by (simp add: add_payload_def find_append)
next
  case (Some p)
  then have "py_json p = canon_obj n" "h \<in> py_hash ` set ps" using assms by (auto dest!: find_SomeD)
  then show ?thesis using Some by (simp add: add_payload_def)
qed

lemma unmixed_content:
  "unmixed rt n db \<Longrightarrow> ld_payloads db' = add_payload rt (digest_text rt (JObj n)) n now (ld_payloads db) \<Longrightarrow>
    payload_by_hash (digest_text rt (JObj n)) db' = Some (canon_obj n)"
  unfolding payload_by_hash_def unmixed_def by (simp only:) (rule add_payload_content, blast)

lemma insert_snapshot_inv:
  assumes inv: "local_inv rt db" and wf: "json_wf (JObj n)" and fin: "json_finite (JObj n)"
    and norm: "normalize_sections rt n = n" and un: "unmixed rt n db"
    and ins: "insert_snapshot rt e k n schema policy scanner now db = (c, db')"
  shows "local_inv rt db'"
proof -
  define h where "h = digest_text rt (JObj n)"
  define r where "r = last (ld_snapshots db')"
  have pays: "ld_payloads db' = add_payload rt h n now (ld_payloads db)" and snaps: "ld_snapshots db' = ld_snapshots db @ [r]"
    and seq: "ld_snapshot_seq db' = Suc (ld_snapshot_seq db)" and rid: "ir_snapshot_id r = Suc (ld_snapshot_seq db)"
    and rh: "ir_payload_hash r = h" and rp: "ir_previous r = map_option ir_snapshot_id (latest_inventory e db)"
    and rest: "ir_endpoint_id r = e" "ir_initial r = (latest_inventory e db = None)"
      "ir_changes r = compare_snapshots rt (case latest_inventory e db of None \<Rightarrow> None | Some p \<Rightarrow> payload_by_hash (ir_payload_hash p) db) n"
      "ir_changed r = (ir_initial r \<or> ir_changes r \<noteq> [])"
    using ins by (auto simp: insert_snapshot_def Let_def h_def r_def)
  have keep: "payload_by_hash x db' = Some d" if "payload_by_hash x db = Some d" for x d
    using that by (auto simp: payload_by_hash_def pays add_payload_def find_append split: option.splits)
  have get: "payload_by_hash h db' = Some (canon_obj n)"
    unfolding h_def by (rule unmixed_content [OF un]) (simp add: pays h_def)
  have "payload_ok rt p" if "p \<in> set (ld_payloads db')" for p
    using that inv wf fin norm json_wf_canon [OF wf]
    by (auto simp: pays add_payload_def local_inv_def payload_ok_def h_def canon_JObj [symmetric] normalize_sections_canon
        simp del: json_wf.simps json_finite.simps canon.simps split: if_splits)
  moreover have "snapshot_ok rt db' x" if "x \<in> set (ld_snapshots db)" for x
  proof (rule snapshot_ok_mono)
    show "x \<in> set (ld_snapshots db)" by (rule that)
    show "snapshot_ok rt db x" using that inv by (simp add: local_inv_def)
    show "payload_by_hash (ir_payload_hash q) db = Some d \<Longrightarrow> payload_by_hash (ir_payload_hash q) db' = Some d" for q d by (rule keep)
    show "set (ld_snapshots db) \<subseteq> set (ld_snapshots db')" by (auto simp: snaps)
  qed
  moreover have "snapshot_ok rt db' r"
  proof (cases "latest_inventory e db")
    case None
    then show ?thesis using get by (simp add: snapshot_ok_def rh rp rest)
  next
    case (Some q)
    then have q: "q \<in> set (ld_snapshots db)" "ir_endpoint_id q = e" using latest_inventory_mem by auto
    then obtain b where b: "payload_by_hash (ir_payload_hash q) db = Some b" using inv by (auto simp: local_inv_def snapshot_ok_def)
    have "difference_ok rt db' r q (canon_obj n)"
      using q b keep [OF b] inv wf by (auto simp: difference_ok_def rest Some rid local_inv_def le_imp_less_Suc)
    then show ?thesis using get q(1) by (auto simp: snapshot_ok_def rh rp Some snaps)
  qed
  moreover have "distinct (map ir_snapshot_id (ld_snapshots db'))" using inv by (auto simp: local_inv_def snaps rid)
  ultimately show ?thesis using inv by (auto simp: local_inv_def snaps seq rid)
qed

lemma store_snapshot_inv:
  assumes "store_snapshot rt e k snapshot schema policy scanner now db = Inr (c, db')" and "local_inv rt db"
    and "json_wf (JObj snapshot)" and "unmixed rt (normalize_sections rt snapshot) db"
  shows "local_inv rt db'"
proof -
  let ?n = "normalize_sections rt snapshot"
  obtain e' k' schema' where fin: "json_finite (JObj ?n)"
    and res: "(let db = ensure_scan rt k' (Some e') now (ensure_endpoint rt e' now db) in
      case find (\<lambda>r. ir_scan_id r = k') (ld_snapshots db) of
        Some existing \<Rightarrow>
          if ir_endpoint_id existing \<noteq> e' \<or> ir_payload_hash existing \<noteq> digest_text rt (JObj ?n)
          then Inl (IdempotencyConflictError ''scan_id was reused for a different inventory snapshot'')
          else Inr (deserialize_change existing e' k' db, db)
      | None \<Rightarrow> Inr (insert_snapshot rt e' k' ?n schema' policy scanner now db)) = Inr (c, db')"
    using assms(1) unfolding store_snapshot_def ebind_Inr_iff lift_py_Inr normalize_snapshot_Inr by blast
  let ?db = "ensure_scan rt k' (Some e') now (ensure_endpoint rt e' now db)"
  have inv: "local_inv rt ?db" using assms(2) local_inv_cong [of ?db db] by simp
  have "unmixed rt ?n ?db" using assms(4) by (simp add: unmixed_def)
  then have "local_inv rt db'" if "insert_snapshot rt e' k' ?n schema' policy scanner now ?db = (c, db')"
    using insert_snapshot_inv [OF inv json_wf_normalize [OF assms(3)] fin _ _ that] by simp
  with inv res show ?thesis by (auto simp: Let_def split: option.splits if_splits)
qed

lemma store_result_body_same:
  "store_result_body rt bind row result target db = Inr (i, db') \<Longrightarrow>
    ld_payloads db' = ld_payloads db \<and> ld_snapshots db' = ld_snapshots db \<and> ld_snapshot_seq db' = ld_snapshot_seq db"
  unfolding store_result_body_def
  by (cases "find (\<lambda>r. rs_scan_id r = rs_scan_id row) (ld_results db)") (auto simp: ebind_Inr_iff insert_result_def Let_def simp del: prod.inject split: if_split_asm)

lemma store_result_inv:
  assumes "store_normalized_result rt bind k result e rtype target now db = Inr (i, db')"
  shows "local_inv rt' db' = local_inv rt' db"
proof -
  obtain row k' e' where "store_result_body rt bind row result target (ensure_scan rt k' e' now db) = Inr (i, db')"
    using assms unfolding store_normalized_result_def ebind_Inr_iff by blast
  from store_result_body_same [OF this] show ?thesis by (intro local_inv_cong) simp_all
qed

section \<open>Pruning\<close>

lemma make_full_simps [simp]:
  "ir_snapshot_id (make_full gone r) = ir_snapshot_id r" "ir_scan_id (make_full gone r) = ir_scan_id r"
  "ir_endpoint_id (make_full gone r) = ir_endpoint_id r" "ir_payload_hash (make_full gone r) = ir_payload_hash r"
  by (auto simp: make_full_def split: option.splits)

lemma prune_chunk_inv:
  assumes inv: "local_inv rt db"
  shows "local_inv rt (prune_chunk scans db)"
proof -
  define gone where "gone = map ir_snapshot_id (filter (\<lambda>r. ir_scan_id r \<in> set scans) (ld_snapshots db))"
  let ?db = "prune_chunk scans db"
  have snaps: "ld_snapshots ?db = filter (\<lambda>r. ir_scan_id r \<notin> set scans) (map (make_full gone) (ld_snapshots db))"
    and same: "ld_payloads ?db = ld_payloads db" "ld_snapshot_seq ?db = ld_snapshot_seq db"
    by (simp_all add: prune_chunk_def Let_def gone_def)
  have get: "payload_by_hash h ?db = payload_by_hash h db" for h by (simp add: payload_by_hash_def same)
  have "snapshot_ok rt ?db (make_full gone r)" if r: "r \<in> set (ld_snapshots db)" for r
  proof -
    obtain d where d: "payload_by_hash (ir_payload_hash r) db = Some d" and link: "case ir_previous r of None \<Rightarrow> ir_initial r
        | Some p \<Rightarrow> \<exists>q \<in> set (ld_snapshots db). ir_snapshot_id q = p \<and> difference_ok rt db r q d"
      using inv r by (auto simp: local_inv_def snapshot_ok_def)
    show ?thesis
    proof (cases "\<exists>p. ir_previous r = Some p \<and> p \<notin> set gone")
      case True
      then obtain q where q: "q \<in> set (ld_snapshots db)" "ir_previous r = Some (ir_snapshot_id q)" "ir_snapshot_id q \<notin> set gone"
        "difference_ok rt db r q d" using link by auto
      then have "make_full gone q \<in> set (ld_snapshots ?db)" unfolding snaps by (auto simp: gone_def)
      moreover have "make_full gone r = r" using q by (simp add: make_full_def)
      ultimately show ?thesis
        using q d by (auto simp: snapshot_ok_def get difference_ok_def intro!: bexI [of _ "make_full gone q"])
    next
      case False
      then show ?thesis using d link by (auto simp: snapshot_ok_def get make_full_def split: option.splits)
    qed
  qed
  moreover have "distinct (map ir_snapshot_id (ld_snapshots ?db))"
    using inv by (auto simp: snaps local_inv_def filter_map comp_def distinct_map_filter)
  ultimately show ?thesis using inv by (auto simp: local_inv_def snaps same)
qed

lemma prune_chunks_inv: "local_inv rt db \<Longrightarrow> local_inv rt (prune_chunks scans db)"
  by (induction scans db rule: prune_chunks.induct) (subst prune_chunks.simps, simp add: prune_chunk_inv)

lemma drop_payloads_content:
  "r \<in> set (ld_snapshots db) \<Longrightarrow> payload_by_hash (ir_payload_hash r) (drop_payloads db) = payload_by_hash (ir_payload_hash r) db"
  unfolding payload_by_hash_def drop_payloads_def by (simp add: find_filter)

lemma drop_payloads_inv:
  assumes inv: "local_inv rt db"
  shows "local_inv rt (drop_payloads db)"
proof -
  note same = drop_payloads_content
  have "snapshot_ok rt (drop_payloads db) r" if "r \<in> set (ld_snapshots db)" for r
  proof (rule snapshot_ok_mono [OF that])
    show "snapshot_ok rt db r" using that inv by (simp add: local_inv_def)
    show "set (ld_snapshots db) \<subseteq> set (ld_snapshots (drop_payloads db))" by (simp add: drop_payloads_def)
  qed (use same in simp)
  then show ?thesis using inv by (auto simp: local_inv_def drop_payloads_def)
qed

lemma prune_inv:
  "prune_completed_scan_records older_than mx prot limit rows db = Inr (n, db') \<Longrightarrow> local_inv rt db \<Longrightarrow> local_inv rt db'"
proof -
  assume "prune_completed_scan_records older_than mx prot limit rows db = Inr (n, db')" and inv: "local_inv rt db"
  then obtain selected where "db' = db \<or> db' = drop_payloads (prune_chunks selected db)"
    unfolding prune_completed_scan_records_def ebind_Inr_iff Let_def by (simp only: split: if_split_asm) (auto simp: ebind_Inr_iff split: if_split_asm)
  then show "local_inv rt db'" using inv by (auto intro: drop_payloads_inv prune_chunks_inv)
qed

end
