(* ===== verification/Local_Schema.thy ===== *)
theory Local_Schema
  imports Scan_Results Inventory_Invariants
begin

text \<open>
  The constraints that \<^verbatim>\<open>app/storage/migrations.py\<close> declares on the local tables: primary and unique keys,
  references and the enumerated columns. Every operation keeps them, so no statement of these
  operations is refused by the database for one of them.
\<close>

section \<open>Tables\<close>

definition unique_by :: "('a \<Rightarrow> 'k) \<Rightarrow> 'a list \<Rightarrow> bool" where
  "unique_by key rows \<longleftrightarrow> distinct (map key rows)"

definition refers :: "string set \<Rightarrow> string option \<Rightarrow> bool" where
  "refers ids r \<longleftrightarrow> (case r of None \<Rightarrow> True | Some i \<Rightarrow> i \<in> ids)"

definition jobs_ok :: "string set \<Rightarrow> job_row list \<Rightarrow> bool" where
  "jobs_ok es js \<longleftrightarrow> unique_by jr_scan_id js \<and> (\<forall>j \<in> set js. refers es (jr_endpoint_id j))"

definition snapshots_ok :: "string set \<Rightarrow> string set \<Rightarrow> payload_row list \<Rightarrow> inventory_row list \<Rightarrow> bool" where
  "snapshots_ok es ss ps rows \<longleftrightarrow> unique_by py_hash ps \<and> unique_by ir_scan_id rows
     \<and> (\<forall>r \<in> set rows. ir_endpoint_id r \<in> es \<and> ir_scan_id r \<in> ss \<and> ir_payload_hash r \<in> py_hash ` set ps)"

definition results_ok :: "string set \<Rightarrow> string set \<Rightarrow> payload_row list \<Rightarrow> result_row list \<Rightarrow> nat \<Rightarrow> bool" where
  "results_ok es ss ps rows seq \<longleftrightarrow> unique_by py_hash ps \<and> unique_by rs_scan_id rows \<and> unique_by rs_result_id rows
     \<and> (\<forall>r \<in> set rows. refers es (rs_endpoint_id r) \<and> rs_scan_id r \<in> ss \<and> rs_payload_hash r \<in> py_hash ` set ps
          \<and> rs_result_id r \<le> seq)"

definition history_ok :: "string set \<Rightarrow> history_row list \<Rightarrow> nat \<Rightarrow> bool" where
  "history_ok ss rows seq \<longleftrightarrow> unique_by hs_history_id rows
     \<and> distinct (filter (\<lambda>k. k \<noteq> None) (map hs_idempotency_key rows))
     \<and> (\<forall>h \<in> set rows. hs_scan_id h \<in> ss \<and> hs_history_id h \<le> seq)"

definition findings_ok :: "string set \<Rightarrow> string set \<Rightarrow> finding_row list \<Rightarrow> bool" where
  "findings_ok es ss rows \<longleftrightarrow> unique_by fr_finding_id rows
     \<and> (\<forall>f \<in> set rows. fr_scan_id f \<in> ss \<and> refers es (fr_endpoint_id f) \<and> fr_severity f \<in> set finding_severities)"

definition collectors_ok :: "string set \<Rightarrow> collector_row list \<Rightarrow> bool" where
  "collectors_ok ss rows \<longleftrightarrow> unique_by (\<lambda>c. (cl_scan_id c, cl_collector c)) rows
     \<and> (\<forall>c \<in> set rows. cl_scan_id c \<in> ss \<and> cl_status c \<in> set collector_states)"

definition endpoint_ids :: "local_db \<Rightarrow> string set" where
  "endpoint_ids db = er_endpoint_id ` set (ld_endpoints db)"

definition scan_ids :: "local_db \<Rightarrow> string set" where
  "scan_ids db = jr_scan_id ` set (ld_jobs db)"

definition schema_ok :: "local_db \<Rightarrow> bool" where
  "schema_ok db \<longleftrightarrow> unique_by er_endpoint_id (ld_endpoints db) \<and> jobs_ok (endpoint_ids db) (ld_jobs db)
     \<and> snapshots_ok (endpoint_ids db) (scan_ids db) (ld_payloads db) (ld_snapshots db)
     \<and> results_ok (endpoint_ids db) (scan_ids db) (ld_result_payloads db) (ld_results db) (ld_result_seq db)
     \<and> history_ok (scan_ids db) (ld_history db) (ld_history_seq db)
     \<and> findings_ok (endpoint_ids db) (scan_ids db) (ld_findings db)
     \<and> collectors_ok (scan_ids db) (ld_collectors db)"

lemma schema_empty: "schema_ok empty_db"
  by (simp add: schema_ok_def empty_db_def unique_by_def jobs_ok_def snapshots_ok_def results_ok_def history_ok_def
      findings_ok_def collectors_ok_def)

section \<open>Growing keys and changed rows\<close>

lemma refers_simps [simp]: "refers es None" "refers es (Some e) \<longleftrightarrow> e \<in> es"
  by (simp_all add: refers_def)

lemma refers_mono: "es \<subseteq> es' \<Longrightarrow> refers es r \<Longrightarrow> refers es' r"
  by (cases r) auto

lemma tables_mono:
  assumes "es \<subseteq> es'" and "ss \<subseteq> ss'"
  shows "jobs_ok es js \<Longrightarrow> jobs_ok es' js" "snapshots_ok es ss ps sn \<Longrightarrow> snapshots_ok es' ss' ps sn"
    "results_ok es ss qs rs n \<Longrightarrow> results_ok es' ss' qs rs n" "history_ok ss hs m \<Longrightarrow> history_ok ss' hs m"
    "findings_ok es ss fs \<Longrightarrow> findings_ok es' ss' fs" "collectors_ok ss cs \<Longrightarrow> collectors_ok ss' cs"
  using assms refers_mono [OF assms(1)]
  by (auto simp: jobs_ok_def snapshots_ok_def results_ok_def history_ok_def findings_ok_def collectors_ok_def)

text \<open>A state whose key sets have grown, one table being checked anew.\<close>

lemma schema_grow:
  assumes "schema_ok db" and "endpoint_ids db \<subseteq> endpoint_ids db'" and "scan_ids db \<subseteq> scan_ids db'"
    and "ld_endpoints db' = ld_endpoints db \<or> unique_by er_endpoint_id (ld_endpoints db')"
    and "ld_jobs db' = ld_jobs db \<or> jobs_ok (endpoint_ids db') (ld_jobs db')"
    and "ld_payloads db' = ld_payloads db \<and> ld_snapshots db' = ld_snapshots db
      \<or> snapshots_ok (endpoint_ids db') (scan_ids db') (ld_payloads db') (ld_snapshots db')"
    and "ld_result_payloads db' = ld_result_payloads db \<and> ld_results db' = ld_results db \<and> ld_result_seq db' = ld_result_seq db
      \<or> results_ok (endpoint_ids db') (scan_ids db') (ld_result_payloads db') (ld_results db') (ld_result_seq db')"
    and "ld_history db' = ld_history db \<and> ld_history_seq db' = ld_history_seq db
      \<or> history_ok (scan_ids db') (ld_history db') (ld_history_seq db')"
    and "ld_findings db' = ld_findings db \<or> findings_ok (endpoint_ids db') (scan_ids db') (ld_findings db')"
    and "ld_collectors db' = ld_collectors db \<or> collectors_ok (scan_ids db') (ld_collectors db')"
  shows "schema_ok db'"
proof -
  note ok = assms(1) [unfolded schema_ok_def] and mono = tables_mono [OF assms(2,3)]
  have "unique_by er_endpoint_id (ld_endpoints db')" using ok assms(4) by metis
  moreover have "jobs_ok (endpoint_ids db') (ld_jobs db')" using ok assms(5) mono(1) by metis
  moreover have "snapshots_ok (endpoint_ids db') (scan_ids db') (ld_payloads db') (ld_snapshots db')"
    using ok assms(6) mono(2) by metis
  moreover have "results_ok (endpoint_ids db') (scan_ids db') (ld_result_payloads db') (ld_results db') (ld_result_seq db')"
    using ok assms(7) mono(3) by metis
  moreover have "history_ok (scan_ids db') (ld_history db') (ld_history_seq db')" using ok assms(8) mono(4) by metis
  moreover have "findings_ok (endpoint_ids db') (scan_ids db') (ld_findings db')" using ok assms(9) mono(5) by metis
  moreover have "collectors_ok (scan_ids db') (ld_collectors db')" using ok assms(10) mono(6) by metis
  ultimately show ?thesis unfolding schema_ok_def by blast
qed

lemma unique_by_snoc [simp]: "unique_by key (rows @ [row]) \<longleftrightarrow> unique_by key rows \<and> key row \<notin> key ` set rows"
  by (auto simp: unique_by_def)

lemma key_map: "(\<And>x. key (f x) = key x) \<Longrightarrow> key ` set (map f rows) = key ` set rows"
  by (simp add: image_image)

lemma unique_by_map: "(\<And>x. x \<in> set rows \<Longrightarrow> key (f x) = key x) \<Longrightarrow> unique_by key (map f rows) = unique_by key rows"
  by (simp add: unique_by_def cong: map_cong)

lemma unique_by_filter: "unique_by key rows \<Longrightarrow> unique_by key (filter P rows)"
  by (simp add: unique_by_def distinct_map_filter)

lemma ensure_endpoint_ids: "endpoint_ids (ensure_endpoint rt e now db) = insert e (endpoint_ids db)"
  "scan_ids (ensure_endpoint rt e now db) = scan_ids db"
  by (auto simp: ensure_endpoint_def endpoint_ids_def scan_ids_def)

lemma ensure_endpoint_schema: "schema_ok db \<Longrightarrow> schema_ok (ensure_endpoint rt e now db)"
  by (rule schema_grow [of db]) (auto simp: ensure_endpoint_def endpoint_ids_def scan_ids_def schema_ok_def)

lemma ensure_scan_ids:
  "endpoint_ids db \<subseteq> endpoint_ids (ensure_scan rt k eo now db)"
  "eo = Some e \<Longrightarrow> e \<noteq> [] \<Longrightarrow> e \<in> endpoint_ids (ensure_scan rt k eo now db)"
  "scan_ids (ensure_scan rt k eo now db) = insert k (scan_ids db)"
proof -
  let ?base = "\<lambda>eo. case eo of None \<Rightarrow> db | Some e \<Rightarrow> if e = [] then db else ensure_endpoint rt e now db"
  let ?db = "?base eo"
  have e: "ld_endpoints (ensure_scan rt k eo now db) = ld_endpoints (?base eo)" for eo by (simp add: ensure_scan_def Let_def)
  show "endpoint_ids db \<subseteq> endpoint_ids (ensure_scan rt k eo now db)"
    using ensure_endpoint_ids(1) by (fastforce simp: e endpoint_ids_def split: option.splits)
  show "eo = Some e \<Longrightarrow> e \<noteq> [] \<Longrightarrow> e \<in> endpoint_ids (ensure_scan rt k eo now db)"
    using ensure_endpoint_ids(1) [of rt e now db] by (simp add: e endpoint_ids_def)
  have keep: "jr_scan_id (if jr_scan_id j = k \<and> jr_endpoint_id j = None then j\<lparr>jr_endpoint_id := eo\<rparr> else j) = jr_scan_id j" for j
    by simp
  have "scan_ids ?db = scan_ids db" by (simp add: ensure_endpoint_ids split: option.split)
  then show "scan_ids (ensure_scan rt k eo now db) = insert k (scan_ids db)"
    using key_map [where key = jr_scan_id, OF keep, of "ld_jobs ?db"]
    by (auto simp: ensure_scan_def Let_def scan_ids_def placeholder_job_def simp del: set_map)
qed

lemma ensure_scan_frame [simp]:
  "ld_result_payloads (ensure_scan rt k eo now db) = ld_result_payloads db"
  "ld_results (ensure_scan rt k eo now db) = ld_results db"
  "ld_result_seq (ensure_scan rt k eo now db) = ld_result_seq db"
  "ld_history (ensure_scan rt k eo now db) = ld_history db"
  "ld_history_seq (ensure_scan rt k eo now db) = ld_history_seq db"
  "ld_findings (ensure_scan rt k eo now db) = ld_findings db"
  "ld_collectors (ensure_scan rt k eo now db) = ld_collectors db"
  by (auto simp: ensure_scan_def ensure_endpoint_def Let_def split: option.splits)

lemma jobs_ok_map:
  assumes "jobs_ok es js" and "\<And>j. jr_scan_id (f j) = jr_scan_id j"
    and "\<And>j. j \<in> set js \<Longrightarrow> refers es (jr_endpoint_id j) \<Longrightarrow> refers es (jr_endpoint_id (f j))"
  shows "jobs_ok es (map f js)"
  using assms by (auto simp: jobs_ok_def unique_by_map)

lemma jobs_ok_snoc: "jobs_ok es (js @ [j]) \<longleftrightarrow> jobs_ok es js \<and> jr_scan_id j \<notin> jr_scan_id ` set js \<and> refers es (jr_endpoint_id j)"
  by (auto simp: jobs_ok_def)

lemma ensure_scan_schema:
  assumes "schema_ok db" and "eo \<noteq> Some []"
  shows "schema_ok (ensure_scan rt k eo now db)"
proof -
  define base where "base = (case eo of None \<Rightarrow> db | Some e \<Rightarrow> if e = [] then db else ensure_endpoint rt e now db)"
  let ?new = "ensure_scan rt k eo now db"
  have base: "schema_ok base" using assms by (auto simp: base_def ensure_endpoint_schema split: option.splits)
  have ends: "ld_endpoints ?new = ld_endpoints base" by (simp add: ensure_scan_def base_def Let_def)
  then have refs: "refers (endpoint_ids ?new) eo"
    using assms(2) ensure_scan_ids(2) [of eo _ rt k now db] by (cases eo) auto
  have jobs: "jobs_ok (endpoint_ids ?new) (ld_jobs base)"
    using base ends by (simp add: schema_ok_def endpoint_ids_def)
  have "jobs_ok (endpoint_ids ?new) (ld_jobs ?new)"
  proof (cases "k \<in> jr_scan_id ` set (ld_jobs base)")
    case True
    then have "ld_jobs ?new = map (\<lambda>j. if jr_scan_id j = k \<and> jr_endpoint_id j = None then j\<lparr>jr_endpoint_id := eo\<rparr> else j) (ld_jobs base)"
      by (simp add: ensure_scan_def base_def Let_def)
    then show ?thesis using jobs_ok_map [OF jobs] refs by simp
  next
    case False
    then have "ld_jobs ?new = ld_jobs base @ [placeholder_job rt k eo now]" by (simp add: ensure_scan_def base_def Let_def)
    then show ?thesis using jobs refs False by (simp add: jobs_ok_snoc placeholder_job_def)
  qed
  moreover have "unique_by er_endpoint_id (ld_endpoints ?new)" using base ends by (simp add: schema_ok_def)
  ultimately show ?thesis
    using assms(1) ensure_scan_ids by (intro schema_grow [of db ?new]) auto
qed

text \<open>The tables of a state that an operation replaces.\<close>

section \<open>Operations\<close>

lemma clean_nonempty: "lift_py (clean_identifier f n v) = Inr s \<Longrightarrow> s \<noteq> []"
  using clean_identifier_ok by (auto simp: identifier_ok_def)

lemma clean_optional_nonempty: "clean_optional f v = Inr r \<Longrightarrow> r \<noteq> Some []"
  using clean_nonempty [of f 256] by (fastforce simp: clean_optional_def ebind_Inr_iff split: option.splits if_splits)

lemma add_payload_hash: "py_hash ` set (add_payload rt h d now ps) = insert h (py_hash ` set ps)"
  "unique_by py_hash ps \<Longrightarrow> unique_by py_hash (add_payload rt h d now ps)"
  by (auto simp: add_payload_def)

lemma update_job_schema:
  assumes "schema_ok db" and "\<And>j. jr_scan_id (f j) = jr_scan_id j"
    and "\<And>j. refers (endpoint_ids db) (jr_endpoint_id j) \<Longrightarrow> refers (endpoint_ids db) (jr_endpoint_id (f j))"
  shows "schema_ok (update_job k f db)"
proof -
  have "jobs_ok (endpoint_ids db) (ld_jobs (update_job k f db))"
    unfolding update_job_def using assms by (auto simp: schema_ok_def intro!: jobs_ok_map)
  moreover have "scan_ids (update_job k f db) = scan_ids db"
    using key_map [where key = jr_scan_id and f = "\<lambda>j. if jr_scan_id j = k then f j else j"] assms(2)
    by (simp add: update_job_def scan_ids_def del: set_map)
  ultimately show ?thesis
    using assms(1) by (intro schema_grow [of db "update_job k f db"]) (auto simp: update_job_def endpoint_ids_def)
qed

lemma put_endpoint_schema:
  assumes ok: "schema_ok db"
  shows "schema_ok (put_endpoint row db)"
proof -
  let ?f = "\<lambda>e. if er_endpoint_id e = er_endpoint_id row
    then row\<lparr>er_enrolled_at := or_else (er_enrolled_at row) (er_enrolled_at e),
      er_last_seen_at := or_else (er_last_seen_at row) (er_last_seen_at e), er_created_at := er_created_at e\<rparr> else e"
  have keep: "er_endpoint_id (?f e) = er_endpoint_id e" for e by simp
  have "scan_ids (put_endpoint row db) = scan_ids db" by (simp add: put_endpoint_def scan_ids_def)
  moreover have "endpoint_ids db \<subseteq> endpoint_ids (put_endpoint row db)"
    using key_map [where key = er_endpoint_id and f = ?f, OF keep, of "ld_endpoints db"]
    by (auto simp: put_endpoint_def endpoint_ids_def simp del: set_map)
  moreover have "unique_by er_endpoint_id (ld_endpoints (put_endpoint row db))"
    using ok unique_by_map [where key = er_endpoint_id and f = ?f and rows = "ld_endpoints db", OF keep]
    by (simp add: put_endpoint_def schema_ok_def)
  ultimately show ?thesis using ok by (intro schema_grow [of db "put_endpoint row db"]) (auto simp: put_endpoint_def)
qed

lemma upsert_endpoint_schema:
  "upsert_endpoint rt e state en ls g now db = Inr db' \<Longrightarrow> schema_ok db \<Longrightarrow> schema_ok db'"
  unfolding upsert_endpoint_def ebind_Inr_iff Let_def using put_endpoint_schema by blast

lemma create_scan_job_schema:
  assumes "create_scan_job rt bind v now db = Inr (b, db')" and ok: "schema_ok db"
  shows "schema_ok db'"
proof -
  obtain job k eo ty st ts where body: "create_scan_job_body rt bind job k eo ty st ts db = Inr (b, db')"
    using assms(1) unfolding create_scan_job_def ebind_Inr_iff Let_def by (cases v; simp only: json.simps ebind_Inr_iff Let_def sum.simps) blast+
  define base where "base = (case eo of None \<Rightarrow> db | Some e \<Rightarrow> ensure_endpoint rt e ts db)"
  have base: "schema_ok base" using ok by (auto simp: base_def ensure_endpoint_schema split: option.splits)
  have refs: "refers (endpoint_ids base) eo" by (auto simp: base_def ensure_endpoint_ids split: option.splits)
  show ?thesis
  proof (cases "job_by_id k base")
    case None
    then obtain row where row: "new_job_row rt bind job k eo ty st ts = Inr row" "db' = base\<lparr>ld_jobs := ld_jobs base @ [row]\<rparr>"
      using body by (auto simp: create_scan_job_body_def base_def [symmetric] Let_def ebind_Inr_iff)
    have "jr_scan_id row = k" "jr_endpoint_id row = eo" using row(1) by (auto simp: new_job_row_def ebind_Inr_iff)
    moreover have "k \<notin> jr_scan_id ` set (ld_jobs base)" using None by (auto simp: job_by_id_def find_None_iff)
    ultimately have "jobs_ok (endpoint_ids db') (ld_jobs db')"
      using base refs by (simp add: row(2) jobs_ok_snoc schema_ok_def endpoint_ids_def)
    then show ?thesis using base by (intro schema_grow [of base db']) (auto simp: row(2) endpoint_ids_def scan_ids_def)
  next
    case (Some existing)
    then consider "db' = base" | row where "new_job_row rt bind job k eo ty st ts = Inr row" "db' = update_job k (write_job row) base"
      using body by (auto simp: create_scan_job_body_def base_def [symmetric] Let_def ebind_Inr_iff split: if_splits)
    then show ?thesis
    proof cases
      case 2
      then have "jr_endpoint_id row = eo" by (auto simp: new_job_row_def ebind_Inr_iff)
      then show ?thesis unfolding 2(2) using refs by (intro update_job_schema base) (auto simp: write_job_def)
    qed (simp add: base)
  qed
qed

lemma update_scan_job_schema: "update_scan_job env k st sa ca rs err now db = Inr db' \<Longrightarrow> schema_ok db \<Longrightarrow> schema_ok db'"
  unfolding update_scan_job_def ebind_Inr_iff Let_def
  by (auto split: if_splits intro!: update_job_schema)

lemma insert_history_schema:
  assumes ok: "schema_ok db" and ids: "hs_scan_id row \<in> scan_ids db"
    and new: "hs_idempotency_key row = None \<or> hs_idempotency_key row \<notin> hs_idempotency_key ` set (ld_history db)"
  shows "schema_ok (snd (insert_history row db))"
proof -
  let ?db = "snd (insert_history row db)"
  have "history_ok (scan_ids db) (ld_history db) (ld_history_seq db)" using ok by (simp add: schema_ok_def)
  then have "history_ok (scan_ids db) (ld_history ?db) (ld_history_seq ?db)"
    using ids new by (fastforce simp: insert_history_def Let_def history_ok_def)
  then show ?thesis
    by (intro schema_grow [of db "snd (insert_history row db)"] ok) (auto simp: insert_history_def Let_def endpoint_ids_def scan_ids_def)
qed

lemma append_history_schema:
  assumes "append_history_body row db = Inr (i, db')" and ok: "schema_ok db" and ids: "hs_scan_id row \<in> scan_ids db"
  shows "schema_ok db'"
proof (cases "if hs_idempotency_key row = None then None
    else find (\<lambda>h. hs_idempotency_key h = hs_idempotency_key row) (ld_history db)")
  case None
  then have "hs_idempotency_key row = None \<or> hs_idempotency_key row \<notin> hs_idempotency_key ` set (ld_history db)"
    by (auto simp: find_None_iff split: if_splits)
  from insert_history_schema [OF ok ids this] show ?thesis using assms(1) None by (simp add: append_history_body_def)
next
  case (Some old)
  then show ?thesis using assms(1) ok by (simp add: append_history_body_def split: if_splits)
qed

lemma append_scan_history_schema:
  assumes "append_scan_history rt k ev st d key ca now db = Inr (i, db')" and ok: "schema_ok db"
  shows "schema_ok db'"
proof -
  let ?ts = "given_or ca now"
  obtain k' ev' key' ser where body: "append_history_body \<lparr> hs_history_id = 0, hs_scan_id = k', hs_event = ev', hs_status = st,
      hs_details = ser, hs_idempotency_key = key', hs_created_at = ?ts \<rparr> (ensure_scan rt k' None ?ts db) = Inr (i, db')"
    using assms(1) unfolding append_scan_history_def ebind_Inr_iff Let_def by blast
  show ?thesis
    by (rule append_history_schema [OF body]) (simp_all add: ok ensure_scan_schema ensure_scan_ids)
qed

lemma upsert_finding_schema:
  assumes ok: "schema_ok db" and row: "fr_scan_id row \<in> scan_ids db" "refers (endpoint_ids db) (fr_endpoint_id row)"
    "fr_severity row \<in> set finding_severities"
  shows "schema_ok (upsert_finding row db)" "scan_ids (upsert_finding row db) = scan_ids db"
    "endpoint_ids (upsert_finding row db) = endpoint_ids db"
proof -
  show ids: "scan_ids (upsert_finding row db) = scan_ids db" "endpoint_ids (upsert_finding row db) = endpoint_ids db"
    by (simp_all add: upsert_finding_def scan_ids_def endpoint_ids_def)
  have old: "findings_ok (endpoint_ids db) (scan_ids db) (ld_findings db)" using ok by (simp add: schema_ok_def)
  have "unique_by fr_finding_id (ld_findings (upsert_finding row db))"
    using old unique_by_map [of "ld_findings db" fr_finding_id "\<lambda>f. if fr_finding_id f = fr_finding_id row then row else f"]
    by (auto simp: upsert_finding_def findings_ok_def)
  then have "findings_ok (endpoint_ids db) (scan_ids db) (ld_findings (upsert_finding row db))"
    using old row by (auto simp: upsert_finding_def findings_ok_def)
  then show "schema_ok (upsert_finding row db)"
    by (intro schema_grow [of db "upsert_finding row db"] ok) (auto simp: ids, auto simp: upsert_finding_def)
qed

lemma save_findings_loop_schema:
  "save_findings_loop rt k eo now fs db = Inr db' \<Longrightarrow> schema_ok db \<Longrightarrow> k \<in> scan_ids db \<Longrightarrow> refers (endpoint_ids db) eo \<Longrightarrow> schema_ok db'"
proof (induction rt k eo now fs db rule: save_findings_loop.induct)
  case (2 rt k eo now d fs db)
  then obtain row where row: "finding_to_row rt k eo now d = Inr row"
    and rest: "save_findings_loop rt k eo now fs (upsert_finding row db) = Inr db'" by (auto simp: ebind_Inr_iff)
  have "fr_scan_id row = k" "fr_endpoint_id row = eo" "fr_severity row \<in> set finding_severities"
    using row by (auto simp: finding_to_row_def ebind_Inr_iff split: if_splits)
  then show ?case using 2 rest row upsert_finding_schema by simp
qed simp_all

lemma save_findings_schema:
  assumes "save_findings rt k eo fs now db = Inr (n, db')" and ok: "schema_ok db"
  shows "schema_ok db'"
proof -
  obtain k' eo' where eo: "eo' \<noteq> Some []" and loop: "save_findings_loop rt k' eo' now fs (ensure_scan rt k' eo' now db) = Inr db'"
    using assms(1) unfolding save_findings_def ebind_Inr_iff using clean_optional_nonempty by blast
  have "refers (endpoint_ids (ensure_scan rt k' eo' now db)) eo'"
    using eo ensure_scan_ids(2) by (cases eo') auto
  then show ?thesis using save_findings_loop_schema [OF loop ensure_scan_schema [OF ok eo]] by (simp add: ensure_scan_ids)
qed

lemma upsert_collector_schema:
  assumes ok: "schema_ok db" and row: "cl_scan_id row \<in> scan_ids db" "cl_status row \<in> set collector_states"
  shows "schema_ok (upsert_collector row db)"
proof -
  let ?key = "\<lambda>c. (cl_scan_id c, cl_collector c)"
  have old: "collectors_ok (scan_ids db) (ld_collectors db)" using ok by (simp add: schema_ok_def)
  have "unique_by ?key (ld_collectors (upsert_collector row db))"
    using old unique_by_map [of "ld_collectors db" ?key "\<lambda>c. if ?key c = ?key row then row else c"]
    by (auto simp: upsert_collector_def collectors_ok_def list_ex_iff)
  then have "collectors_ok (scan_ids db) (ld_collectors (upsert_collector row db))"
    using old row by (auto simp: upsert_collector_def collectors_ok_def Let_def)
  then show ?thesis
    by (intro schema_grow [of db "upsert_collector row db"] ok) (auto simp: upsert_collector_def endpoint_ids_def scan_ids_def Let_def)
qed

lemma save_collector_schema:
  assumes "save_collector_status rt k c st d tv sa ca du now db = Inr db'" and ok: "schema_ok db"
  shows "schema_ok db'"
proof -
  obtain x xa xb xc where "xb \<in> set collector_states" and "db' = upsert_collector \<lparr> cl_scan_id = x, cl_collector = xa,
      cl_status = xb, cl_tool_version = tv, cl_started_at = sa, cl_completed_at = ca, cl_duration = real_column du,
      cl_details = xc \<rparr> (ensure_scan rt x None now db)"
    using assms(1) unfolding save_collector_status_def by (auto simp: ebind_Inr_iff split: if_splits)
  then show ?thesis using ok by (auto intro!: upsert_collector_schema ensure_scan_schema simp: ensure_scan_ids)
qed

text \<open>Snapshots and results.\<close>

lemma insert_snapshot_schema:
  assumes ok: "schema_ok db" and "e \<in> endpoint_ids db" and "k \<in> scan_ids db"
    and new: "find (\<lambda>r. ir_scan_id r = k) (ld_snapshots db) = None"
  shows "schema_ok (snd (insert_snapshot rt e k n sv pv sc now db))"
proof -
  let ?db = "snd (insert_snapshot rt e k n sv pv sc now db)"
  have ids: "endpoint_ids ?db = endpoint_ids db" "scan_ids ?db = scan_ids db"
    by (simp_all add: insert_snapshot_def Let_def endpoint_ids_def scan_ids_def)
  have "snapshots_ok (endpoint_ids db) (scan_ids db) (ld_payloads db) (ld_snapshots db)" using ok by (simp add: schema_ok_def)
  then have "snapshots_ok (endpoint_ids db) (scan_ids db) (ld_payloads ?db) (ld_snapshots ?db)"
    using assms(2,3) new
    by (auto simp: insert_snapshot_def Let_def snapshots_ok_def add_payload_hash find_None_iff)
  then show ?thesis
    by (intro schema_grow [of db ?db] ok) (auto simp: ids, auto simp: insert_snapshot_def Let_def)
qed

lemma store_snapshot_schema:
  assumes "store_snapshot rt e k snapshot sv pv sc now db = Inr (c, db')" and ok: "schema_ok db"
  shows "schema_ok db'"
proof -
  obtain e' k' sv' n where e': "lift_py (clean_identifier ''endpoint_id'' 256 (JStr e)) = Inr e'"
    and res: "(let db = ensure_scan rt k' (Some e') now (ensure_endpoint rt e' now db) in
      case find (\<lambda>r. ir_scan_id r = k') (ld_snapshots db) of
        Some existing \<Rightarrow>
          if ir_endpoint_id existing \<noteq> e' \<or> ir_payload_hash existing \<noteq> digest_text rt (JObj n)
          then Inl (IdempotencyConflictError ''scan_id was reused for a different inventory snapshot'')
          else Inr (deserialize_change existing e' k' db, db)
      | None \<Rightarrow> Inr (insert_snapshot rt e' k' n sv' pv sc now db)) = Inr (c, db')"
    using assms(1) unfolding store_snapshot_def ebind_Inr_iff by blast
  let ?db = "ensure_scan rt k' (Some e') now (ensure_endpoint rt e' now db)"
  have ne: "e' \<noteq> []" by (rule clean_nonempty [OF e'])
  then have base: "schema_ok ?db" by (intro ensure_scan_schema ensure_endpoint_schema ok) simp
  have "e' \<in> endpoint_ids ?db" "k' \<in> scan_ids ?db" using ne by (auto intro: ensure_scan_ids(2) simp: ensure_scan_ids(3))
  from insert_snapshot_schema [OF base this] show ?thesis
    using res base by (cases "find (\<lambda>r. ir_scan_id r = k') (ld_snapshots ?db)") (auto simp: Let_def split: if_splits, metis snd_conv)
qed

lemma insert_result_schema:
  assumes ok: "schema_ok db" and row: "refers (endpoint_ids db) (rs_endpoint_id row)" "rs_scan_id row \<in> scan_ids db"
    and new: "find (\<lambda>r. rs_scan_id r = rs_scan_id row) (ld_results db) = None"
  shows "schema_ok (snd (insert_result rt row d now db))"
proof -
  let ?db = "snd (insert_result rt row d now db)"
  have ids: "endpoint_ids ?db = endpoint_ids db" "scan_ids ?db = scan_ids db"
    by (simp_all add: insert_result_def Let_def endpoint_ids_def scan_ids_def)
  have "results_ok (endpoint_ids db) (scan_ids db) (ld_result_payloads db) (ld_results db) (ld_result_seq db)"
    using ok by (simp add: schema_ok_def)
  then have "results_ok (endpoint_ids db) (scan_ids db) (ld_result_payloads ?db) (ld_results ?db) (ld_result_seq ?db)"
    using row new
    by (fastforce simp: insert_result_def Let_def results_ok_def add_payload_hash find_None_iff)
  then show ?thesis
    by (intro schema_grow [of db ?db] ok) (auto simp: ids, auto simp: insert_result_def Let_def)
qed

lemma store_result_schema:
  assumes "store_normalized_result rt bind k result eo rtype target now db = Inr (i, db')" and ok: "schema_ok db"
  shows "schema_ok db'"
proof -
  obtain k' eo' ty sv st ser where eo: "clean_optional ''endpoint_id'' eo = Inr eo'"
    and body: "store_result_body rt bind \<lparr> rs_result_id = 0, rs_scan_id = k', rs_endpoint_id = eo', rs_result_type = ty,
      rs_target = None, rs_schema_version = sv, rs_scanner_version = None, rs_policy_version = None, rs_status = st,
      rs_payload_hash = rt_sha256 rt ser, rs_created_at = now, rs_updated_at = now \<rparr> result target
      (ensure_scan rt k' eo' now db) = Inr (i, db')"
    using assms(1) unfolding store_normalized_result_def ebind_Inr_iff by blast
  let ?db = "ensure_scan rt k' eo' now db"
  have ne: "eo' \<noteq> Some []" by (rule clean_optional_nonempty [OF eo])
  have base: "schema_ok ?db" by (rule ensure_scan_schema [OF ok ne])
  have refs: "refers (endpoint_ids ?db) eo'" using ne ensure_scan_ids(2) by (cases eo') auto
  show ?thesis
  proof (cases "find (\<lambda>r. rs_scan_id r = k') (ld_results ?db)")
    case None
    then obtain row d where "db' = snd (insert_result rt row d now ?db)" "rs_scan_id row = k'" "rs_endpoint_id row = eo'"
      using body unfolding store_result_body_def by (auto simp: ebind_Inr_iff simp del: ensure_scan_frame) (metis result_row.simps snd_conv)
    then show ?thesis using insert_result_schema [OF base] refs None by (simp add: ensure_scan_ids)
  next
    case (Some old)
    then show ?thesis using body base by (auto simp: store_result_body_def split: if_splits)
  qed
qed

section \<open>Retention and whole results\<close>

lemma prune_chunk_schema:
  assumes ok: "schema_ok db"
  shows "schema_ok (prune_chunk scans db)"
proof -
  let ?db = "prune_chunk scans db"
  have es: "endpoint_ids ?db = endpoint_ids db" by (simp add: prune_chunk_def endpoint_ids_def Let_def)
  have ss: "scan_ids ?db = scan_ids db - set scans" by (auto simp: prune_chunk_def scan_ids_def Let_def)
  have "unique_by ir_scan_id (map (make_full g) rows) = unique_by ir_scan_id rows" for g rows
    by (rule unique_by_map) simp
  then have "unique_by ir_scan_id (ld_snapshots ?db)"
    using ok by (simp add: prune_chunk_def Let_def schema_ok_def snapshots_ok_def unique_by_filter)
  moreover have "distinct (filter (\<lambda>k. k \<noteq> None) (map hs_idempotency_key (filter P hs)))"
    if "distinct (filter (\<lambda>k. k \<noteq> None) (map hs_idempotency_key hs))" for P hs
    using that by (induction hs) force+
  ultimately show ?thesis
    using ok unfolding schema_ok_def es ss jobs_ok_def snapshots_ok_def results_ok_def history_ok_def findings_ok_def collectors_ok_def
    by (auto simp: prune_chunk_def Let_def intro!: unique_by_filter)
qed

lemma prune_chunks_schema: "schema_ok db \<Longrightarrow> schema_ok (prune_chunks scans db)"
  by (induction scans db rule: prune_chunks.induct) (subst prune_chunks.simps, simp add: prune_chunk_schema)

lemma drop_payloads_schema:
  assumes ok: "schema_ok db"
  shows "schema_ok (drop_payloads db)"
proof -
  let ?db = "drop_payloads db"
  have ids: "endpoint_ids ?db = endpoint_ids db" "scan_ids ?db = scan_ids db"
    by (simp_all add: drop_payloads_def endpoint_ids_def scan_ids_def)
  have kept: "h \<in> K \<Longrightarrow> h \<in> py_hash ` set ps \<Longrightarrow> h \<in> py_hash ` {p \<in> set ps. py_hash p \<in> K}" for h K ps by auto
  have "snapshots_ok (endpoint_ids db) (scan_ids db) (ld_payloads db) (ld_snapshots db)"
    "results_ok (endpoint_ids db) (scan_ids db) (ld_result_payloads db) (ld_results db) (ld_result_seq db)"
    using ok by (simp_all add: schema_ok_def)
  then have "snapshots_ok (endpoint_ids db) (scan_ids db) (ld_payloads ?db) (ld_snapshots ?db)"
    "results_ok (endpoint_ids db) (scan_ids db) (ld_result_payloads ?db) (ld_results ?db) (ld_result_seq ?db)"
    by (auto simp: drop_payloads_def snapshots_ok_def results_ok_def unique_by_filter intro: kept)
  then show ?thesis
    by (intro schema_grow [of db ?db] ok) (auto simp: ids, auto simp: drop_payloads_def)
qed

lemma prune_cases:
  assumes "prune_completed_scan_records older_than mx prot limit rows db = Inr (n, db')"
  obtains selected where "db' = db \<or> db' = drop_payloads (prune_chunks selected db)"
  using assms unfolding prune_completed_scan_records_def ebind_Inr_iff Let_def
  by (simp only: split: if_split_asm) (auto simp: ebind_Inr_iff split: if_split_asm)

lemma prune_schema:
  "prune_completed_scan_records older_than mx prot limit rows db = Inr (n, db') \<Longrightarrow> schema_ok db \<Longrightarrow> schema_ok db'"
  by (erule prune_cases) (auto intro: drop_payloads_schema prune_chunks_schema)

lemma save_collectors_schema:
  "save_collectors rt tf k cs now db = Inr db' \<Longrightarrow> schema_ok db \<Longrightarrow> schema_ok db'"
  by (induction rt tf k cs now db rule: save_collectors.induct) (auto simp: ebind_Inr_iff intro: save_collector_schema)

text \<open>The states a saved result goes through.\<close>

lemma save_scan_result_steps:
  assumes "save_scan_result rt bind tf k eo result target clock db = Inr (change, db')"
  obtains i h inventory db1 db2 db3 db4 where
    "inventory_to_store eo result db = Inr inventory"
    "store_normalized_result rt bind k result eo (Some (result_text rt result ''scan_type'' ''ENDPOINT''))
       (optional_text rt (py_or (py_or (opt_json target) (jget ''target'' result)) (metadata_target result))) (clock 0) db = Inr (i, db1)"
    "save_inventory rt k eo result inventory (clock 1) db1 = Inr (change, db2)"
    "save_result_findings rt k eo result (clock 2) db2 = Inr db3"
    "(case jget_default (JObj []) ''collectors'' result of JObj cs \<Rightarrow> save_collectors rt tf k cs (clock 3) db3 | _ \<Rightarrow> Inr db3) = Inr db4"
    "append_scan_history rt k ''RESULT_STORED'' (Some (result_text rt result ''status'' ''SUCCESS'')) (stored_details result change)
       (Some (''result-stored:'' @ k)) None (clock 4) db4 = Inr (h, db')"
  using assms unfolding save_scan_result_def ebind_Inr_iff Let_def by (auto simp: ebind_Inr_iff split: prod.splits)

lemma save_inventory_schema: "save_inventory rt k eo result v now db = Inr (c, db') \<Longrightarrow> schema_ok db \<Longrightarrow> schema_ok db'"
  by (auto simp: save_inventory_def ebind_Inr_iff intro: store_snapshot_schema split: json.splits if_splits)

lemma save_result_findings_schema: "save_result_findings rt k eo result now db = Inr db' \<Longrightarrow> schema_ok db \<Longrightarrow> schema_ok db'"
  by (auto simp: save_result_findings_def Let_def ebind_Inr_iff intro: save_findings_schema split: if_splits prod.splits)

lemma save_scan_result_schema:
  assumes "save_scan_result rt bind tf k eo result target clock db = Inr (c, db')" and ok: "schema_ok db"
  shows "schema_ok db'"
  using assms(1)
proof (rule save_scan_result_steps)
  fix i h inventory db1 db2 db3 db4
  assume 1: "store_normalized_result rt bind k result eo (Some (result_text rt result ''scan_type'' ''ENDPOINT''))
       (optional_text rt (py_or (py_or (opt_json target) (jget ''target'' result)) (metadata_target result))) (clock 0) db = Inr (i, db1)"
    and 2: "save_inventory rt k eo result inventory (clock 1) db1 = Inr (c, db2)"
    and 3: "save_result_findings rt k eo result (clock 2) db2 = Inr db3"
    and 4: "(case jget_default (JObj []) ''collectors'' result of JObj cs \<Rightarrow> save_collectors rt tf k cs (clock 3) db3 | _ \<Rightarrow> Inr db3) = Inr db4"
    and 5: "append_scan_history rt k ''RESULT_STORED'' (Some (result_text rt result ''status'' ''SUCCESS'')) (stored_details result c)
       (Some (''result-stored:'' @ k)) None (clock 4) db4 = Inr (h, db')"
  have "schema_ok db3" using 1 2 3 ok store_result_schema save_inventory_schema save_result_findings_schema by metis
  then have "schema_ok db4" using 4 save_collectors_schema by (auto split: json.splits)
  then show "schema_ok db'" using 5 append_scan_history_schema by metis
qed

end
