(* ===== verification/Local_Steps.thy ===== *)
theory Local_Steps
  imports Local_Schema
begin

text \<open>
  The runs of the local tables under all their operations, and what holds in every state of a run: the
  snapshots are linked and complete (\<open>local_inv\<close>) and the declared constraints hold (\<open>schema_ok\<close>).
\<close>

section \<open>Operations that leave the snapshots alone\<close>

definition same_snapshots :: "local_db \<Rightarrow> local_db \<Rightarrow> bool" where
  "same_snapshots db db' \<longleftrightarrow> ld_payloads db' = ld_payloads db \<and> ld_snapshots db' = ld_snapshots db
     \<and> ld_snapshot_seq db' = ld_snapshot_seq db"

lemma same_snapshots_refl [simp]: "same_snapshots db db"
  by (simp add: same_snapshots_def)

lemma same_snapshots_trans [trans]: "same_snapshots db db' \<Longrightarrow> same_snapshots db' db'' \<Longrightarrow> same_snapshots db db''"
  by (simp add: same_snapshots_def)

lemma same_snapshots_inv: "same_snapshots db db' \<Longrightarrow> local_inv rt db' = local_inv rt db"
  by (rule local_inv_cong) (simp_all add: same_snapshots_def)

lemma same_snapshots_reads:
  assumes "same_snapshots db db'"
  shows "unmixed rt n db' = unmixed rt n db" "get_latest_snapshot e db' = get_latest_snapshot e db"
proof -
  have "payload_by_hash h db' = payload_by_hash h db" for h using assms by (simp add: same_snapshots_def payload_by_hash_def)
  then show "unmixed rt n db' = unmixed rt n db" "get_latest_snapshot e db' = get_latest_snapshot e db"
    using assms by (simp_all add: same_snapshots_def unmixed_def get_latest_snapshot_def latest_inventory_def cong: option.case_cong)
qed

lemma same_ensure_scan [simp]: "same_snapshots db (ensure_scan rt k eo now db)"
  by (simp add: same_snapshots_def)

lemma same_upserts [simp]:
  "same_snapshots db (put_endpoint row1 db)" "same_snapshots db (update_job k f db)"
  "same_snapshots db (upsert_finding row2 db)" "same_snapshots db (upsert_collector row3 db)"
  "same_snapshots db (snd (insert_history row4 db))"
  by (simp_all add: same_snapshots_def put_endpoint_def update_job_def upsert_finding_def upsert_collector_def
      insert_history_def Let_def)

lemma upsert_endpoint_same: "upsert_endpoint rt e state en ls g now db = Inr db' \<Longrightarrow> same_snapshots db db'"
  unfolding upsert_endpoint_def ebind_Inr_iff Let_def by auto

lemma create_scan_job_same: "create_scan_job rt bind v now db = Inr (b, db') \<Longrightarrow> same_snapshots db db'"
proof -
  assume "create_scan_job rt bind v now db = Inr (b, db')"
  then obtain job k eo ty st ts where body: "create_scan_job_body rt bind job k eo ty st ts db = Inr (b, db')"
    unfolding create_scan_job_def ebind_Inr_iff Let_def by (cases v; simp only: json.simps ebind_Inr_iff Let_def sum.simps) blast+
  define base where "base = (case eo of None \<Rightarrow> db | Some e \<Rightarrow> ensure_endpoint rt e ts db)"
  have "same_snapshots db base" by (simp add: base_def same_snapshots_def split: option.splits)
  moreover have "same_snapshots base db'"
    using body unfolding create_scan_job_body_def base_def [symmetric] Let_def
    by (auto simp: ebind_Inr_iff same_snapshots_def update_job_def split: option.splits if_splits)
  ultimately show ?thesis by (rule same_snapshots_trans)
qed

lemma update_scan_job_same: "update_scan_job env k st sa ca rs err now db = Inr db' \<Longrightarrow> same_snapshots db db'"
  unfolding update_scan_job_def ebind_Inr_iff Let_def by (auto split: if_splits)

lemma append_history_same: "append_history_body row db = Inr (i, db') \<Longrightarrow> same_snapshots db db'"
  using same_upserts(5) [of db row]
  by (cases "insert_history row db") (auto simp: append_history_body_def split: option.splits if_splits)

lemma append_scan_history_same: "append_scan_history rt k ev st d key ca now db = Inr (i, db') \<Longrightarrow> same_snapshots db db'"
  unfolding append_scan_history_def ebind_Inr_iff Let_def
  using same_snapshots_trans [OF same_ensure_scan append_history_same] by blast

lemma save_findings_loop_same: "save_findings_loop rt k eo now fs db = Inr db' \<Longrightarrow> same_snapshots db db'"
proof (induction rt k eo now fs db rule: save_findings_loop.induct)
  case (2 rt k eo now d fs db)
  then obtain row where "same_snapshots (upsert_finding row db) db'" by (auto simp: ebind_Inr_iff)
  with same_upserts(3) show ?case by (rule same_snapshots_trans)
qed simp_all

lemma save_findings_same: "save_findings rt k eo fs now db = Inr (n, db') \<Longrightarrow> same_snapshots db db'"
  unfolding save_findings_def ebind_Inr_iff using same_snapshots_trans [OF same_ensure_scan save_findings_loop_same] by blast

lemma save_collector_same: "save_collector_status rt k c st d tv sa ca du now db = Inr db' \<Longrightarrow> same_snapshots db db'"
  unfolding save_collector_status_def
  by (auto simp: ebind_Inr_iff split: if_splits intro: same_snapshots_trans [OF same_ensure_scan same_upserts(4)])

lemma save_collectors_same: "save_collectors rt tf k cs now db = Inr db' \<Longrightarrow> same_snapshots db db'"
proof (induction rt tf k cs now db rule: save_collectors.induct)
  case (2 rt tf k name c cs now db)
  then show ?case using save_collector_same same_snapshots_trans by (auto simp: ebind_Inr_iff) blast
qed simp_all

lemma store_result_same:
  assumes "store_normalized_result rt bind k result e rtype target now db = Inr (i, db')"
  shows "same_snapshots db db'"
proof -
  obtain row k' e' where "store_result_body rt bind row result target (ensure_scan rt k' e' now db) = Inr (i, db')"
    using assms unfolding store_normalized_result_def ebind_Inr_iff by blast
  from store_result_body_same [OF this] show ?thesis by (simp add: same_snapshots_def)
qed

lemma save_result_findings_same: "save_result_findings rt k eo result now db = Inr db' \<Longrightarrow> same_snapshots db db'"
  by (auto simp: save_result_findings_def Let_def ebind_Inr_iff dest: save_findings_same split: if_splits prod.splits)

text \<open>A saved result changes the snapshots as the stored inventory does.\<close>

lemma save_scan_result_snapshots:
  assumes "save_scan_result rt bind tf k eo result target clock db = Inr (c, db')"
  obtains inventory db1 db2 where "inventory_to_store eo result db = Inr inventory" "same_snapshots db db1"
    "save_inventory rt k eo result inventory (clock 1) db1 = Inr (c, db2)" "same_snapshots db2 db'"
  using assms
proof (rule save_scan_result_steps)
  fix i h inventory db1 db2 db3 db4
  assume 0: "inventory_to_store eo result db = Inr inventory"
    and 1: "store_normalized_result rt bind k result eo (Some (result_text rt result ''scan_type'' ''ENDPOINT''))
       (optional_text rt (py_or (py_or (opt_json target) (jget ''target'' result)) (metadata_target result))) (clock 0) db = Inr (i, db1)"
    and 2: "save_inventory rt k eo result inventory (clock 1) db1 = Inr (c, db2)"
    and 3: "save_result_findings rt k eo result (clock 2) db2 = Inr db3"
    and 4: "(case jget_default (JObj []) ''collectors'' result of JObj cs \<Rightarrow> save_collectors rt tf k cs (clock 3) db3 | _ \<Rightarrow> Inr db3) = Inr db4"
    and 5: "append_scan_history rt k ''RESULT_STORED'' (Some (result_text rt result ''status'' ''SUCCESS'')) (stored_details result c)
       (Some (''result-stored:'' @ k)) None (clock 4) db4 = Inr (h, db')"
  have "same_snapshots db3 db4" using 4 save_collectors_same by (auto split: json.splits)
  with 3 5 have "same_snapshots db2 db'"
    by (meson save_result_findings_same append_scan_history_same same_snapshots_trans)
  with that [OF 0 store_result_same [OF 1] 2] show thesis by blast
qed

section \<open>Well-formed inventories\<close>

lemma set_defaults_sub: "set (set_defaults d kvs) \<subseteq> set d \<union> set kvs"
proof (induction d kvs rule: set_defaults.induct)
  case (2 d k v kvs)
  then show ?case by (cases "dict_has k d") auto
qed simp

lemma dict_ok_set_defaults: "dict_ok d \<Longrightarrow> dict_ok (set_defaults d kvs)"
proof (induction d kvs rule: set_defaults.induct)
  case (2 d k v kvs)
  then show ?case by (cases "dict_has k d") (auto simp: dict_ok_def dict_has_def map_of_eq_None_iff)
qed simp

lemma set_dict_set_subset: "set (dict_set k v d) \<subseteq> insert (k, v) (set d)"
  unfolding dict_set_def by (induction d) auto

lemma json_wf_current:
  assumes "json_wf (JObj d)" and "case p of None \<Rightarrow> True | Some d' \<Rightarrow> json_wf (JObj d')"
  shows "json_wf (JObj (current_inventory observed d p))"
proof -
  let ?c = "filter (\<lambda>kv. fst kv \<in> set observed \<or> fst kv = ''endpoint'') d"
  let ?i = "case p of None \<Rightarrow> ?c | Some p \<Rightarrow> set_defaults ?c (carried_over observed p)"
  have c: "dict_ok ?c" using assms(1) by (simp add: dict_ok_def distinct_map_filter)
  then have ok: "dict_ok ?i" by (auto simp: dict_ok_set_defaults split: option.splits)
  have "\<forall>kv \<in> set ?i. json_wf (snd kv)"
    using assms set_defaults_sub [of ?c] by (fastforce simp: carried_over_def split: option.splits)
  moreover have "json_wf (completeness observed)" by (auto simp: completeness_def dict_ok_def)
  ultimately show ?thesis
    using ok set_dict_set_subset [of "''collection_completeness''" "completeness observed" ?i]
    by (fastforce simp: current_inventory_def Let_def intro!: dict_ok_set)
qed

lemma json_wf_inventory:
  assumes "inventory_to_store eo result db = Inr (JObj d)" and "json_wf (JObj result)" and inv: "local_inv rt db"
  shows "json_wf (JObj d)"
proof -
  have res: "json_wf (result_inventory result)"
    using assms(2) json_wf_get [OF assms(2), of "''inventory''"]
    by (auto simp: result_inventory_def jget_def dict_ok_def distinct_map_filter split: option.splits)
  show ?thesis
  proof (cases "observed_sections result")
    case None
    then show ?thesis using assms(1) res by (auto simp: inventory_to_store_def simp del: json_wf.simps split: json.splits)
  next
    case (Some observed)
    then obtain i l where i: "result_inventory result = JObj i" and d: "d = current_inventory observed i (map_option snd l)"
      and l: "(if given eo then get_latest_snapshot (the eo) db else Inr None) = Inr l"
      using assms(1) by (auto simp: inventory_to_store_def ebind_Inr_iff simp del: json_wf.simps split: json.splits)
    have "case map_option snd l of None \<Rightarrow> True | Some p \<Rightarrow> json_wf (JObj p)"
    proof (cases l)
      case (Some rp)
      then have "payload_by_hash (ir_payload_hash (fst rp)) db = Some (snd rp)"
        using l by (auto simp: get_latest_snapshot_def ebind_Inr_iff simp del: json_wf.simps split: if_splits option.splits)
      then show ?thesis using payload_by_hash_ok [of db rt] inv Some by (auto simp: local_inv_def simp del: json_wf.simps)
    qed simp
    then show ?thesis using json_wf_current res unfolding i d by blast
  qed
qed

lemma save_inventory_inv:
  assumes "save_inventory rt k eo result inventory now db = Inr (c, db')" and "local_inv rt db"
    and "\<And>d. inventory = JObj d \<Longrightarrow> json_wf (JObj d) \<and> unmixed rt (normalize_sections rt d) db"
  shows "local_inv rt db'"
  using assms
  by (auto simp: save_inventory_def ebind_Inr_iff simp del: json_wf.simps intro: store_snapshot_inv split: json.splits if_splits)

lemma save_scan_result_inv:
  assumes "save_scan_result rt bind tf k eo result target clock db = Inr (c, db')" and inv: "local_inv rt db"
    and wf: "json_wf (JObj result)"
    and un: "\<And>d. inventory_to_store eo result db = Inr (JObj d) \<Longrightarrow> unmixed rt (normalize_sections rt d) db"
  shows "local_inv rt db'"
  using assms(1)
proof (rule save_scan_result_snapshots)
  fix inventory db1 db2
  assume a: "inventory_to_store eo result db = Inr inventory" and b: "same_snapshots db db1"
    and s: "save_inventory rt k eo result inventory (clock 1) db1 = Inr (c, db2)" and c: "same_snapshots db2 db'"
  have "local_inv rt db2"
    using json_wf_inventory [OF _ wf inv] un a same_snapshots_reads(1) [OF b] same_snapshots_inv [OF b] inv
    by (intro save_inventory_inv [OF s]) auto
  then show "local_inv rt db'" using same_snapshots_inv [OF c] by simp
qed

section \<open>Runs\<close>

inductive local_step :: "runtime \<Rightarrow> local_db \<Rightarrow> local_db \<Rightarrow> bool" for rt where
  step_endpoint: "upsert_endpoint rt e state en ls g now db = Inr db' \<Longrightarrow> local_step rt db db'"
| step_job: "create_scan_job rt bind v now db = Inr (b, db') \<Longrightarrow> local_step rt db db'"
| step_update: "update_scan_job env k st sa ca rs err now db = Inr db' \<Longrightarrow> local_step rt db db'"
| step_history: "append_scan_history rt k ev sto d key ca now db = Inr (i, db') \<Longrightarrow> local_step rt db db'"
| step_findings: "save_findings rt k eo fs now db = Inr (n, db') \<Longrightarrow> local_step rt db db'"
| step_collector: "save_collector_status rt k c st d tv sa ca du now db = Inr db' \<Longrightarrow> local_step rt db db'"
| step_store: "store_snapshot rt e k snapshot schema policy scanner now db = Inr (ch, db') \<Longrightarrow> json_wf (JObj snapshot) \<Longrightarrow>
    unmixed rt (normalize_sections rt snapshot) db \<Longrightarrow> local_step rt db db'"
| step_result: "store_normalized_result rt bind k result eo rtype target now db = Inr (i, db') \<Longrightarrow> local_step rt db db'"
| step_save: "save_scan_result rt bind tf k eo result target clock db = Inr (cho, db') \<Longrightarrow> json_wf (JObj result) \<Longrightarrow>
    (\<And>d. inventory_to_store eo result db = Inr (JObj d) \<Longrightarrow> unmixed rt (normalize_sections rt d) db) \<Longrightarrow> local_step rt db db'"
| step_prune: "prune_completed_scan_records older_than mx prot limit rows db = Inr (n, db') \<Longrightarrow> local_step rt db db'"

lemmas local_same = upsert_endpoint_same create_scan_job_same update_scan_job_same append_scan_history_same
  save_findings_same save_collector_same store_result_same

lemmas local_schema = upsert_endpoint_schema create_scan_job_schema update_scan_job_schema append_scan_history_schema
  save_findings_schema save_collector_schema store_snapshot_schema store_result_schema save_scan_result_schema prune_schema

lemma local_inv_step: "local_step rt db db' \<Longrightarrow> local_inv rt db \<Longrightarrow> local_inv rt db'"
proof (induction rule: local_step.induct)
  case (step_save bind tf k eo result target clock db cho db')
  then show ?case using save_scan_result_inv by blast
qed (simp_all add: local_same [THEN same_snapshots_inv] store_snapshot_inv prune_inv del: json_wf.simps)

lemma schema_step: "local_step rt db db' \<Longrightarrow> schema_ok db \<Longrightarrow> schema_ok db'"
  by (induction rule: local_step.induct) (erule (1) local_schema)+

interpretation local_store: inductive_invariant "\<lambda>db. db = empty_db" "local_step rt" "\<lambda>db. local_inv rt db \<and> schema_ok db" for rt
proof unfold_locales
  show "db = empty_db \<Longrightarrow> local_inv rt db \<and> schema_ok db" for db by (simp add: schema_empty local_inv_def) (simp add: empty_db_def)
qed (blast intro: local_inv_step schema_step)

lemma local_run_inv: "(local_step rt)\<^sup>*\<^sup>* empty_db db \<Longrightarrow> local_inv rt db"
  using local_store.inv_steps local_store.inv_initial by blast

end
