(* ===== verification/Sync_Properties.thy ===== *)
theory Sync_Properties
  imports Local_Steps Cloud_Demo
begin

text \<open>
  The synchronisation of inventories from the local tables to the cloud: what the endpoint writes for a
  stored snapshot is what the cloud reconstructs, provided the cloud holds the snapshot before it.
\<close>

section \<open>Canonical form and the measures\<close>

lemma json_nodes_canon [simp]: "json_nodes (canon v) = json_nodes v"
proof (induction v rule: json_induct)
  case (JArr xs)
  then show ?case by (simp add: o_def cong: map_cong)
next
  case (JObj d)
  have "sum_list (map (\<lambda>kv. json_nodes (snd kv)) (sort_key fst (map_values canon d)))
      = sum_list (map (\<lambda>kv. json_nodes (snd kv)) (map_values canon d))"
    unfolding sum_mset_sum_list [symmetric] mset_map mset_sort ..
  also have "\<dots> = sum_list (map (\<lambda>kv. json_nodes (snd kv)) d)"
    unfolding map_values_def map_map using JObj by (intro arg_cong [where f = sum_list] map_cong) (auto simp: o_def)
  finally show ?case by simp
qed simp_all

lemma json_all_canon [simp]: "json_all (cloud_node_ok md) n (canon v) = json_all (cloud_node_ok md) n v"
  by (induction v arbitrary: n rule: json_induct) (auto simp: set_map_values)

lemma canon_scalar [simp]:
  "numeric (canon v) = numeric v" "canon v = JNull \<longleftrightarrow> v = JNull" "canon v = JStr s \<longleftrightarrow> v = JStr s"
  by (cases v; simp)+

lemma py_eq_canon: "json_wf w \<Longrightarrow> py_eq v (canon w) = py_eq v w"
proof (induction v arbitrary: w rule: json_induct)
  case (JArr xs)
  show ?case
  proof (cases w)
    case (JArr ys)
    have "list_all2 py_eq xs (map canon ys) = list_all2 py_eq xs ys"
      using JArr.IH JArr.prems unfolding JArr list_all2_map2 by (intro list.rel_cong_simp) (auto simp: simp_implies_def)
    then show ?thesis by (simp add: JArr py_eq_list_iff)
  qed auto
next
  case (JObj d)
  show ?case
  proof (cases w)
    case (JObj e)
    then have "(\<exists>u. dict_get (sort_key fst (map_values canon e)) k = Some u \<and> py_eq v u) \<longleftrightarrow> (\<exists>u. dict_get e k = Some u \<and> py_eq v u)"
      if "(k, v) \<in> set d" for k v
      using JObj.IH [OF that] JObj.prems json_wf_get [of e k] by auto
    then have "(\<forall>(k, v) \<in> set d. \<exists>u. dict_get (sort_key fst (map_values canon e)) k = Some u \<and> py_eq v u)
        \<longleftrightarrow> (\<forall>(k, v) \<in> set d. \<exists>u. dict_get e k = Some u \<and> py_eq v u)"
      by (intro ball_cong) auto
    then show ?thesis by (simp add: JObj py_eq_dict_iff)
  qed auto
qed simp_all

section \<open>What the cloud accepts\<close>

definition sha_hex :: "runtime \<Rightarrow> bool" where
  "sha_hex rt \<longleftrightarrow> (\<forall>s. length (rt_sha256 rt s) = 64 \<and> (\<forall>c \<in> set (rt_sha256 rt s). lower_hex_digit c))"

text \<open>Content within the limits of the cloud.\<close>

definition fits :: "runtime \<Rightarrow> jobj \<Rightarrow> bool" where
  "fits rt d \<longleftrightarrow> json_all (cloud_node_ok 32) 0 (JObj d) \<and> json_nodes (JObj d) \<le> max_inventory_nodes
     \<and> json_finite (JObj d) \<and> length d \<le> max_inventory_sections \<and> utf8_length (dumps rt (JObj d)) \<le> max_reconstructed_bytes
     \<and> list_all section_name_ok (map fst d)"

text \<open>Any object with the content of a stored snapshot is accepted with its digest.\<close>

lemma bounded_snapshot_content:
  assumes "canon_obj e = d" and "normalize_sections rt d = d" and "fits rt d"
  shows "bounded_snapshot rt (JObj e) = Inr (normalize_sections rt e) \<and> canon_obj (normalize_sections rt e) = d
    \<and> snapshot_hash rt (normalize_sections rt e) = Inr (digest_text rt (JObj d))"
proof -
  let ?n = "normalize_sections rt e"
  have c: "canon (JObj e) = JObj d" using assms(1) by (simp add: canon_JObj del: canon.simps)
  have n: "canon_obj ?n = d" using assms(1,2) normalize_sections_canon [of rt e] by simp
  then have cn: "canon (JObj ?n) = JObj d" by (simp add: canon_JObj del: canon.simps)
  have fin: "json_finite (JObj ?n)" using json_finite_canon [of "JObj ?n"] assms(3) unfolding cn fits_def by blast
  have ser: "dumps rt (JObj ?n) = dumps rt (JObj d)" using dumps_canon [of rt "JObj ?n"] unfolding cn by simp
  have len: "length ?n = length d" using n by (auto simp: canon_obj_def)
  have "cloud_bounded_json 32 max_inventory_nodes (JObj e) = Inr (JObj e)"
    using assms(3) json_nodes_canon [of "JObj e"] json_all_canon [of 32 0 "JObj e"]
    unfolding cloud_bounded_json_iff c fits_def by simp
  moreover have "snapshot_hash rt ?n = Inr (digest_text rt (JObj d))"
    using fin by (simp add: snapshot_hash_Inr digest_text_def ser del: json_finite.simps dumps.simps)
  ultimately show ?thesis
    using fin n assms(3) len
    by (simp add: bounded_snapshot_def normalize_snapshot_def canonical_json_def ser fits_def del: json_finite.simps dumps.simps)
qed

lemma inventory_digest_hash: "sha_hex rt \<Longrightarrow> inventory_digest (JStr (digest_text rt v)) f nullable = Inr (Some (digest_text rt v))"
  by (simp add: inventory_digest_def sha_hex_def digest_text_def)

section \<open>A delta against its base\<close>

text \<open>Python calls no two different values of the two snapshots equal.\<close>

definition sharp :: "jobj \<Rightarrow> jobj \<Rightarrow> bool" where
  "sharp b d \<longleftrightarrow> list_all (\<lambda>(k, v). case dict_get d k of None \<Rightarrow> True | Some w \<Rightarrow> py_eq v w \<longrightarrow> v = w) b"

lemma dict_get_pop_all: "dict_get (dict_pop_all ks d) k = (if k \<in> set ks then None else dict_get d k)"
  by (induction ks d rule: dict_pop_all.induct) auto

lemma dict_ok_pop_all: "dict_ok d \<Longrightarrow> dict_ok (dict_pop_all ks d)"
  by (induction ks d rule: dict_pop_all.induct) auto

lemma compare_sections:
  "map sc_section (compare_snapshots rt (Some b) n)
    = filter (\<lambda>sec. \<not> section_unchanged b n sec) (sort (remdups (map fst b @ map fst n)))"
proof -
  have "sc_section (section_delta rt b n sec) = sec" for sec
    by (simp add: section_delta_def split: prod.split)
  then show ?thesis by (simp add: compare_snapshots_def comp_def)
qed

lemma unchanged_same:
  assumes "sharp b d" and "json_wf (JObj n)" and "canon_obj n = d" and "dict_ok b" and "section_unchanged b n sec"
  shows "dict_get b sec = dict_get d sec"
proof -
  obtain v w where vw: "dict_get b sec = Some v" "dict_get n sec = Some w" "py_eq v w"
    using assms(5) by (auto simp: section_unchanged_def dict_has_iff jget_def)
  have d: "dict_get d sec = Some (canon w)" using vw(2) assms(2,3) by (metis dict_get_canon_obj json_wf.simps(2) option.map(2))
  have "py_eq v (canon w)" using vw(2,3) py_eq_canon json_wf_get [OF assms(2)] by blast
  moreover have "(sec, v) \<in> set b" using vw(1) dict_get_mem [OF assms(4)] by blast
  ultimately show ?thesis using assms(1) vw(1) d by (auto simp: sharp_def list_all_iff)
qed

lemma delta_sections_get:
  assumes "distinct (map sc_section changes)"
  shows "dict_ok (delta_sections changes d)"
    and "dict_get (delta_sections changes d) k = (if k \<in> set (map sc_section changes) then dict_get d k else None)"
proof -
  have "dict_ok [(sec, v). sec \<leftarrow> ss, v \<leftarrow> (case dict_get d sec of None \<Rightarrow> [] | Some v \<Rightarrow> [v])]
      \<and> fst ` set [(sec, v). sec \<leftarrow> ss, v \<leftarrow> (case dict_get d sec of None \<Rightarrow> [] | Some v \<Rightarrow> [v])] \<subseteq> set ss
      \<and> dict_get [(sec, v). sec \<leftarrow> ss, v \<leftarrow> (case dict_get d sec of None \<Rightarrow> [] | Some v \<Rightarrow> [v])] k
        = (if k \<in> set ss then dict_get d k else None)" if "distinct ss" for ss
    using that
  proof (induction ss)
    case (Cons sec ss)
    then show ?case
      by (cases "dict_get d sec") (auto simp: dict_ok_def dict_get_Cons)
  qed (simp add: dict_ok_def)
  from this [OF assms] show "dict_ok (delta_sections changes d)"
    and "dict_get (delta_sections changes d) k = (if k \<in> set (map sc_section changes) then dict_get d k else None)"
    unfolding delta_sections_def by blast+
qed

lemma delta_content:
  assumes n: "json_wf (JObj n)" "canon_obj n = d" and changes: "changes = compare_snapshots rt (Some b) n"
    and m: "dict_ok m" "canon_obj m = b" and sharp: "sharp b d"
  shows "canon_obj (dict_pop_all (removed_sections changes d) (dict_update m (delta_sections changes d))) = d"
proof -
  let ?r = "dict_pop_all (removed_sections changes d) (dict_update m (delta_sections changes d))"
  have ok: "dict_ok b" "dict_ok n" using m n by (auto simp: canon_obj_def)
  have dist: "distinct (map sc_section changes)" unfolding changes compare_sections by simp
  note sections = delta_sections_get [OF dist, of d]
  have mem: "sec \<in> set (map sc_section changes) \<longleftrightarrow> (dict_has sec b \<or> dict_has sec n) \<and> \<not> section_unchanged b n sec" for sec
    unfolding changes compare_sections by (auto simp: dict_has_def map_of_eq_None_iff)
  have canon_d: "canon_obj d = d" using n(2) by auto
  have dn: "dict_get d k = map_option canon (dict_get n k)" for k using dict_get_canon_obj [OF ok(2)] n(2) by blast
  have bm: "dict_get b k = map_option canon (dict_get m k)" for k using dict_get_canon_obj [OF m(1)] m(2) by blast
  have "map_option canon (dict_get ?r k) = map_option canon (dict_get d k)" for k
  proof (cases "k \<in> set (map sc_section changes)")
    case True
    then show ?thesis
      by (auto simp: dict_get_pop_all removed_sections_def dict_get_update [OF sections(1)] sections(2) dict_has_iff
          simp del: set_map split: option.splits)
  next
    case False
    then have "dict_get ?r k = dict_get m k"
      by (auto simp: dict_get_pop_all removed_sections_def dict_get_update [OF sections(1)] sections(2) simp del: set_map)
    moreover have "dict_get b k = dict_get d k"
    proof (cases "dict_has k b \<or> dict_has k n")
      case True
      then show ?thesis using False mem unchanged_same [OF sharp n ok(1)] by blast
    next
      case False
      then show ?thesis by (simp add: dict_has_iff dn)
    qed
    ultimately show ?thesis by (simp add: dn bm option.map_comp comp_def)
  qed
  moreover have "dict_ok ?r" using m(1) by (intro dict_ok_pop_all dict_ok_update)
  moreover have "dict_ok d" using ok(2) n(2) by (auto simp: canon_obj_def)
  ultimately show ?thesis using canon_obj_eqI [of ?r d] canon_d by simp
qed

section \<open>From the endpoint to the cloud\<close>

lemma envelope_get [simp]:
  "dict_get (sync_envelope row db @ xs) ''snapshot_hash'' = Some (JStr (ir_payload_hash row))"
  "dict_get (sync_envelope row db @ xs) ''previous_hash'' = Some (opt_json (previous_hash_of row db))"
  "dict_get (sync_envelope row db @ xs) ''mode'' = dict_get xs ''mode''"
  "dict_get (sync_envelope row db @ xs) ''snapshot'' = dict_get xs ''snapshot''"
  "dict_get (sync_envelope row db @ xs) ''sections'' = dict_get xs ''sections''"
  "dict_get (sync_envelope row db @ xs) ''removed_sections'' = dict_get xs ''removed_sections''"
  "dict_get (sync_envelope row db @ xs) ''reconstructed_snapshot'' = dict_get xs ''reconstructed_snapshot''"
  by (simp_all add: sync_envelope_def dict_get_Cons dict_get_append)

text \<open>The cloud holds a stored snapshot: its digest, and its content up to the order of keys.\<close>

definition cloud_holds :: "local_db \<Rightarrow> inventory_row \<Rightarrow> inventory_state \<Rightarrow> bool" where
  "cloud_holds db row iv \<longleftrightarrow> iv_snapshot_hash iv = ir_payload_hash row \<and> dict_ok (iv_snapshot iv)
     \<and> payload_by_hash (ir_payload_hash row) db = Some (canon_obj (iv_snapshot iv))"

lemma reconstruct_envelope:
  assumes "sha_hex rt" and "local_inv rt db" and "row \<in> set (ld_snapshots db)"
    and "dict_get xs ''reconstructed_snapshot'' = None" and "dict_get xs ''mode'' = Some mode"
    and "mode \<in> {JStr ''full'', JStr ''delta'', JStr ''unchanged''}"
    and "previous_hash_of row db = None \<or> (\<exists>v. previous_hash_of row db = Some (digest_text rt v))"
    and "reconstruct_snapshot rt mode (sync_envelope row db @ xs) (ir_payload_hash row) (previous_hash_of row db) cur = Inr sn"
    and "payload_by_hash (ir_payload_hash row) db = Some (canon_obj sn)" and "dict_ok sn"
  shows "\<exists>sync' iv. reconstruct_inventory rt t e k (JObj (sync_envelope row db @ xs)) cur now = Inr (sync', iv) \<and> cloud_holds db row iv"
proof -
  obtain v where h: "ir_payload_hash row = digest_text rt v"
    using assms(2,9) payload_by_hash_ok unfolding local_inv_def by blast
  have "inventory_mode (sync_envelope row db @ xs) = Inr mode"
    using assms(5,6) by (auto simp: inventory_mode_def jget_def)
  moreover have "inventory_digest (jget ''snapshot_hash'' (sync_envelope row db @ xs)) ''snapshot_hash'' False = Inr (Some (ir_payload_hash row))"
    using inventory_digest_hash [OF assms(1), of v] by (simp add: jget_def h)
  moreover have "inventory_digest (jget ''previous_hash'' (sync_envelope row db @ xs)) ''previous_hash'' True = Inr (previous_hash_of row db)"
    using assms(7) inventory_digest_hash [OF assms(1)] by (auto simp: jget_def opt_json_def inventory_digest_def [of JNull])
  moreover have "\<not> dict_has ''reconstructed_snapshot'' (sync_envelope row db @ xs)" by (simp add: dict_has_iff assms(4))
  ultimately show ?thesis
    using assms(8-10) by (auto simp: reconstruct_inventory_def Let_def cloud_holds_def)
qed

lemma content_facts:
  assumes "local_inv rt db" and "payload_by_hash h db = Some d"
  shows "dict_ok d" "canon_obj d = d" "normalize_sections rt d = d" "h = digest_text rt (JObj d)"
  using payload_by_hash_ok [of db rt h d] assms by (auto simp: local_inv_def)

lemma previous_hash_row:
  assumes "local_inv rt db" and "q \<in> set (ld_snapshots db)" and "ir_previous row = Some (ir_snapshot_id q)"
  shows "previous_hash_of row db = Some (ir_payload_hash q)"
  using inventory_by_id_iff [OF assms(1), of "ir_snapshot_id q" q] assms(2,3) by (simp add: previous_hash_of_def)

lemma accept_full:
  assumes "local_inv rt db" and "payload_by_hash (ir_payload_hash row) db = Some d" and "fits rt d" and "previous_hash_of row db = None"
  shows "\<exists>sn. reconstruct_snapshot rt (JStr ''full'') (sync_envelope row db @ [(''mode'', JStr ''full''), (''snapshot'', JObj d)])
      (ir_payload_hash row) (previous_hash_of row db) cur = Inr sn \<and> dict_ok sn \<and> canon_obj sn = d"
  using bounded_snapshot_content [of d d rt] content_facts [OF assms(1,2)] assms(3,4) dict_ok_normalize [of d rt]
  by (simp add: reconstruct_snapshot_def reconstruct_full_def dict_has_iff jget_def dict_get_Cons cloud_snapshot_hash_def)

lemma accept_unchanged:
  assumes "local_inv rt db" and "cur = Some iv" and "cloud_holds db q iv" and "canon_obj (iv_snapshot iv) = d"
    and "payload_by_hash (ir_payload_hash row) db = Some d" and "previous_hash_of row db = Some (ir_payload_hash q)"
  shows "\<exists>sn. reconstruct_snapshot rt (JStr ''unchanged'') (sync_envelope row db @ [(''mode'', JStr ''unchanged'')])
      (ir_payload_hash row) (previous_hash_of row db) cur = Inr sn \<and> dict_ok sn \<and> canon_obj sn = d"
proof -
  have "ir_payload_hash q = ir_payload_hash row"
    using content_facts(4) [OF assms(1)] assms(3-5) by (metis cloud_holds_def)
  then show ?thesis using assms
    by (simp add: reconstruct_snapshot_def reconstruct_unchanged_def cloud_holds_def dict_has_iff dict_get_Cons)
qed

lemma delta_count: "distinct (map sc_section changes) \<Longrightarrow>
  length (delta_sections changes d) + length (removed_sections changes d) = length changes"
proof -
  have "length [(sec, v). sec \<leftarrow> ss, v \<leftarrow> (case dict_get d sec of None \<Rightarrow> [] | Some v \<Rightarrow> [v])]
      + length (filter (\<lambda>sec. \<not> dict_has sec d) ss) = length ss" for ss
    by (induction ss) (auto simp: dict_has_iff split: option.splits)
  then show ?thesis unfolding delta_sections_def removed_sections_def by (metis length_map)
qed

lemma delta_names_strings: "list_all section_name_ok xs \<Longrightarrow> delta_names (map JStr xs) = Some xs"
  by (auto simp: delta_names_def list_all_iff comp_def)

lemma accept_delta:
  fixes row cur
  defines "changes \<equiv> ir_changes row"
  assumes inv: "local_inv rt db" and d: "payload_by_hash (ir_payload_hash row) db = Some d" and fits: "fits rt d"
    and iv: "cur = Some iv" "cloud_holds db q iv" "canon_obj (iv_snapshot iv) = b" "sharp b d" "list_all section_name_ok (map fst b)"
    and q: "previous_hash_of row db = Some (ir_payload_hash q)"
    and n: "json_wf (JObj n)" "canon_obj n = d" "changes = compare_snapshots rt (Some b) n" "changes \<noteq> []"
    and count: "length changes \<le> max_inventory_sections"
  shows "\<exists>sn. reconstruct_snapshot rt (JStr ''delta'') (sync_envelope row db @ [(''mode'', JStr ''delta''), (''changes'', cs),
      (''sections'', JObj (delta_sections changes d)), (''removed_sections'', JArr (map JStr (removed_sections changes d)))])
      (ir_payload_hash row) (previous_hash_of row db) cur = Inr sn \<and> dict_ok sn \<and> canon_obj sn = d"
proof -
  let ?s = "delta_sections changes d" and ?r = "removed_sections changes d"
  let ?e = "dict_pop_all ?r (dict_update (iv_snapshot iv) ?s)"
  have dist: "distinct (map sc_section changes)" unfolding n(3) compare_sections by simp
  have m: "dict_ok (iv_snapshot iv)" using iv(2) by (simp add: cloud_holds_def)
  have content: "canon_obj ?e = d" by (rule delta_content [OF n(1,2,3) m iv(3,4)])
  note facts = content_facts [OF inv d]
  have ok: "dict_ok ?e" using m by (intro dict_ok_pop_all dict_ok_update)
  have dn: "fst ` set d = fst ` set n" unfolding n(2) [symmetric] by (simp add: canon_obj_def set_map_values image_image)
  have keys: "k \<in> fst ` set b \<or> k \<in> fst ` set d" if "k \<in> set (map sc_section changes)" for k
    using that unfolding n(3) compare_sections dn by simp
  then have named: "section_name_ok k" if "k \<in> set (map sc_section changes)" for k
  proof -
    have "k \<in> fst ` set b \<Longrightarrow> section_name_ok k" using iv(5) by (auto simp: list_all_iff)
    moreover have "k \<in> fst ` set d \<Longrightarrow> section_name_ok k" using fits by (auto simp: fits_def list_all_iff)
    ultimately show ?thesis using keys [OF that] by blast
  qed
  have "list_all section_name_ok ?r" using named by (auto simp: removed_sections_def list_all_iff)
  then have names: "delta_names (map JStr ?r) = Some ?r" by (rule delta_names_strings)
  have sections: "\<forall>kv \<in> set ?s. section_name_ok (fst kv)" using named by (auto simp: delta_sections_def)
  have apart: "\<not> (\<exists>k \<in> set ?r. dict_has k ?s)"
    by (auto simp: removed_sections_def dict_has_iff delta_sections_get(2) [OF dist])
  have some: "\<not> (?s = [] \<and> ?r = [])" using delta_count [OF dist, of d] n(4) by auto
  have "distinct ?r" using dist by (simp add: removed_sections_def)
  then have "reconstruct_delta rt (sync_envelope row db @ [(''mode'', JStr ''delta''), (''changes'', cs), (''sections'', JObj ?s),
      (''removed_sections'', JArr (map JStr ?r))]) (ir_payload_hash row) (previous_hash_of row db) cur = Inr (normalize_sections rt ?e)"
    using bounded_snapshot_content [OF content facts(3) fits] names sections apart some count delta_count [OF dist, of d] iv(1,2) q facts(4)
    by (simp add: reconstruct_delta_def cloud_holds_def dict_has_iff [of "''snapshot''"] dict_get_Cons jget_default_def
        cloud_snapshot_hash_def Let_def)
  then show ?thesis
    using bounded_snapshot_content [OF content facts(3) fits] dict_ok_normalize [OF ok]
    by (simp add: reconstruct_snapshot_def)
qed

lemma difference_ofD:
  assumes "local_inv rt db" and "row \<in> set (ld_snapshots db)" and "payload_by_hash (ir_payload_hash row) db = Some d"
    and "ir_previous row = Some p"
  obtains q b n where "q \<in> set (ld_snapshots db)" "ir_previous row = Some (ir_snapshot_id q)" "\<not> ir_initial row"
    "ir_changed row = (ir_changes row \<noteq> [])" "payload_by_hash (ir_payload_hash q) db = Some b" "json_wf (JObj n)"
    "canon_obj n = d" "ir_changes row = compare_snapshots rt (Some b) n"
proof -
  have "snapshot_ok rt db row" using assms(1,2) by (simp add: local_inv_def)
  then obtain q where q: "q \<in> set (ld_snapshots db)" "ir_snapshot_id q = p" "difference_ok rt db row q d"
    using assms(3,4) by (auto simp: snapshot_ok_def)
  then obtain b n where "payload_by_hash (ir_payload_hash q) db = Some b" "json_wf (JObj n)" "canon_obj n = d"
      "ir_changes row = compare_snapshots rt (Some b) n" by (auto simp: difference_ok_def simp del: json_wf.simps)
  then show thesis using that [of q b n] q assms(4) by (simp add: difference_ok_def del: json_wf.simps)
qed

text \<open>C34: Inventory synchronisation is a round trip: whatever snapshots and results were stored and pruned before,
  the upload written for a stored snapshot, full, delta or unchanged, is accepted by a cloud that holds
  the snapshot it was compared with, and the cloud then holds the stored snapshot with its digest, so that
  the next one can follow. The snapshot is within the cloud's limits, and Python calls no two different
  values of a section equal.\<close>

theorem sync_roundtrip:
  assumes sha: "sha_hex rt" and run: "(local_step rt)\<^sup>*\<^sup>* empty_db db" and row: "row \<in> set (ld_snapshots db)"
    and content: "payload_by_hash (ir_payload_hash row) db = Some d"
    and fits: "fits rt d" "length (ir_changes row) \<le> max_inventory_sections"
    and base: "\<And>q. q \<in> set (ld_snapshots db) \<Longrightarrow> ir_previous row = Some (ir_snapshot_id q) \<Longrightarrow>
      \<exists>iv. cur = Some iv \<and> cloud_holds db q iv \<and> sharp (canon_obj (iv_snapshot iv)) d
        \<and> list_all section_name_ok (map fst (iv_snapshot iv))"
  shows "\<exists>payload sync' iv. snapshot_upload_payload (ir_snapshot_id row) db = Inr payload
    \<and> reconstruct_inventory rt t e k (JObj payload) cur now = Inr (sync', iv) \<and> cloud_holds db row iv"
proof -
  have inv: "local_inv rt db" by (rule local_run_inv [OF run])
  have id: "inventory_by_id (ir_snapshot_id row) db = Some row" using inventory_by_id_iff [OF inv] row by simp
  note accepted = reconstruct_envelope [OF sha inv row]
  note h = content_facts(4) [OF inv]
  show ?thesis
  proof (cases "ir_previous row")
    case None
    then have prev: "previous_hash_of row db = None" and init: "ir_initial row"
      using inv row by (auto simp: previous_hash_of_def local_inv_def snapshot_ok_def)
    obtain sn where sn: "reconstruct_snapshot rt (JStr ''full'') (sync_envelope row db @ [(''mode'', JStr ''full''), (''snapshot'', JObj d)])
        (ir_payload_hash row) (previous_hash_of row db) cur = Inr sn" "dict_ok sn" "canon_obj sn = d"
      using accept_full [OF inv content fits(1) prev] by blast
    show ?thesis
      using accepted [OF _ _ _ _ sn(1)] sn(2,3) content prev id init by (simp add: snapshot_upload_payload_def dict_get_Cons)
  next
    case (Some p)
    obtain q b n where q: "q \<in> set (ld_snapshots db)" "ir_previous row = Some (ir_snapshot_id q)" "\<not> ir_initial row"
        "ir_changed row = (ir_changes row \<noteq> [])"
      and n: "payload_by_hash (ir_payload_hash q) db = Some b" "json_wf (JObj n)" "canon_obj n = d"
        "ir_changes row = compare_snapshots rt (Some b) n"
      using difference_ofD [OF inv row content Some] by blast
    have prev: "previous_hash_of row db = Some (ir_payload_hash q)" by (rule previous_hash_row [OF inv q(1,2)])
    obtain iv where iv: "cur = Some iv" "cloud_holds db q iv" "sharp b d" "list_all section_name_ok (map fst (iv_snapshot iv))"
      and b: "canon_obj (iv_snapshot iv) = b"
      using base [OF q(1,2)] n(1) by (auto simp: cloud_holds_def)
    have names: "list_all section_name_ok (map fst b)"
      using iv(4) unfolding b [symmetric] by (simp add: canon_obj_def list_all_iff set_map_values image_image)
    have hash: "\<exists>v. previous_hash_of row db = Some (digest_text rt v)" using h [OF n(1)] prev by auto
    show ?thesis
    proof (cases "ir_changes row = []")
      case True
      have "canon_obj (dict_pop_all (removed_sections [] d) (dict_update (iv_snapshot iv) (delta_sections [] d))) = d"
        using delta_content [OF n(2,3) n(4) _ b iv(3)] True iv(2) by (simp add: cloud_holds_def)
      then have "canon_obj (iv_snapshot iv) = d" by (simp add: removed_sections_def delta_sections_def)
      then obtain sn where sn: "reconstruct_snapshot rt (JStr ''unchanged'') (sync_envelope row db @ [(''mode'', JStr ''unchanged'')])
          (ir_payload_hash row) (previous_hash_of row db) cur = Inr sn" "dict_ok sn" "canon_obj sn = d"
        using accept_unchanged [OF inv iv(1,2) _ content prev] by blast
      show ?thesis
        using accepted [OF _ _ _ _ sn(1)] sn(2,3) content hash id q(3,4) True by (simp add: snapshot_upload_payload_def dict_get_Cons)
    next
      case False
      obtain sn where sn: "reconstruct_snapshot rt (JStr ''delta'') (sync_envelope row db @ [(''mode'', JStr ''delta''),
          (''changes'', JArr (map change_dict (ir_changes row))), (''sections'', JObj (delta_sections (ir_changes row) d)),
          (''removed_sections'', JArr (map JStr (removed_sections (ir_changes row) d)))])
          (ir_payload_hash row) (previous_hash_of row db) cur = Inr sn" "dict_ok sn" "canon_obj sn = d"
        using accept_delta [OF inv content fits(1) iv(1,2) b iv(3) names prev n(2,3,4) False fits(2)] by blast
      show ?thesis
        using accepted [OF _ _ _ _ sn(1)] sn(2,3) content hash id q(3,4) False by (simp add: snapshot_upload_payload_def dict_get_Cons)
    qed
  qed
qed

text \<open>A second scan adds a section; the cloud holds the snapshot of the first.\<close>

definition sync_store :: "string \<Rightarrow> jobj \<Rightarrow> local_db \<Rightarrow> local_db" where
  "sync_store scan_id snapshot db = snd (projr (store_snapshot demo_rt ''e1'' scan_id snapshot ''1.0'' None None ''t'' db))"

definition sync_first :: jobj where "sync_first = [(''software'', JArr [])]"

definition sync_second :: jobj where
  "sync_second = [(''software'', JArr []), (''hardware'', JObj [(''cpu'', JStr ''a processor with a long name'')])]"

definition "sync_db1 = sync_store ''s1'' sync_first empty_db"
definition "sync_db2 = sync_store ''s2'' sync_second sync_db1"

definition sync_held :: "jobj \<Rightarrow> inventory_state" where
  "sync_held snapshot = \<lparr> iv_tenant_id = ''t1'', iv_endpoint_id = ''e1'', iv_snapshot_hash = digest_text demo_rt (JObj snapshot),
     iv_snapshot = snapshot, iv_source_scan_id = ''s1'', iv_updated_at = 0 \<rparr>"

lemma demo_sha_hex: "sha_hex demo_rt"
  proof -
  have "lower_hex_digit (CHR ''0'')" "lower_hex_digit (CHR ''1'')" "lower_hex_digit (CHR ''a'')" by code_simp+
  then show ?thesis by (simp add: sha_hex_def demo_rt_def)
qed

lemma sync_store_step:
  "(case store_snapshot demo_rt ''e1'' k snapshot ''1.0'' None None ''t'' db of Inl _ \<Rightarrow> False | Inr _ \<Rightarrow> True) \<Longrightarrow>
   json_wf (JObj snapshot) \<Longrightarrow> unmixed demo_rt (normalize_sections demo_rt snapshot) db \<Longrightarrow>
   local_step demo_rt db (sync_store k snapshot db)"
  unfolding sync_store_def
  by (cases "store_snapshot demo_rt ''e1'' k snapshot ''1.0'' None None ''t'' db") (auto intro: step_store)

lemma sync_steps: "local_step demo_rt empty_db sync_db1" "local_step demo_rt sync_db1 sync_db2"
  unfolding sync_db1_def sync_db2_def by (rule sync_store_step; code_simp)+

definition "sync_row = ld_snapshots sync_db2 ! 1"

theorem sync_roundtrip_witness: "\<exists>payload sync' iv. snapshot_upload_payload (ir_snapshot_id sync_row) sync_db2 = Inr payload
    \<and> reconstruct_inventory demo_rt ''t1'' ''e1'' ''s2'' (JObj payload) (Some (sync_held sync_first)) 0 = Inr (sync', iv)
    \<and> cloud_holds sync_db2 sync_row iv"
proof (rule sync_roundtrip [OF demo_sha_hex])
  show "(local_step demo_rt)\<^sup>*\<^sup>* empty_db sync_db2"
    using sync_steps by (meson rtranclp.rtrancl_refl rtranclp.rtrancl_into_rtrancl)
  have rows: "ld_snapshots sync_db2 = [ld_snapshots sync_db2 ! 0, sync_row]" by code_simp
  show "sync_row \<in> set (ld_snapshots sync_db2)" by (subst rows) simp
  show "payload_by_hash (ir_payload_hash sync_row) sync_db2 = Some (canon_obj sync_second)" by code_simp
  have content: "canon_obj sync_second = [(''hardware'', JObj [(''cpu'', JStr ''a processor with a long name'')]), (''software'', JArr [])]"
    by code_simp
  have "utf8_length (dumps demo_rt (JObj (canon_obj sync_second))) \<le> max_reconstructed_bytes"
    "list_all section_name_ok (map fst (canon_obj sync_second))" by code_simp+
  then show "fits demo_rt (canon_obj sync_second)"
    unfolding fits_def by (simp add: content max_json_string_def max_inventory_nodes_def max_inventory_sections_def del: dumps.simps)
  show "length (ir_changes sync_row) \<le> max_inventory_sections" by code_simp
  have held: "cloud_holds sync_db2 (ld_snapshots sync_db2 ! 0) (sync_held sync_first)"
    "sharp (canon_obj (iv_snapshot (sync_held sync_first))) (canon_obj sync_second)"
    "list_all section_name_ok (map fst (iv_snapshot (sync_held sync_first)))" by code_simp+
  have apart: "ir_previous sync_row = Some (ir_snapshot_id (ld_snapshots sync_db2 ! 0))"
    "ir_snapshot_id sync_row \<noteq> ir_snapshot_id (ld_snapshots sync_db2 ! 0)" by code_simp+
  show "\<exists>iv. Some (sync_held sync_first) = Some iv \<and> cloud_holds sync_db2 q iv
      \<and> sharp (canon_obj (iv_snapshot iv)) (canon_obj sync_second) \<and> list_all section_name_ok (map fst (iv_snapshot iv))"
    if q: "q \<in> set (ld_snapshots sync_db2)" "ir_previous sync_row = Some (ir_snapshot_id q)" for q
  proof -
    have "q \<in> set [ld_snapshots sync_db2 ! 0, sync_row]" using q(1) rows by simp
    then have "q = ld_snapshots sync_db2 ! 0" using q(2) apart by auto
    then show ?thesis using held by simp
  qed
qed

text \<open>
  A value that changes from 1 to true has a new digest but is no difference to Python: the upload says
  that nothing has changed, and the cloud asks for a full snapshot.
\<close>

lemma equal_values_resync:
  "(let before = [(''the_section_of_the_secure_boot_x'', JInt 1)];
        after = [(''the_section_of_the_secure_boot_x'', JBool True)];
        db = sync_store ''s2'' after (sync_store ''s1'' before empty_db) in
    case snapshot_upload_payload 2 db of Inl _ \<Rightarrow> False | Inr payload \<Rightarrow>
      dict_get payload ''mode'' = Some (JStr ''unchanged'')
      \<and> (case reconstruct_inventory demo_rt ''t1'' ''e1'' ''s2'' (JObj payload) (Some (sync_held before)) 0 of
           Inl (InventoryResync _) \<Rightarrow> True | _ \<Rightarrow> False))"
  by code_simp

end
