(* ===== verification/Local_Properties.thy ===== *)
theory Local_Properties
  imports Local_Steps "HOL-Library.Code_Target_Nat"
begin

text \<open>
  What the local tables promise: the declared constraints, the sections a partial scan leaves alone, and
  what retention may remove.
\<close>

section \<open>The latest snapshot\<close>

lemma find_rev_snoc: "find P (rev (xs @ [x])) = (if P x then Some x else find P (rev xs))"
  by simp

lemma insert_snapshot_latest:
  assumes "insert_snapshot rt e k n schema policy scanner now db = (c, db')" and un: "unmixed rt n db" and e: "identifier_ok 256 e"
  shows "\<exists>row. get_latest_snapshot e db' = Inr (Some (row, canon_obj n)) \<and> ir_scan_id row = k \<and> ir_endpoint_id row = e"
proof -
  let ?h = "digest_text rt (JObj n)"
  have pays: "ld_payloads db' = add_payload rt ?h n now (ld_payloads db)"
    using assms(1) by (auto simp: insert_snapshot_def Let_def)
  obtain row where row: "ld_snapshots db' = ld_snapshots db @ [row]" "ir_scan_id row = k" "ir_endpoint_id row = e" "ir_payload_hash row = ?h"
    using assms(1) by (auto simp: insert_snapshot_def Let_def)
  have "latest_inventory e db' = Some row" by (simp add: latest_inventory_def row)
  moreover have "payload_by_hash ?h db' = Some (canon_obj n)"
    by (rule unmixed_content [OF un pays])
  ultimately show ?thesis
    using row clean_identifier_idem [OF e] by (auto simp: get_latest_snapshot_def ebind_Inr_iff)
qed

lemma store_snapshot_latest:
  assumes "store_snapshot rt e k snapshot schema policy scanner now db = Inr (c, db')"
    and un: "unmixed rt (normalize_sections rt snapshot) db" and e: "identifier_ok 256 e" "identifier_ok 256 k"
    and new: "\<forall>r \<in> set (ld_snapshots db). ir_scan_id r \<noteq> k"
  shows "\<exists>row. get_latest_snapshot e db' = Inr (Some (row, canon_obj (normalize_sections rt snapshot))) \<and> ir_scan_id row = k"
proof -
  let ?n = "normalize_sections rt snapshot" and ?db = "ensure_scan rt k (Some e) now (ensure_endpoint rt e now db)"
  have none: "find (\<lambda>r. ir_scan_id r = k) (ld_snapshots ?db) = None" using new by (auto simp: find_None_iff)
  obtain schema' where "insert_snapshot rt e k ?n schema' policy scanner now ?db = (c, db')"
    using assms(1) none clean_identifier_idem [OF e(1)] clean_identifier_idem [OF e(2)]
    by (auto simp: store_snapshot_def ebind_Inr_iff normalize_snapshot_Inr Let_def)
  moreover have "unmixed rt ?n ?db" using un by (simp add: unmixed_def)
  ultimately show ?thesis using insert_snapshot_latest e(1) by blast
qed

section \<open>Carried-over sections\<close>

lemma dict_get_set_defaults:
  "dict_get (set_defaults d kvs) k = (case dict_get d k of None \<Rightarrow> dict_get kvs k | Some v \<Rightarrow> Some v)"
proof (induction d kvs rule: set_defaults.induct)
  case (2 d k' v kvs)
  then show ?case by (auto simp: dict_has_iff dict_get_append dict_get_Cons split: option.splits)
qed (simp split: option.split)

lemma dict_get_filter: "dict_get (filter (\<lambda>kv. P (fst kv)) d) k = (if P k then dict_get d k else None)"
  by (induction d) (auto simp: dict_get_Cons dict_get_def)

lemma dict_get_current:
  assumes "k \<noteq> ''collection_completeness''"
  shows "dict_get (current_inventory observed d p) k =
    (if k \<in> set observed then dict_get d k
     else if k = ''endpoint'' \<and> dict_get d k \<noteq> None then dict_get d k
     else (case p of None \<Rightarrow> None | Some q \<Rightarrow> dict_get q k))"
  using assms
  by (cases p)
    (auto simp: current_inventory_def Let_def dict_get_set_defaults dict_get_filter [where P = "\<lambda>k. k \<in> set observed \<or> k = ''endpoint''"]
      dict_get_filter [where P = "\<lambda>k. k \<notin> set observed \<and> k \<noteq> ''collection_completeness''"] carried_over_def split: option.splits)

lemma dict_get_normalize:
  "dict_get (normalize_sections rt d) k = (if k = ''processes'' then None else map_option (normalize_section rt k) (dict_get d k))"
  by (induction d) (auto simp: normalize_sections_def dict_get_Cons)

text \<open>What the tables keep of a section of an inventory.\<close>

definition stored_section :: "runtime \<Rightarrow> jobj \<Rightarrow> string \<Rightarrow> json option" where
  "stored_section rt inventory k =
    (if k = ''processes'' then None else map_option (\<lambda>v. canon (normalize_section rt k v)) (dict_get inventory k))"

lemma stored_section_eq: "dict_ok d \<Longrightarrow> dict_get (canon_obj (normalize_sections rt d)) k = stored_section rt d k"
  by (simp add: stored_section_def dict_get_normalize option.map_comp comp_def)

lemma stored_section_again:
  assumes "local_inv rt db" and "payload_by_hash h db = Some p"
  shows "stored_section rt p k = dict_get p k"
proof -
  have "json_wf (JObj p)" "canon_obj p = p" "normalize_sections rt p = p"
    using payload_by_hash_ok [of db rt h p] assms by (auto simp: local_inv_def)
  then show ?thesis using stored_section_eq [of p rt k] by simp
qed

lemma latest_payload:
  assumes "get_latest_snapshot e db = Inr (Some (row, p))"
  shows "payload_by_hash (ir_payload_hash row) db = Some p"
  using assms by (auto simp: get_latest_snapshot_def ebind_Inr_iff split: option.splits)

text \<open>C38: A partial scan touches only what it observed: when the result of a new scan is saved, the latest snapshot
  of the endpoint is the one of this scan; a section the scan did not observe is in it as it was in the latest
  snapshot before, and an observed one as the result reports it, both up to normalisation.\<close>

theorem partial_scan_carries_over:
  assumes run: "(local_step rt)\<^sup>*\<^sup>* empty_db db" and save: "save_scan_result rt bind tf k (Some e) result target clock db = Inr (c, db')"
    and result: "json_wf (JObj result)" "result_inventory result = JObj inventory" "observed_sections result = Some observed"
    and ids: "identifier_ok 256 e" "identifier_ok 256 k" and new: "get_snapshot_change_for_scan k db = Inr None"
    and before: "get_latest_snapshot e db = Inr before"
    and distinct_hash: "unmixed rt (normalize_sections rt (current_inventory observed inventory (map_option snd before))) db"
  shows "\<exists>row d. get_latest_snapshot e db' = Inr (Some (row, d)) \<and> ir_scan_id row = k
    \<and> (\<forall>sec. sec \<noteq> ''collection_completeness'' \<longrightarrow> dict_get d sec =
         (if sec \<in> set observed \<or> sec = ''endpoint'' \<and> dict_get inventory sec \<noteq> None then stored_section rt inventory sec
          else (case before of None \<Rightarrow> None | Some (_, p) \<Rightarrow> dict_get p sec)))"
  using save
proof (rule save_scan_result_snapshots)
  fix inv db1 db2
  let ?i = "current_inventory observed inventory (map_option snd before)"
  assume store: "inventory_to_store (Some e) result db = Inr inv" and b: "same_snapshots db db1"
    and s: "save_inventory rt k (Some e) result inv (clock 1) db1 = Inr (c, db2)" and a: "same_snapshots db2 db'"
  have linv: "local_inv rt db" by (rule local_run_inv [OF run])
  have e: "given (Some e)" using ids(1) by (simp add: given_def identifier_ok_def)
  have inv: "inv = JObj ?i" using store result(2,3) e before by (simp add: inventory_to_store_def)
  have wf: "dict_ok ?i" using json_wf_inventory [OF _ result(1) linv] store unfolding inv by fastforce
  obtain sv pv sc ch where s': "store_snapshot rt e k ?i sv pv sc (clock 1) db1 = Inr (ch, db2)"
    using s e unfolding inv by (auto simp: save_inventory_def ebind_Inr_iff)
  have "\<forall>r \<in> set (ld_snapshots db1). ir_scan_id r \<noteq> k"
    using new b clean_identifier_idem [OF ids(2)]
    by (auto simp: get_snapshot_change_for_scan_def ebind_Inr_iff same_snapshots_def find_None_iff)
  then obtain row where row: "get_latest_snapshot e db2 = Inr (Some (row, canon_obj (normalize_sections rt ?i)))" "ir_scan_id row = k"
    using store_snapshot_latest [OF s' _ ids] distinct_hash same_snapshots_reads(1) [OF b] by blast
  have "stored_section rt ?i sec = (if sec \<in> set observed \<or> sec = ''endpoint'' \<and> dict_get inventory sec \<noteq> None
      then stored_section rt inventory sec else (case before of None \<Rightarrow> None | Some (_, p) \<Rightarrow> dict_get p sec))"
    if "sec \<noteq> ''collection_completeness''" for sec
  proof -
    have "(case before of None \<Rightarrow> None | Some (_, p) \<Rightarrow> dict_get p sec)
        = (case before of None \<Rightarrow> None | Some (_, p) \<Rightarrow> stored_section rt p sec)"
      using stored_section_again [OF linv latest_payload] before by (auto split: option.splits)
    then show ?thesis
      unfolding stored_section_def dict_get_current [OF that] by (auto split: option.splits)
  qed
  then show ?thesis
    using row same_snapshots_reads(2) [OF a] stored_section_eq [OF wf, of rt] by auto
qed

text \<open>A full scan, then one that observed the software only and reports an empty list for it.\<close>

definition local_rt :: runtime where
  "local_rt = \<lparr> rt_sha256 = (\<lambda>s. show_nat (length s)), rt_float_repr = (\<lambda>_. ''0.5''), rt_fromisoformat = (\<lambda>_. None), rt_isoformat = (\<lambda>_. []) \<rparr>"

definition local_bind :: "json \<Rightarrow> string option option" where
  "local_bind v = (case v of JNull \<Rightarrow> Some None | JStr s \<Rightarrow> Some (Some s) | _ \<Rightarrow> None)"

definition local_float :: "json \<Rightarrow> py_error + pyfloat" where
  "local_float v = Inr (Finite 1)"

definition local_result :: "string list \<Rightarrow> jobj \<Rightarrow> jobj" where
  "local_result observed inventory =
    [(''inventory'', JObj inventory), (''metadata'', JObj [(''observed_inventory_sections'', JArr (map JStr observed))])]"

definition local_save :: "string \<Rightarrow> jobj \<Rightarrow> local_db \<Rightarrow> local_db" where
  "local_save k result db =
    snd (projr (save_scan_result local_rt local_bind local_float k (Some ''e1'') result None (\<lambda>_. ''t'') db))"

definition local_ok :: "string \<Rightarrow> jobj \<Rightarrow> local_db \<Rightarrow> bool" where
  "local_ok k result db \<longleftrightarrow> json_wf (JObj result)
     \<and> \<not> isl (save_scan_result local_rt local_bind local_float k (Some ''e1'') result None (\<lambda>_. ''t'') db)
     \<and> (case inventory_to_store (Some ''e1'') result db of Inr (JObj d) \<Rightarrow> unmixed local_rt (normalize_sections local_rt d) db | _ \<Rightarrow> True)"

lemma local_save_eq: "local_ok k result db \<Longrightarrow>
  \<exists>c. save_scan_result local_rt local_bind local_float k (Some ''e1'') result None (\<lambda>_. ''t'') db = Inr (c, local_save k result db)"
  by (auto simp: local_ok_def local_save_def dest!: not_islD)

lemma local_save_step: "local_ok k result db \<Longrightarrow> local_step local_rt db (local_save k result db)"
  using local_save_eq by (force simp: local_ok_def intro: step_save)

definition "local_first = local_result [''os'', ''users''] [(''os'', JInt 1), (''users'', JInt 2)]"
definition "local_second = local_result [''os''] [(''os'', JInt 10)]"
definition "local_db1 = local_save ''s1'' local_first empty_db"
definition "local_db2 = local_save ''s2'' local_second local_db1"

lemma local_oks: "local_ok ''s1'' local_first empty_db" "local_ok ''s2'' local_second local_db1"
  by code_simp+

lemma local_runs: "(local_step local_rt)\<^sup>*\<^sup>* empty_db local_db1" "(local_step local_rt)\<^sup>*\<^sup>* empty_db local_db2"
proof -
  have "local_step local_rt empty_db local_db1" unfolding local_db1_def by (rule local_save_step [OF local_oks(1)])
  moreover have "local_step local_rt local_db1 local_db2" unfolding local_db2_def by (rule local_save_step [OF local_oks(2)])
  ultimately show "(local_step local_rt)\<^sup>*\<^sup>* empty_db local_db1" "(local_step local_rt)\<^sup>*\<^sup>* empty_db local_db2"
    by (meson rtranclp.rtrancl_refl rtranclp.rtrancl_into_rtrancl)+
qed

theorem partial_scan_carries_over_witness:
  "\<exists>row d. get_latest_snapshot ''e1'' local_db2 = Inr (Some (row, d)) \<and> ir_scan_id row = ''s2''
    \<and> dict_get d ''users'' = Some (JInt 2) \<and> dict_get d ''os'' = Some (JInt 10)"
proof -
  from local_save_eq [OF local_oks(2)] obtain c where save: "save_scan_result local_rt local_bind local_float ''s2'' (Some ''e1'') local_second None
      (\<lambda>_. ''t'') local_db1 = Inr (c, local_db2)" unfolding local_db2_def by blast
  obtain row0 p where before: "get_latest_snapshot ''e1'' local_db1 = Inr (Some (row0, p))" "dict_get p ''users'' = Some (JInt 2)"
    "p = snd (the (projr (get_latest_snapshot ''e1'' local_db1)))"
  proof -
    have "case get_latest_snapshot ''e1'' local_db1 of Inr (Some (row, p)) \<Rightarrow> dict_get p ''users'' = Some (JInt 2) | _ \<Rightarrow> False"
      by code_simp
    then show thesis using that by (auto split: sum.splits option.splits prod.splits)
  qed
  have "unmixed local_rt (normalize_sections local_rt (current_inventory [''os''] [(''os'', JInt 10)]
      (Some (snd (the (projr (get_latest_snapshot ''e1'' local_db1))))))) local_db1" by code_simp
  then have un: "unmixed local_rt (normalize_sections local_rt (current_inventory [''os''] [(''os'', JInt 10)]
      (map_option snd (Some (row0, p))))) local_db1" by (simp add: before(3) [symmetric])
  have facts: "json_wf (JObj local_second)" "result_inventory local_second = JObj [(''os'', JInt 10)]"
    "observed_sections local_second = Some [''os'']" "identifier_ok 256 ''e1''" "identifier_ok 256 ''s2''"
    "get_snapshot_change_for_scan ''s2'' local_db1 = Inr None"
    "stored_section local_rt [(''os'', JInt 10)] ''os'' = Some (JInt 10)" by code_simp+
  from partial_scan_carries_over [OF local_runs(1) save facts(1-6) before(1) un] before(2) facts(7)
  show ?thesis by fastforce
qed

section \<open>Constraints\<close>



section \<open>Retention\<close>

lemma prune_chunk_keeps:
  "ld_jobs (prune_chunk scans db) = filter (\<lambda>j. jr_scan_id j \<notin> set scans) (ld_jobs db)"
  "ld_results (prune_chunk scans db) = filter (\<lambda>r. rs_scan_id r \<notin> set scans) (ld_results db)"
  "ld_result_payloads (prune_chunk scans db) = ld_result_payloads db" "ld_payloads (prune_chunk scans db) = ld_payloads db"
  by (simp_all add: prune_chunk_def Let_def)

lemma prune_chunks_keeps:
  "ld_jobs (prune_chunks scans db) = filter (\<lambda>j. jr_scan_id j \<notin> set scans) (ld_jobs db)
   \<and> ld_results (prune_chunks scans db) = filter (\<lambda>r. rs_scan_id r \<notin> set scans) (ld_results db)
   \<and> ld_result_payloads (prune_chunks scans db) = ld_result_payloads db \<and> ld_payloads (prune_chunks scans db) = ld_payloads db"
proof (induction scans db rule: prune_chunks.induct)
  case (1 scans db)
  show ?case
  proof (cases "scans = []")
    case True
    then show ?thesis by (simp add: prune_chunks.simps [of "[]"])
  next
    case False
    have "set scans = set (take 500 scans) \<union> set (drop 500 scans)" by (metis append_take_drop_id set_append)
    then show ?thesis
      using 1 [OF False] False by (simp add: prune_chunks.simps [of scans] prune_chunk_keeps)
  qed
qed

text \<open>The newest snapshot of an endpoint keeps its content when its scan stays.\<close>

lemma find_map_filter:
  "(\<And>x. P (f x) = P x) \<Longrightarrow> (\<And>x. Q (f x) = Q x) \<Longrightarrow> find P xs = Some x \<Longrightarrow> Q x \<Longrightarrow> find P (filter Q (map f xs)) = Some (f x)"
  by (induction xs) (auto split: if_splits)

lemma prune_chunk_latest:
  assumes "latest_inventory e db = Some r" and "ir_scan_id r \<notin> set scans"
  shows "\<exists>r'. latest_inventory e (prune_chunk scans db) = Some r' \<and> ir_scan_id r' = ir_scan_id r \<and> ir_payload_hash r' = ir_payload_hash r"
proof -
  define gone where "gone = map ir_snapshot_id (filter (\<lambda>r. ir_scan_id r \<in> set scans) (ld_snapshots db))"
  have "find (\<lambda>r. ir_endpoint_id r = e) (filter (\<lambda>r. ir_scan_id r \<notin> set scans) (map (make_full gone) (rev (ld_snapshots db)))) = Some (make_full gone r)"
    using assms by (intro find_map_filter) (auto simp: latest_inventory_def)
  then show ?thesis by (auto simp: latest_inventory_def prune_chunk_def Let_def gone_def rev_filter rev_map)
qed

lemma prune_chunks_latest:
  "latest_inventory e db = Some r \<Longrightarrow> ir_scan_id r \<notin> set scans \<Longrightarrow>
    \<exists>r'. latest_inventory e (prune_chunks scans db) = Some r' \<and> ir_scan_id r' = ir_scan_id r \<and> ir_payload_hash r' = ir_payload_hash r"
proof (induction scans db arbitrary: r rule: prune_chunks.induct)
  case (1 scans db)
  show ?case
  proof (cases "scans = []")
    case True
    then show ?thesis using 1 by (simp add: prune_chunks.simps [of "[]"])
  next
    case False
    have "ir_scan_id r \<notin> set (take 500 scans)" using 1(3) by (meson in_set_takeD)
    then obtain q where q: "latest_inventory e (prune_chunk (take 500 scans) db) = Some q" "ir_scan_id q = ir_scan_id r"
      "ir_payload_hash q = ir_payload_hash r" using prune_chunk_latest [OF 1(2)] by blast
    moreover have "ir_scan_id q \<notin> set (drop 500 scans)" using 1(3) q(2) by (metis in_set_dropD)
    ultimately show ?thesis using 1(1) [OF False q(1)] False by (simp add: prune_chunks.simps [of scans])
  qed
qed

lemma latest_scans_iff: "local_inv rt db \<Longrightarrow> latest_inventory e db = Some r \<Longrightarrow> ir_scan_id r \<in> set (latest_scans db)"
  using latest_inventory_mem [of e db r] by (auto simp: latest_scans_def)

text \<open>A scan beyond the newest \<open>m\<close>.\<close>

lemma newer_than_dropped:
  assumes "x \<in> set (drop m (rev (sort_key f xs)))" and "distinct (map f xs)"
  shows "m \<le> length (filter (\<lambda>y. f x < f y) xs)"
proof -
  let ?ys = "rev (sort_key f xs)"
  have dist: "distinct (map f ?ys)" using distinct_map_sort_key [OF assms(2)] by (simp add: rev_map [symmetric])
  have desc: "sorted_wrt (\<lambda>a b. f b \<le> f a) ?ys" using sorted_sort_key [of f xs] by (simp add: sorted_wrt_rev sorted_map)
  have "f x < f y" if "y \<in> set (take m ?ys)" for y
  proof -
    have "f x \<le> f y" using desc that assms(1)
      by (metis (no_types, lifting) append_take_drop_id sorted_wrt_append)
    moreover have "f x \<noteq> f y"
      using dist that assms(1) by (metis (no_types, lifting) append_take_drop_id disjoint_iff distinct_append image_eqI map_append set_map)
    ultimately show ?thesis by simp
  qed
  then have "filter (\<lambda>y. f x < f y) (take m ?ys) = take m ?ys" by simp
  moreover have "m < length ?ys" using assms(1) by (metis drop_all empty_iff linorder_not_le list.set(1))
  ultimately have "m \<le> length (filter (\<lambda>y. f x < f y) ?ys)"
    by (metis (no_types, lifting) append_take_drop_id filter_append le_add1 length_append length_take min.absorb4 min.commute)
  also have "\<dots> = length (filter (\<lambda>y. f x < f y) xs)"
    by (metis mset_filter mset_rev mset_sort size_mset)
  finally show ?thesis .
qed

lemma clean_all_strip: "clean_all f ss = Inr ts \<Longrightarrow> ts = map py_strip ss"
  by (induction f ss arbitrary: ts rule: clean_all.induct)
    (auto simp: ebind_Inr_iff clean_identifier_def Let_def split: if_splits)

lemma prune_selected:
  assumes "prune_completed_scan_records older_than mx prot limit rows db = Inr (n, db')" and "schema_ok db"
  obtains removed where "distinct removed" "length removed = n" "n \<le> nat limit" "db' = db \<and> removed = [] \<or> db' = drop_payloads (prune_chunks removed db)"
    "\<And>k. k \<in> set removed \<Longrightarrow> k \<notin> set (latest_scans db) \<and> k \<notin> set (blocked_scans rows) \<and> k \<notin> py_strip ` set prot
      \<and> (\<exists>j \<in> set (ld_jobs db). jr_scan_id j = k \<and> terminal_job j \<and> (ended_at j < older_than
        \<or> nat mx \<le> length (filter (\<lambda>i. terminal_job i \<and> (ended_at j, jr_scan_id j) < (ended_at i, jr_scan_id i)) (ld_jobs db))))"
proof -
  let ?rest = "\<lambda>ps. let candidates = prune_candidates older_than (nat mx) (nat (min 100000 (max (limit * 4) limit))) db;
        selected = take (nat limit) (filter (\<lambda>s. s \<notin> set ps \<and> s \<notin> set (latest_scans db) \<and> s \<notin> set (blocked_scans rows)) candidates)
      in if selected = [] then Inr (0, db)
         else (Inr (length selected, drop_payloads (prune_chunks selected db)) :: storage_error + (nat \<times> local_db))"
  have "ebind (clean_all ''protected_scan_id'' prot) ?rest = Inr (n, db')"
    using assms(1) unfolding prune_completed_scan_records_def by (simp only: sum.distinct split: if_split_asm)
  from this [unfolded ebind_Inr_iff] obtain ps where both: "clean_all ''protected_scan_id'' prot = Inr ps \<and> ?rest ps = Inr (n, db')"
    by (rule exE) (erule that)
  note clean = both [THEN conjunct1] and res = both [THEN conjunct2, unfolded Let_def]
  let ?c = "prune_candidates older_than (nat mx) (nat (min 100000 (max (limit * 4) limit))) db"
  let ?sel = "take (nat limit) (filter (\<lambda>s. s \<notin> set ps \<and> s \<notin> set (latest_scans db) \<and> s \<notin> set (blocked_scans rows)) ?c)"
  show thesis
  proof (rule that [of ?sel])
    show "distinct ?sel" by (simp add: prune_candidates_def Let_def)
    show "length ?sel = n" "n \<le> nat limit" "db' = db \<and> ?sel = [] \<or> db' = drop_payloads (prune_chunks ?sel db)"
      using res by (simp_all split: if_split_asm) auto
  next
    fix k
    assume "k \<in> set ?sel"
    then have "k \<in> set (filter (\<lambda>s. s \<notin> set ps \<and> s \<notin> set (latest_scans db) \<and> s \<notin> set (blocked_scans rows)) ?c)"
      by (rule in_set_takeD)
    then have k: "k \<in> set ?c" "k \<notin> set ps" "k \<notin> set (latest_scans db)" "k \<notin> set (blocked_scans rows)" by simp_all
    let ?jobs = "filter terminal_job (ld_jobs db)" and ?key = "\<lambda>j. (ended_at j, jr_scan_id j)"
    obtain j where j: "jr_scan_id j = k" and "j \<in> set (filter (\<lambda>j. ended_at j < older_than) (sort_key ?key ?jobs))
        \<or> j \<in> set (drop (nat mx) (rev (sort_key ?key ?jobs)))"
      using k(1) unfolding prune_candidates_def Let_def by (auto dest: in_set_takeD)
    moreover have "distinct (map ?key ?jobs)"
    proof -
      have "distinct (map jr_scan_id ?jobs)"
        using assms(2) by (simp add: schema_ok_def jobs_ok_def unique_by_def distinct_map_filter)
      then show ?thesis by (auto simp: distinct_map inj_on_def)
    qed
    ultimately have "j \<in> set ?jobs" "ended_at j < older_than
        \<or> nat mx \<le> length (filter (\<lambda>i. ?key j < ?key i) ?jobs)"
      using newer_than_dropped [of j "nat mx" ?key ?jobs] by (auto dest: in_set_dropD)
    moreover have "filter (\<lambda>i. ?key j < ?key i) ?jobs = filter (\<lambda>i. terminal_job i \<and> ?key j < ?key i) (ld_jobs db)" by simp
    ultimately have "\<exists>j \<in> set (ld_jobs db). jr_scan_id j = k \<and> terminal_job j \<and> (ended_at j < older_than
        \<or> nat mx \<le> length (filter (\<lambda>i. terminal_job i \<and> ?key j < ?key i) (ld_jobs db)))"
      using j by (intro bexI [of _ j]) (auto simp del: filter_filter less_prod_simp)
    then show "k \<notin> set (latest_scans db) \<and> k \<notin> set (blocked_scans rows) \<and> k \<notin> py_strip ` set prot
      \<and> (\<exists>j \<in> set (ld_jobs db). jr_scan_id j = k \<and> terminal_job j \<and> (ended_at j < older_than
        \<or> nat mx \<le> length (filter (\<lambda>i. terminal_job i \<and> (ended_at j, jr_scan_id j) < (ended_at i, jr_scan_id i)) (ld_jobs db))))"
      using k(2-4) clean_all_strip [OF clean] by auto
  qed
qed

text \<open>C23: Retention removes terminal scans only, at most as many as it was asked to: each of them ended before the
  bound or has as many newer terminal scans as may stay, and none is protected, waits for an upload or holds
  the latest snapshot of its endpoint. The other jobs and results stay as they are, and the latest snapshots
  keep their content.\<close>

theorem prune_safe:
  assumes run: "(local_step rt)\<^sup>*\<^sup>* empty_db db" and "prune_completed_scan_records older_than mx prot limit rows db = Inr (n, db')"
  shows "\<exists>removed. distinct removed \<and> length removed = n \<and> n \<le> nat limit
    \<and> (\<forall>k \<in> set removed. k \<notin> set (latest_scans db) \<and> k \<notin> set (blocked_scans rows) \<and> k \<notin> py_strip ` set prot
        \<and> (\<exists>j \<in> set (ld_jobs db). jr_scan_id j = k \<and> terminal_job j \<and> (ended_at j < older_than
          \<or> nat mx \<le> length (filter (\<lambda>i. terminal_job i \<and> (ended_at j, jr_scan_id j) < (ended_at i, jr_scan_id i)) (ld_jobs db)))))
    \<and> ld_jobs db' = filter (\<lambda>j. jr_scan_id j \<notin> set removed) (ld_jobs db)
    \<and> ld_results db' = filter (\<lambda>r. rs_scan_id r \<notin> set removed) (ld_results db)
    \<and> (\<forall>e row d. get_latest_snapshot e db = Inr (Some (row, d)) \<longrightarrow>
        (\<exists>row'. get_latest_snapshot e db' = Inr (Some (row', d)) \<and> ir_scan_id row' = ir_scan_id row))"
proof -
  have inv: "local_inv rt db" and ok: "schema_ok db"
    using local_store.inv_steps [OF run] local_store.inv_initial by blast+
  obtain removed where sel: "distinct removed" "length removed = n" "n \<le> nat limit"
    and db': "db' = db \<and> removed = [] \<or> db' = drop_payloads (prune_chunks removed db)"
    and each: "\<And>k. k \<in> set removed \<Longrightarrow> k \<notin> set (latest_scans db) \<and> k \<notin> set (blocked_scans rows) \<and> k \<notin> py_strip ` set prot
      \<and> (\<exists>j \<in> set (ld_jobs db). jr_scan_id j = k \<and> terminal_job j \<and> (ended_at j < older_than
        \<or> nat mx \<le> length (filter (\<lambda>i. terminal_job i \<and> (ended_at j, jr_scan_id j) < (ended_at i, jr_scan_id i)) (ld_jobs db))))"
    using prune_selected [OF assms(2) ok] by blast
  note kept = prune_chunks_keeps [of removed db]
  have rows: "ld_jobs db' = filter (\<lambda>j. jr_scan_id j \<notin> set removed) (ld_jobs db)"
    "ld_results db' = filter (\<lambda>r. rs_scan_id r \<notin> set removed) (ld_results db)"
    using db' kept by (auto simp: drop_payloads_def)
  have "\<exists>row'. get_latest_snapshot e db' = Inr (Some (row', d)) \<and> ir_scan_id row' = ir_scan_id row"
    if latest: "get_latest_snapshot e db = Inr (Some (row, d))" for e row d
  proof (cases "db' = db")
    case False
    let ?p = "prune_chunks removed db"
    obtain e' where e': "lift_py (clean_identifier ''endpoint_id'' 256 (JStr e)) = Inr e'" and row: "latest_inventory e' db = Some row"
      and d: "payload_by_hash (ir_payload_hash row) db = Some d"
      using latest by (auto simp: get_latest_snapshot_def ebind_Inr_iff split: option.splits)
    have "ir_scan_id row \<notin> set removed" using each latest_scans_iff [OF inv row] by blast
    then obtain row' where row': "latest_inventory e' ?p = Some row'" "ir_scan_id row' = ir_scan_id row" "ir_payload_hash row' = ir_payload_hash row"
      using prune_chunks_latest [OF row] by blast
    have "payload_by_hash (ir_payload_hash row') (drop_payloads ?p) = Some d"
      using drop_payloads_content [of row' ?p] latest_inventory_mem [OF row'(1)] d kept row'(3)
      by (simp add: payload_by_hash_def)
    moreover have "latest_inventory e' (drop_payloads ?p) = Some row'"
      using row'(1) by (simp add: latest_inventory_def drop_payloads_def)
    ultimately show ?thesis using False db' e' row'(2) by (auto simp: get_latest_snapshot_def ebind_Inr_iff)
  qed (use latest in simp)
  then show ?thesis using sel each rows by (intro exI [of _ removed]) blast
qed

text \<open>The first of the two scans has ended and is no longer the latest; its status was never queued for the
  cloud, and still it is removed.\<close>

definition local_env :: queue_env where
  "local_env = \<lparr> qe_rt = local_rt, qe_loads = (\<lambda>_. None), qe_sha256_bytes = id, qe_redact = id, qe_token = (\<lambda>_. []), qe_now_text = ''t'' \<rparr>"

definition "local_db3 = projr (update_scan_job local_env ''s1'' ''COMPLETED'' None (Some ''t1'') (Some ''SUCCESS'') None ''t2'' local_db2)"

lemma local_run3: "(local_step local_rt)\<^sup>*\<^sup>* empty_db local_db3"
proof -
  have "\<not> isl (update_scan_job local_env ''s1'' ''COMPLETED'' None (Some ''t1'') (Some ''SUCCESS'') None ''t2'' local_db2)" by code_simp
  then have "local_step local_rt local_db2 local_db3" by (auto simp: local_db3_def dest!: not_islD intro: step_update)
  with local_runs(2) show ?thesis by (rule rtranclp.rtrancl_into_rtrancl)
qed

theorem prune_safe_witness:
  "\<exists>removed. length removed = 1 \<and> map jr_scan_id (filter (\<lambda>j. jr_scan_id j \<notin> set removed) (ld_jobs local_db3)) = [''s2'']"
proof -
  have "case prune_completed_scan_records ''u'' 5 [] 10 [] local_db3 of Inr (n, db) \<Rightarrow> n = 1 \<and> map jr_scan_id (ld_jobs db) = [''s2''] | _ \<Rightarrow> False"
    by code_simp
  then obtain db' where "prune_completed_scan_records ''u'' 5 [] 10 [] local_db3 = Inr (1, db')" "map jr_scan_id (ld_jobs db') = [''s2'']"
    by (auto split: sum.splits)
  from prune_safe [OF local_run3 this(1)] this(2) show ?thesis by metis
qed

lemma unqueued_status_pruned:
  "case terminal_scan_jobs 10 local_db3 of Inr ((k, _) # _) \<Rightarrow> k = ''s1'' | _ \<Rightarrow> False" by code_simp

end
