(* ===== verification/Policy_Storage.thy ===== *)
theory Policy_Storage
  imports Audit_Log
begin

text \<open>
  The tables of policy versions, policy documents and schema versions: the policy part of
  \<^verbatim>\<open>app/storage/results.py\<close>. A document is kept as the text of its column, because the operations compare
  and hash that text; \<open>loads\<close> stands for \<open>json.loads\<close>, with \<open>None\<close> for a \<open>ValueError\<close>.
\<close>

section \<open>Tables\<close>

record policy_version_row =
  pv_policy_id :: string
  pv_version :: string
  pv_checksum :: string
  pv_metadata :: string
  pv_activated_at :: string
  pv_active :: bool

record policy_document_row =
  pd_policy_id :: string
  pd_version :: string
  pd_checksum :: string
  pd_document :: string
  pd_source :: string
  pd_received_at :: string
  pd_activated_at :: "string option"
  pd_active :: bool
  pd_assigned :: bool

record schema_version_row =
  sv_schema_name :: string
  sv_version :: string
  sv_metadata :: string
  sv_recorded_at :: string
  sv_active :: bool

record policy_db =
  pdb_versions :: "policy_version_row list"
  pdb_documents :: "policy_document_row list"
  pdb_schemas :: "schema_version_row list"

definition empty_policies :: policy_db where
  "empty_policies = \<lparr> pdb_versions = [], pdb_documents = [], pdb_schemas = [] \<rparr>"

text \<open>\<open>INSERT ... ON CONFLICT(key) DO UPDATE\<close>: the first row with the key of the new one is changed by \<open>merge\<close>.\<close>

definition upsert :: "('r \<Rightarrow> 'k) \<Rightarrow> ('r \<Rightarrow> 'r \<Rightarrow> 'r) \<Rightarrow> 'r \<Rightarrow> 'r list \<Rightarrow> 'r list" where
  "upsert key merge row rows =
    (if key row \<in> key ` set rows then map (\<lambda>r. if key r = key row then merge row r else r) rows else rows @ [row])"

section \<open>Versions\<close>

definition version_key :: "policy_version_row \<Rightarrow> string \<times> string" where
  "version_key r = (pv_policy_id r, pv_version r)"

definition put_version :: "policy_version_row \<Rightarrow> policy_db \<Rightarrow> policy_db" where
  "put_version row db = db\<lparr>pdb_versions := upsert version_key (\<lambda>new old. new) row
     (if pv_active row then map (\<lambda>r. r\<lparr>pv_active := False\<rparr>) (pdb_versions db) else pdb_versions db)\<rparr>"

definition set_policy_version ::
    "runtime \<Rightarrow> string \<Rightarrow> string \<Rightarrow> string \<Rightarrow> jobj \<Rightarrow> bool \<Rightarrow> string \<Rightarrow> policy_db \<Rightarrow> storage_error + policy_db" where
  "set_policy_version rt policy_id version checksum metadata active now db =
    ebind (lift_py (clean_identifier ''policy_id'' 256 (JStr policy_id))) (\<lambda>policy_id.
    ebind (lift_py (clean_identifier ''version'' 64 (JStr version))) (\<lambda>version.
    ebind (lift_py (clean_identifier ''checksum'' 128 (JStr checksum))) (\<lambda>checksum.
    ebind (lift_py (canonical_json rt (JObj metadata))) (\<lambda>metadata.
      Inr (put_version \<lparr> pv_policy_id = policy_id, pv_version = version, pv_checksum = checksum, pv_metadata = metadata,
        pv_activated_at = now, pv_active = active \<rparr> db)))))"

section \<open>Documents\<close>

definition document_key :: "policy_document_row \<Rightarrow> string \<times> string" where
  "document_key r = (pd_policy_id r, pd_version r)"

definition find_document :: "string \<Rightarrow> string \<Rightarrow> policy_db \<Rightarrow> policy_document_row option" where
  "find_document policy_id version db = find (\<lambda>r. document_key r = (policy_id, version)) (pdb_documents db)"

definition document_sources :: "string list" where
  "document_sources = [''bundled'', ''local'', ''cloud'']"

definition deactivate_all :: "policy_document_row list \<Rightarrow> policy_document_row list" where
  "deactivate_all rows = map (\<lambda>r. r\<lparr>pd_active := False\<rparr>) rows"

definition merge_document :: "policy_document_row \<Rightarrow> policy_document_row \<Rightarrow> policy_document_row" where
  "merge_document new old = old\<lparr>pd_source := pd_source new,
     pd_activated_at := (if pd_active new then pd_activated_at new else pd_activated_at old),
     pd_active := (pd_active new \<or> pd_active old), pd_assigned := pd_assigned new\<rparr>"

definition put_document :: "policy_document_row \<Rightarrow> policy_db \<Rightarrow> policy_db" where
  "put_document row db = db\<lparr>pdb_documents := upsert document_key merge_document row
     (if pd_active row then deactivate_all (pdb_documents db) else pdb_documents db)\<rparr>"

definition cache_policy_document ::
    "runtime \<Rightarrow> string \<Rightarrow> string \<Rightarrow> string \<Rightarrow> jobj \<Rightarrow> string \<Rightarrow> bool \<Rightarrow> bool \<Rightarrow> string \<Rightarrow> policy_db \<Rightarrow>
     storage_error + policy_db" where
  "cache_policy_document rt policy_id version checksum document source active assigned now db =
    ebind (lift_py (clean_identifier ''policy_id'' 256 (JStr policy_id))) (\<lambda>policy_id.
    ebind (lift_py (clean_identifier ''version'' 64 (JStr version))) (\<lambda>version.
    ebind (lift_py (clean_identifier ''checksum'' 128 (JStr checksum))) (\<lambda>checksum.
    if source \<notin> set document_sources then Inl (PyErr (ValueError ''unsupported policy document source''))
    else ebind (lift_py (canonical_json rt (JObj document))) (\<lambda>serialized.
    if rt_sha256 rt serialized \<noteq> checksum
    then Inl (PyErr (ValueError ''policy document checksum does not match its canonical payload''))
    else if (case find_document policy_id version db of None \<Rightarrow> False
        | Some existing \<Rightarrow> pd_checksum existing \<noteq> checksum \<or> pd_document existing \<noteq> serialized)
    then Inl (IdempotencyConflictError ''policy ID/version is already cached with different content'')
    else Inr (put_document \<lparr> pd_policy_id = policy_id, pd_version = version, pd_checksum = checksum,
        pd_document = serialized, pd_source = source, pd_received_at = now,
        pd_activated_at = (if active then Some now else None), pd_active = active, pd_assigned = assigned \<rparr> db)))))"

definition revoke_cloud_policy_assignments :: "policy_db \<Rightarrow> policy_db" where
  "revoke_cloud_policy_assignments db =
    db\<lparr>pdb_documents := map (\<lambda>r. if pd_source r = ''cloud'' \<and> pd_assigned r then r\<lparr>pd_assigned := False\<rparr> else r) (pdb_documents db)\<rparr>"

definition migrate_policy_document_canonicalization ::
    "runtime \<Rightarrow> string \<Rightarrow> string \<Rightarrow> string \<Rightarrow> string \<Rightarrow> jobj \<Rightarrow> policy_db \<Rightarrow> storage_error + policy_db" where
  "migrate_policy_document_canonicalization rt policy_id version expected_checksum checksum document db =
    ebind (lift_py (clean_identifier ''policy_id'' 256 (JStr policy_id))) (\<lambda>policy_id.
    ebind (lift_py (clean_identifier ''version'' 64 (JStr version))) (\<lambda>version.
    ebind (lift_py (clean_identifier ''expected_checksum'' 128 (JStr expected_checksum))) (\<lambda>expected_checksum.
    ebind (lift_py (clean_identifier ''checksum'' 128 (JStr checksum))) (\<lambda>checksum.
    ebind (lift_py (canonical_json rt (JObj document))) (\<lambda>serialized.
    if rt_sha256 rt serialized \<noteq> checksum
    then Inl (PyErr (ValueError ''policy document checksum does not match its canonical payload''))
    else (case find_document policy_id version db of
      None \<Rightarrow> Inl (PyErr (ValueError ''cannot migrate a policy document that is not cached''))
    | Some existing \<Rightarrow>
        if pd_checksum existing \<noteq> expected_checksum \<or> rt_sha256 rt (pd_document existing) \<noteq> expected_checksum
        then Inl (IdempotencyConflictError ''cached policy changed during canonicalization migration'')
        else Inr (db\<lparr>pdb_documents := map (\<lambda>r. if document_key r = (policy_id, version) \<and> pd_checksum r = expected_checksum
          then r\<lparr>pd_checksum := checksum, pd_document := serialized\<rparr> else r) (pdb_documents db)\<rparr>)))))))"

definition activate_policy_document :: "string \<Rightarrow> string \<Rightarrow> string \<Rightarrow> policy_db \<Rightarrow> storage_error + policy_db" where
  "activate_policy_document policy_id version now db =
    ebind (lift_py (clean_identifier ''policy_id'' 256 (JStr policy_id))) (\<lambda>policy_id.
    ebind (lift_py (clean_identifier ''version'' 64 (JStr version))) (\<lambda>version.
    if find_document policy_id version db = None
    then Inl (PyErr (ValueError ''cannot activate a policy document that is not cached''))
    else Inr (db\<lparr>pdb_documents := map (\<lambda>r. if document_key r = (policy_id, version)
      then r\<lparr>pd_active := True, pd_activated_at := Some now\<rparr> else r) (deactivate_all (pdb_documents db))\<rparr>)))"

text \<open>
  \<open>ORDER BY active DESC, received_at DESC\<close>; rows received at the same time come in an order the database
  chooses, here the reverse of the table.
\<close>

record cached_document =
  cd_row :: policy_document_row
  cd_document :: jobj

fun parse_rows :: "(string \<Rightarrow> json option) \<Rightarrow> policy_document_row list \<Rightarrow> storage_error + cached_document list" where
  "parse_rows loads [] = Inr []"
| "parse_rows loads (r # rs) =
    (case loads (pd_document r) of
       None \<Rightarrow> Inl (PyErr (ValueError ''invalid JSON''))
     | Some (JObj d) \<Rightarrow> ebind (parse_rows loads rs) (\<lambda>cs. Inr (\<lparr> cd_row = r, cd_document = d \<rparr> # cs))
     | Some _ \<Rightarrow> Inl (StorageError ''cached policy document is not an object''))"

definition list_policy_documents ::
    "(string \<Rightarrow> json option) \<Rightarrow> int \<Rightarrow> policy_db \<Rightarrow> storage_error + cached_document list" where
  "list_policy_documents loads limit db =
    (if \<not> (1 \<le> limit \<and> limit \<le> 10000)
     then Inl (PyErr (ValueError ''policy document limit must be between 1 and 10000''))
     else parse_rows loads (take (nat limit)
       (rev (sort_key pd_received_at (filter pd_active (pdb_documents db)))
        @ rev (sort_key pd_received_at (filter (\<lambda>r. \<not> pd_active r) (pdb_documents db))))))"

definition get_active_policy_document :: "(string \<Rightarrow> json option) \<Rightarrow> policy_db \<Rightarrow> storage_error + cached_document option" where
  "get_active_policy_document loads db =
    ebind (list_policy_documents loads 100 db) (\<lambda>ds. Inr (find (\<lambda>d. pd_active (cd_row d)) ds))"

section \<open>Schemas\<close>

definition schema_key :: "schema_version_row \<Rightarrow> string \<times> string" where
  "schema_key r = (sv_schema_name r, sv_version r)"

definition put_schema :: "schema_version_row \<Rightarrow> policy_db \<Rightarrow> policy_db" where
  "put_schema row db = db\<lparr>pdb_schemas := upsert schema_key (\<lambda>new old. new) row (if sv_active row
     then map (\<lambda>r. if sv_schema_name r = sv_schema_name row then r\<lparr>sv_active := False\<rparr> else r) (pdb_schemas db)
     else pdb_schemas db)\<rparr>"

definition set_schema_version ::
    "runtime \<Rightarrow> string \<Rightarrow> string \<Rightarrow> jobj \<Rightarrow> bool \<Rightarrow> string \<Rightarrow> policy_db \<Rightarrow> storage_error + policy_db" where
  "set_schema_version rt schema_name version metadata active now db =
    ebind (lift_py (clean_identifier ''schema_name'' 256 (JStr schema_name))) (\<lambda>schema_name.
    ebind (lift_py (clean_identifier ''version'' 64 (JStr version))) (\<lambda>version.
    ebind (lift_py (canonical_json rt (JObj metadata))) (\<lambda>metadata.
      Inr (put_schema \<lparr> sv_schema_name = schema_name, sv_version = version, sv_metadata = metadata,
        sv_recorded_at = now, sv_active = active \<rparr> db))))"

section \<open>The invariant\<close>

text \<open>
  Keys are unique, at most one document and one version is active, every document has its checksum and a
  known source.
\<close>

definition at_most_one :: "('a \<Rightarrow> bool) \<Rightarrow> 'a list \<Rightarrow> bool" where
  "at_most_one P xs \<longleftrightarrow> length (filter P xs) \<le> 1"

definition policies_ok :: "runtime \<Rightarrow> policy_db \<Rightarrow> bool" where
  "policies_ok rt db \<longleftrightarrow> distinct (map document_key (pdb_documents db)) \<and> at_most_one pd_active (pdb_documents db)
     \<and> (\<forall>r \<in> set (pdb_documents db). pd_checksum r = rt_sha256 rt (pd_document r) \<and> pd_source r \<in> set document_sources)
     \<and> distinct (map version_key (pdb_versions db)) \<and> at_most_one pv_active (pdb_versions db)
     \<and> distinct (map schema_key (pdb_schemas db))"

lemma distinct_upsert:
  assumes "distinct (map key rows)" and "\<And>r. key r = key row \<Longrightarrow> key (merge row r) = key r"
  shows "distinct (map key (upsert key merge row rows))"
proof -
  have "map key (map (\<lambda>r. if key r = key row then merge row r else r) rows) = map key rows"
    using assms(2) by auto
  then show ?thesis using assms(1) by (simp add: upsert_def del: map_map)
qed

lemma set_upsert: "r \<in> set (upsert key merge row rows) \<Longrightarrow>
  r = row \<or> r \<in> set rows \<or> (\<exists>q \<in> set rows. key q = key row \<and> r = merge row q)"
  by (auto simp: upsert_def split: if_splits)

lemma at_most_one_none: "(\<And>x. x \<in> set xs \<Longrightarrow> \<not> P x) \<Longrightarrow> at_most_one P xs"
  by (simp add: at_most_one_def filter_False)

lemma at_most_one_key:
  assumes "distinct (map key xs)" and "\<And>x. x \<in> set xs \<Longrightarrow> P x \<Longrightarrow> key x = k"
  shows "at_most_one P xs"
proof -
  have "distinct (map key (filter P xs))" using assms(1) by (simp add: distinct_map_filter)
  moreover have "set (map key (filter P xs)) \<subseteq> {k}" using assms(2) by auto
  ultimately have "length (map key (filter P xs)) \<le> card {k}"
    by (metis card_mono distinct_card finite.emptyI finite.insertI)
  then show ?thesis by (simp add: at_most_one_def)
qed

lemma at_most_one_map: "at_most_one P xs \<Longrightarrow> (\<And>x. x \<in> set xs \<Longrightarrow> P (f x) \<Longrightarrow> P x) \<Longrightarrow> at_most_one P (map f xs)"
proof -
  assume one: "at_most_one P xs" and less: "\<And>x. x \<in> set xs \<Longrightarrow> P (f x) \<Longrightarrow> P x"
  from less have "length (filter P (map f xs)) \<le> length (filter P xs)"
    by (induction xs) (auto simp: le_SucI)
  then show ?thesis using one by (simp add: at_most_one_def)
qed

lemma at_most_one_upsert:
  assumes "at_most_one P rows" and "\<not> P row" and "\<And>r. P (merge row r) \<Longrightarrow> P r"
  shows "at_most_one P (upsert key merge row rows)"
proof -
  have "at_most_one P (map (\<lambda>r. if key r = key row then merge row r else r) rows)"
    using assms(3) by (intro at_most_one_map [OF assms(1)]) (auto split: if_splits)
  then show ?thesis using assms(1,2) by (simp add: upsert_def at_most_one_def)
qed

lemma put_version_ok:
  assumes ok: "policies_ok rt db"
  shows "policies_ok rt (put_version row db)"
proof -
  let ?rows = "if pv_active row then map (\<lambda>r. r\<lparr>pv_active := False\<rparr>) (pdb_versions db) else pdb_versions db"
  have "map version_key ?rows = map version_key (pdb_versions db)" by (simp add: version_key_def)
  then have dist: "distinct (map version_key (upsert version_key (\<lambda>new old. new) row ?rows))"
    using ok by (intro distinct_upsert) (simp_all add: policies_ok_def)
  have "at_most_one pv_active (upsert version_key (\<lambda>new old. new) row ?rows)"
  proof (cases "pv_active row")
    case True
    have "version_key r = version_key row" if "r \<in> set (upsert version_key (\<lambda>new old. new) row ?rows)" "pv_active r" for r
      using set_upsert [OF that(1)] that(2) True by auto
    then show ?thesis by (rule at_most_one_key [OF dist])
  next
    case False
    then show ?thesis using ok by (intro at_most_one_upsert) (simp_all add: policies_ok_def)
  qed
  then show ?thesis using ok dist by (simp add: policies_ok_def put_version_def)
qed

lemma merge_document_simps [simp]:
  "document_key (merge_document new old) = document_key old" "pd_checksum (merge_document new old) = pd_checksum old"
  "pd_document (merge_document new old) = pd_document old" "pd_source (merge_document new old) = pd_source new"
  "pd_active (merge_document new old) = (pd_active new \<or> pd_active old)" "pd_assigned (merge_document new old) = pd_assigned new"
  by (simp_all add: merge_document_def document_key_def)

lemma replace_documents_ok:
  assumes "policies_ok rt db" and "distinct (map document_key rows)" and "at_most_one pd_active rows"
    and "\<forall>r \<in> set rows. pd_checksum r = rt_sha256 rt (pd_document r) \<and> pd_source r \<in> set document_sources"
  shows "policies_ok rt (db\<lparr>pdb_documents := rows\<rparr>)"
  using assms by (simp add: policies_ok_def)

lemma document_key_update [simp]:
  "document_key (r\<lparr>pd_active := a\<rparr>) = document_key r" "document_key (r\<lparr>pd_assigned := g\<rparr>) = document_key r"
  "document_key (r\<lparr>pd_active := a, pd_activated_at := t\<rparr>) = document_key r"
  "document_key (r\<lparr>pd_checksum := c, pd_document := d\<rparr>) = document_key r"
  by (simp_all add: document_key_def)

lemma map_document_key:
  assumes "\<And>r. document_key (f r) = document_key r"
  shows "map document_key (map f rows) = map document_key rows"
  using assms by simp

lemma deactivate_all_keys [simp]: "map document_key (deactivate_all rows) = map document_key rows"
  unfolding deactivate_all_def by (rule map_document_key) (rule document_key_update)

lemma deactivate_all_active: "r \<in> set (deactivate_all rows) \<Longrightarrow> \<not> pd_active r"
  by (auto simp: deactivate_all_def)

text \<open>What does not depend on the active mark.\<close>

lemma deactivate_all_rows: "(\<forall>r \<in> set (deactivate_all rows). Q (pd_checksum r) (pd_document r) (pd_source r))
    = (\<forall>r \<in> set rows. Q (pd_checksum r) (pd_document r) (pd_source r))"
  unfolding deactivate_all_def by (induction rows) simp_all

lemma put_document_ok:
  assumes ok: "policies_ok rt db" and row: "pd_checksum row = rt_sha256 rt (pd_document row)" "pd_source row \<in> set document_sources"
  shows "policies_ok rt (put_document row db)"
proof -
  let ?rows = "if pd_active row then deactivate_all (pdb_documents db) else pdb_documents db"
  let ?new = "upsert document_key merge_document row ?rows"
  have "map document_key ?rows = map document_key (pdb_documents db)" by simp
  then have dist: "distinct (map document_key ?new)" using ok by (intro distinct_upsert) (simp_all add: policies_ok_def)
  have one: "at_most_one pd_active ?new"
  proof (cases "pd_active row")
    case True
    have "document_key r = document_key row" if "r \<in> set ?new" "pd_active r" for r
      using set_upsert [OF that(1)] that(2) True by (auto dest: deactivate_all_active)
    then show ?thesis by (rule at_most_one_key [OF dist])
  next
    case False
    then show ?thesis using ok by (intro at_most_one_upsert) (simp_all add: policies_ok_def)
  qed
  have rows: "\<forall>r \<in> set ?rows. pd_checksum r = rt_sha256 rt (pd_document r) \<and> pd_source r \<in> set document_sources"
    using ok deactivate_all_rows [of "pdb_documents db" "\<lambda>c d s. c = rt_sha256 rt d \<and> s \<in> set document_sources"]
    by (simp add: policies_ok_def)
  have "\<forall>r \<in> set ?new. pd_checksum r = rt_sha256 rt (pd_document r) \<and> pd_source r \<in> set document_sources"
  proof
    fix r
    assume "r \<in> set ?new"
    from set_upsert [OF this] show "pd_checksum r = rt_sha256 rt (pd_document r) \<and> pd_source r \<in> set document_sources"
      using rows row by (elim disjE bexE) auto
  qed
  then show ?thesis unfolding put_document_def by (rule replace_documents_ok [OF ok dist one])
qed

lemma cache_policy_document_ok:
  "cache_policy_document rt i v c d src active assigned now db = Inr db' \<Longrightarrow> policies_ok rt db \<Longrightarrow> policies_ok rt db'"
  unfolding cache_policy_document_def by (auto simp: ebind_Inr_iff split: if_split_asm intro!: put_document_ok)

lemma set_policy_version_ok:
  "set_policy_version rt i v c m active now db = Inr db' \<Longrightarrow> policies_ok rt db \<Longrightarrow> policies_ok rt db'"
  unfolding set_policy_version_def by (auto simp: ebind_Inr_iff intro!: put_version_ok)

text \<open>Operations that change rows in place, without their keys.\<close>

lemma map_documents_ok:
  assumes ok: "policies_ok rt db" and "\<And>r. document_key (f r) = document_key r"
    and "\<And>r. r \<in> set (pdb_documents db) \<Longrightarrow> pd_checksum r = rt_sha256 rt (pd_document r) \<Longrightarrow> pd_checksum (f r) = rt_sha256 rt (pd_document (f r))"
    and "\<And>r. pd_source (f r) = pd_source r" and "at_most_one pd_active (map f (pdb_documents db))"
  shows "policies_ok rt (db\<lparr>pdb_documents := map f (pdb_documents db)\<rparr>)"
  using assms by (auto simp: policies_ok_def comp_def)

lemma revoke_ok: "policies_ok rt db \<Longrightarrow> policies_ok rt (revoke_cloud_policy_assignments db)"
  unfolding revoke_cloud_policy_assignments_def
  by (intro map_documents_ok at_most_one_map) (auto simp: policies_ok_def split: if_splits)

lemma migrate_ok:
  assumes "migrate_policy_document_canonicalization rt i v e c d db = Inr db'" and ok: "policies_ok rt db"
  shows "policies_ok rt db'"
proof -
  obtain k e' t where db': "db' = db\<lparr>pdb_documents := map (\<lambda>r. if document_key r = k \<and> pd_checksum r = e'
      then r\<lparr>pd_checksum := rt_sha256 rt t, pd_document := t\<rparr> else r) (pdb_documents db)\<rparr>"
    using assms(1) unfolding migrate_policy_document_canonicalization_def ebind_Inr_iff
    by (auto split: if_split_asm option.splits)
  show ?thesis
    unfolding db' using ok
    by (intro map_documents_ok at_most_one_map) (auto simp: policies_ok_def split: if_splits)
qed

lemma activate_ok:
  assumes "activate_policy_document i v now db = Inr db'" and ok: "policies_ok rt db"
  shows "policies_ok rt db'"
proof -
  obtain k where db': "db' = db\<lparr>pdb_documents := map (\<lambda>r. if document_key r = k
      then r\<lparr>pd_active := True, pd_activated_at := Some now\<rparr> else r) (deactivate_all (pdb_documents db))\<rparr>"
    using assms(1) by (auto simp: activate_policy_document_def ebind_Inr_iff split: if_split_asm)
  let ?f = "\<lambda>r. if document_key r = k then r\<lparr>pd_active := True, pd_activated_at := Some now\<rparr> else r"
  let ?new = "map ?f (deactivate_all (pdb_documents db))"
  have "map document_key ?new = map document_key (deactivate_all (pdb_documents db))"
    by (rule map_document_key) simp
  then have dist: "distinct (map document_key ?new)" using ok by (simp add: policies_ok_def del: map_map)
  have "document_key r = k" if "r \<in> set ?new" "pd_active r" for r
    using that by (auto split: if_splits dest: deactivate_all_active)
  then have one: "at_most_one pd_active ?new" by (rule at_most_one_key [OF dist])
  have "\<forall>r \<in> set ?new. pd_checksum r = rt_sha256 rt (pd_document r) \<and> pd_source r \<in> set document_sources"
    using ok by (auto simp: policies_ok_def deactivate_all_def)
  then show ?thesis unfolding db' by (rule replace_documents_ok [OF ok dist one])
qed

lemma put_schema_ok:
  assumes ok: "policies_ok rt db"
  shows "policies_ok rt (put_schema row db)"
proof -
  let ?f = "\<lambda>r. if sv_schema_name r = sv_schema_name row then r\<lparr>sv_active := False\<rparr> else r"
  have "schema_key (?f r) = schema_key r" for r by (simp add: schema_key_def)
  then have "map schema_key (map ?f rows) = map schema_key rows" for rows by simp
  then have "distinct (map schema_key (upsert schema_key (\<lambda>new old. new) row
      (if sv_active row then map ?f (pdb_schemas db) else pdb_schemas db)))"
    using ok by (intro distinct_upsert) (simp_all add: policies_ok_def del: map_map)
  then show ?thesis using ok by (simp add: policies_ok_def put_schema_def)
qed

lemma set_schema_version_ok:
  "set_schema_version rt n v m active now db = Inr db' \<Longrightarrow> policies_ok rt db \<Longrightarrow> policies_ok rt db'"
  unfolding set_schema_version_def by (auto simp: ebind_Inr_iff intro!: put_schema_ok)

end
