(* ===== verification/Analysis_Engine.thy ===== *)
theory Analysis_Engine
  imports Cloud_Repository Redaction Vulnerability_Merge
begin

text \<open>
  The analysis of accepted evidence in the cloud, \<^verbatim>\<open>cloud_service/analysis.py\<close>: the checks of the stored
  upload, one tool run on its SBOM, and the report that merges the persisted tool results. The tool
  adapters, the normalisers of their output and pydantic's model of a vulnerability are parameters.
\<close>

section \<open>Errors and limits\<close>

datatype analysis_error =
    PermanentAnalysisError string
  | AnalysisInputError string
  | RetryableAnalysisError string
  | RepositoryError cloud_error
  | OtherError py_error

definition lift_analysis :: "py_error + 'a \<Rightarrow> analysis_error + 'a" where
  "lift_analysis r = (case r of Inl e \<Rightarrow> Inl (OtherError e) | Inr x \<Rightarrow> Inr x)"

text \<open>\<open>try ... except ValueError\<close> around a validation that raises nothing else.\<close>

definition or_raise :: "analysis_error \<Rightarrow> py_error + 'a \<Rightarrow> analysis_error + 'a" where
  "or_raise e r = (case r of Inl _ \<Rightarrow> Inl e | Inr x \<Rightarrow> Inr x)"

lemma or_raise_Inr [simp]: "or_raise e r = Inr x \<longleftrightarrow> r = Inr x"
  by (auto simp: or_raise_def split: sum.splits)

record analysis_limits =
  li_max_sbom_bytes :: int
  li_max_components :: int
  li_max_vulnerabilities_per_tool :: int
  li_max_endpoint_evidence_bytes :: int
  li_max_endpoint_evidence_nodes :: int
  li_max_report_bytes :: int
  li_max_report_nodes :: int
  li_osv_timeout_seconds :: rat
  li_depscan_timeout_seconds :: rat

definition default_limits :: analysis_limits where
  "default_limits = \<lparr> li_max_sbom_bytes = 26214400, li_max_components = 100000, li_max_vulnerabilities_per_tool = 50000,
     li_max_endpoint_evidence_bytes = 52428800, li_max_endpoint_evidence_nodes = 500000,
     li_max_report_bytes = 104857600, li_max_report_nodes = 1000000, li_osv_timeout_seconds = 300,
     li_depscan_timeout_seconds = 900 \<rparr>"

definition check_limits :: "analysis_limits \<Rightarrow> py_error + analysis_limits" where
  "check_limits l =
    (if \<not> (1024 \<le> li_max_sbom_bytes l \<and> li_max_sbom_bytes l \<le> 104857600)
     then Inl (ValueError ''SBOM byte limit must be between 1 KiB and 100 MiB'')
     else if \<not> (1 \<le> li_max_components l \<and> li_max_components l \<le> 250000)
     then Inl (ValueError ''component limit must be between 1 and 250000'')
     else if \<not> (1 \<le> li_max_vulnerabilities_per_tool l \<and> li_max_vulnerabilities_per_tool l \<le> 50000)
     then Inl (ValueError ''per-tool vulnerability limit must be between 1 and 50000'')
     else if \<not> (1024 \<le> li_max_endpoint_evidence_bytes l \<and> li_max_endpoint_evidence_bytes l \<le> 262144000)
     then Inl (ValueError ''endpoint evidence byte limit is invalid'')
     else if \<not> (1000 \<le> li_max_endpoint_evidence_nodes l \<and> li_max_endpoint_evidence_nodes l \<le> 2000000)
     then Inl (ValueError ''endpoint evidence node limit is invalid'')
     else if \<not> (1024 \<le> li_max_report_bytes l \<and> li_max_report_bytes l \<le> 262144000)
     then Inl (ValueError ''report byte limit is invalid'')
     else if \<not> (10000 \<le> li_max_report_nodes l \<and> li_max_report_nodes l \<le> 4000000)
     then Inl (ValueError ''report node limit is invalid'')
     else if \<not> (1 \<le> li_osv_timeout_seconds l \<and> li_osv_timeout_seconds l \<le> 3600)
     then Inl (ValueError ''OSV timeout must be between 1 and 3600 seconds'')
     else if \<not> (1 \<le> li_depscan_timeout_seconds l \<and> li_depscan_timeout_seconds l \<le> 7200)
     then Inl (ValueError ''dep-scan timeout must be between 1 and 7200 seconds'')
     else Inr l)"

section \<open>The input of a scan\<close>

definition supported_tools :: "string list" where
  "supported_tools = [''OSV'', ''DEPSCAN'']"

definition supported_cyclonedx :: "string list" where
  "supported_cyclonedx = [''1.4'', ''1.5'', ''1.6'', ''1.7'']"

record scan_input =
  si_tenant_id :: string
  si_endpoint_id :: string
  si_scan_id :: string
  si_result :: jobj
  si_inventory_sync :: jobj
  si_sbom :: jobj
  si_sbom_sha256 :: "string option"
  si_expected_tools :: "string list"

definition check_text :: "string \<Rightarrow> string \<Rightarrow> analysis_error + unit" where
  "check_text name value =
    (if value = [] \<or> 128 < length value then Inl (AnalysisInputError (name @ '' must contain 1 to 128 characters''))
     else Inr ())"

definition check_scan_input :: "scan_input \<Rightarrow> analysis_error + scan_input" where
  "check_scan_input i =
    ebind (check_text ''tenant_id'' (si_tenant_id i)) (\<lambda>_.
    ebind (check_text ''endpoint_id'' (si_endpoint_id i)) (\<lambda>_.
    ebind (check_text ''scan_id'' (si_scan_id i)) (\<lambda>_.
      let tools = map py_upper (si_expected_tools i); i = i\<lparr>si_expected_tools := tools\<rparr> in
      if tools = [] \<or> \<not> distinct tools then Inl (AnalysisInputError ''expected tools must be non-empty and unique'')
      else if list_ex (\<lambda>tool. tool \<notin> set supported_tools) tools
      then Inl (AnalysisInputError ''scan input contains an unsupported analysis tool'')
      else case si_sbom_sha256 i of
        None \<Rightarrow> Inr i
      | Some sha \<Rightarrow>
        let checksum = py_casefold sha in
        if length checksum \<noteq> 64 \<or> list_ex (\<lambda>c. \<not> lower_hex_digit c) checksum
        then Inl (AnalysisInputError ''SBOM checksum must be a SHA-256 hexadecimal digest'')
        else if si_sbom i = []
        then Inl (AnalysisInputError ''SBOM checksum cannot be supplied without an SBOM'')
        else Inr (i\<lparr>si_sbom_sha256 := Some checksum\<rparr>))))"

definition object_field :: "string \<Rightarrow> json \<Rightarrow> analysis_error + jobj" where
  "object_field message v = (case v of JObj d \<Rightarrow> Inr d | _ \<Rightarrow> Inl (AnalysisInputError message))"

lemma object_field_Inr [simp]: "object_field m v = Inr d \<longleftrightarrow> v = JObj d"
  by (auto simp: object_field_def split: json.splits)

definition first_text :: "string \<Rightarrow> string option \<Rightarrow> string" where
  "first_text own passed = (if own = [] then (case passed of None \<Rightarrow> [] | Some t \<Rightarrow> t) else own)"

text \<open>\<open>value\<close> is what the repository returned: its input record, or nothing.\<close>

definition coerce_scan_input ::
    "runtime \<Rightarrow> scan_analysis_input option \<Rightarrow> string option \<Rightarrow> string option \<Rightarrow> string option \<Rightarrow>
     analysis_error + scan_input" where
  "coerce_scan_input rt value tenant_id endpoint_id scan_id =
    (case value of
       None \<Rightarrow> Inl (RetryableAnalysisError ''durable scan analysis input is not available'')
     | Some v \<Rightarrow>
       let upload = ai_upload v; sbom = jget_default (JObj []) ''sbom'' upload;
           sbom = (if sbom = JNull then JObj [] else sbom) in
       ebind (object_field ''endpoint result evidence must be an object'' (jget_default (JObj []) ''result'' upload)) (\<lambda>result.
       ebind (object_field ''inventory synchronization evidence must be an object''
           (jget_default (JObj []) ''inventory_sync'' upload)) (\<lambda>inventory_sync.
       ebind (object_field ''CycloneDX SBOM evidence must be an object'' sbom) (\<lambda>sbom.
         check_scan_input \<lparr> si_tenant_id = first_text (ai_tenant_id v) tenant_id,
           si_endpoint_id = first_text (ai_endpoint_id v) endpoint_id, si_scan_id = first_text (ai_scan_id v) scan_id,
           si_result = result, si_inventory_sync = inventory_sync, si_sbom = sbom,
           si_sbom_sha256 = (case jget ''sbom_sha256'' upload of JNull \<Rightarrow> None | v \<Rightarrow> Some (py_str rt v)),
           si_expected_tools = supported_tools \<rparr>))))"

section \<open>Bounded evidence\<close>

definition canonical_bytes :: "runtime \<Rightarrow> jobj \<Rightarrow> analysis_error + string" where
  "canonical_bytes rt d = or_raise (AnalysisInputError ''evidence is not valid JSON'') (canonical_json rt (JObj d))"

definition nested_components :: "string \<Rightarrow> jobj \<Rightarrow> analysis_error + json list" where
  "nested_components message d =
    (case jget_default (JArr []) ''components'' d of JArr xs \<Rightarrow> Inr xs | _ \<Rightarrow> Inl (AnalysisInputError message))"

text \<open>The stack is kept with its top first, so the loop pushes the children in reverse.\<close>

definition raw_components :: "json \<Rightarrow> json list" where
  "raw_components v = (case v of JObj d \<Rightarrow> (case jget_default (JArr []) ''components'' d of JArr xs \<Rightarrow> xs | _ \<Rightarrow> []) | _ \<Rightarrow> [])"

lemma dict_get_size: "dict_get d k = Some v \<Longrightarrow> size v < size_list (size_prod (\<lambda>_. 0) size) d"
  by (induction d) (auto simp: dict_get_def split: if_splits)

lemma raw_components_size: "size_list size (raw_components v) \<le> size v"
proof (cases v)
  case (JObj d)
  show ?thesis
  proof (cases "dict_get d ''components''")
    case (Some w)
    then show ?thesis
      using dict_get_size [OF Some] JObj by (cases w) (auto simp: raw_components_def jget_default_def)
  qed (simp add: JObj raw_components_def jget_default_def)
qed (simp_all add: raw_components_def)

function count_loop :: "int \<Rightarrow> json list \<Rightarrow> int \<Rightarrow> analysis_error + int" where
  "count_loop maximum [] seen = Inr seen"
| "count_loop maximum (raw # stack) seen =
    (case raw of
       JObj d \<Rightarrow>
         if maximum < seen + 1
         then Inl (AnalysisInputError ''CycloneDX component count exceeds the configured limit'')
         else (case nested_components ''nested CycloneDX components must be an array'' d of
             Inl e \<Rightarrow> Inl e
           | Inr _ \<Rightarrow> count_loop maximum (rev (raw_components raw) @ stack) (seen + 1))
     | _ \<Rightarrow> Inl (AnalysisInputError ''CycloneDX component entries must be objects''))"
  by pat_completeness auto
termination
proof (relation "measure (\<lambda>(m, stack, n). size_list size stack)", goal_cases)
  case (2 maximum raw stack seen d x)
  have "size_list size (rev (raw_components raw)) = size_list size (raw_components raw)"
    by (simp add: size_list_conv_sum_list rev_map [symmetric] sum_list_rev)
  then show ?case using raw_components_size [of raw] by (simp add: size_list_append)
qed simp

definition count_components :: "jobj \<Rightarrow> int \<Rightarrow> analysis_error + int" where
  "count_components document maximum =
    ebind (nested_components ''CycloneDX components must be an array'' document) (\<lambda>raw.
      count_loop maximum (rev raw) 0)"

record validated_sbom =
  vs_document :: jobj
  vs_content :: string
  vs_sha256 :: string
  vs_spec_version :: string
  vs_component_count :: int

definition text_of :: "runtime \<Rightarrow> json \<Rightarrow> string" where
  "text_of rt v = (if truthy v then py_str rt v else [])"

definition validate_sbom :: "runtime \<Rightarrow> scan_input \<Rightarrow> analysis_limits \<Rightarrow> analysis_error + validated_sbom" where
  "validate_sbom rt scan limits =
    ebind (or_raise (AnalysisInputError ''CycloneDX SBOM exceeds structural limits'')
        (bounded_json 20 (nat (li_max_report_nodes limits)) (JObj (si_sbom scan)))) (\<lambda>copied.
    ebind (object_field ''CycloneDX SBOM evidence must be an object'' copied) (\<lambda>copied.
    if jget ''bomFormat'' copied \<noteq> JStr ''CycloneDX''
    then Inl (AnalysisInputError ''SBOM must use the CycloneDX format'')
    else let spec_version = text_of rt (jget ''specVersion'' copied) in
    if spec_version \<notin> set supported_cyclonedx
    then Inl (AnalysisInputError ''unsupported CycloneDX SBOM specification version'')
    else ebind (count_components copied (li_max_components limits)) (\<lambda>component_count.
    ebind (canonical_bytes rt copied) (\<lambda>content.
    if li_max_sbom_bytes limits < int (utf8_length content)
    then Inl (AnalysisInputError ''CycloneDX SBOM exceeds the configured byte limit'')
    else let digest = rt_sha256 rt content in
    if si_sbom_sha256 scan \<noteq> None \<and> si_sbom_sha256 scan \<noteq> Some digest
    then Inl (AnalysisInputError ''CycloneDX SBOM checksum does not match its content'')
    else Inr \<lparr> vs_document = copied, vs_content = content, vs_sha256 = digest, vs_spec_version = spec_version,
      vs_component_count = component_count \<rparr>))))"

definition analysis_evidence ::
    "runtime \<Rightarrow> redaction_env \<Rightarrow> analysis_limits \<Rightarrow> string \<Rightarrow> jobj \<Rightarrow> analysis_error + jobj" where
  "analysis_evidence rt env limits label value =
    (let nodes = nat (li_max_endpoint_evidence_nodes limits) in
    ebind (or_raise (AnalysisInputError (label @ '' exceeds structural limits'')) (bounded_json 20 nodes (JObj value))) (\<lambda>copied.
    ebind (object_field (label @ '' must be an object'') copied) (\<lambda>copied.
    ebind (canonical_bytes rt copied) (\<lambda>encoded.
    if li_max_endpoint_evidence_bytes limits < int (utf8_length encoded)
    then Inl (AnalysisInputError (label @ '' exceeds the configured byte limit''))
    else object_field (label @ '' redaction produced an invalid object'')
      (fst (redact_walk env 20 nodes (of_json (JObj copied)) 0 False 0))))))"

definition normalized_status :: "runtime \<Rightarrow> json \<Rightarrow> string" where
  "normalized_status rt value =
    (let status = py_upper (py_str rt value) in
     if status \<in> {''SUCCESS'', ''PARTIAL'', ''FAILED'', ''UNAVAILABLE'', ''TIMEOUT'', ''SKIPPED''} then status else ''FAILED'')"

definition tool_result_error :: "runtime \<Rightarrow> redaction_env \<Rightarrow> json \<Rightarrow> string option" where
  "tool_result_error rt env error =
    (if error = JNull then None
     else let cleaned = py_strip (redact_text env 2048 (py_str rt error)) in
       if cleaned = [] then None else Some cleaned)"

end
