(* ===== verification/Analysis_Report.thy ===== *)
theory Analysis_Report
  imports Analysis_Engine
begin

text \<open>
  \<open>CloudAnalysisEngine\<close> of \<^verbatim>\<open>cloud_service/analysis.py\<close>: one tool run and the final report. An adapter
  or a normaliser returns its result or the text of the exception the code catches around it.
\<close>

section \<open>The engine\<close>

datatype tool_state = TOOL_SUCCESS | TOOL_PARTIAL | TOOL_FAILED | TOOL_UNAVAILABLE | TOOL_TIMEOUT

fun tool_state_value :: "tool_state \<Rightarrow> string" where
  "tool_state_value TOOL_SUCCESS = ''SUCCESS''"
| "tool_state_value TOOL_PARTIAL = ''PARTIAL''"
| "tool_state_value TOOL_FAILED = ''FAILED''"
| "tool_state_value TOOL_UNAVAILABLE = ''UNAVAILABLE''"
| "tool_state_value TOOL_TIMEOUT = ''TIMEOUT''"

record tool_execution =
  te_tool :: string
  te_status :: tool_state
  te_payload :: json
  te_version :: "string option"
  te_duration_seconds :: rat
  te_error :: "string option"
  te_warnings :: "string list"

definition execution_ok :: "tool_execution \<Rightarrow> bool" where
  "execution_ok x \<longleftrightarrow> te_status x = TOOL_SUCCESS \<or> te_status x = TOOL_PARTIAL"

record engine =
  en_runtime :: runtime
  en_limits :: analysis_limits
  en_fixture_mode :: bool
  en_fixture_records :: "(string \<times> json list) list"
  en_configured :: "string \<Rightarrow> bool"
  en_adapter :: "string \<Rightarrow> string \<Rightarrow> string + tool_execution"
  en_normalize :: "string \<Rightarrow> json list \<Rightarrow> string \<Rightarrow> string \<Rightarrow> string + (vulnerability list \<times> string list)"
  en_validate :: "json \<Rightarrow> vulnerability option"
  en_dump :: "vulnerability \<Rightarrow> json"
  en_order :: "string list \<Rightarrow> string list"
  en_redaction :: redaction_env
  en_iso :: "int \<Rightarrow> string"

definition analysis_version :: string where "analysis_version = ''1.0.0''"
definition fixture_time :: int where "fixture_time = 946684800000000"
definition fixture_version :: string where "fixture_version = ''deterministic-fixture-v1''"

definition engine_now :: "engine \<Rightarrow> int \<Rightarrow> int" where
  "engine_now en t = (if en_fixture_mode en then fixture_time else t)"

section \<open>One tool\<close>

definition fixture_execution :: "engine \<Rightarrow> string \<Rightarrow> tool_execution" where
  "fixture_execution en tool =
    (let records = (case dict_get (en_fixture_records en) tool of None \<Rightarrow> [] | Some rs \<Rightarrow> rs) in
     if li_max_vulnerabilities_per_tool (en_limits en) < int (length records)
     then \<lparr> te_tool = py_casefold tool, te_status = TOOL_FAILED, te_payload = JNull, te_version = Some fixture_version,
       te_duration_seconds = 0, te_error = Some ''fixture vulnerability count exceeds the configured limit'', te_warnings = [] \<rparr>
     else \<lparr> te_tool = py_casefold tool, te_status = TOOL_SUCCESS, te_payload = JArr records,
       te_version = Some fixture_version, te_duration_seconds = 0, te_error = None, te_warnings = [] \<rparr>)"

definition failed_execution :: "string \<Rightarrow> tool_state \<Rightarrow> string option \<Rightarrow> tool_execution" where
  "failed_execution tool status error =
    \<lparr> te_tool = tool, te_status = status, te_payload = JNull, te_version = None, te_duration_seconds = 0,
      te_error = error, te_warnings = [] \<rparr>"

definition execute_tool :: "engine \<Rightarrow> string \<Rightarrow> string \<Rightarrow> string + tool_execution" where
  "execute_tool en tool content =
    (if en_fixture_mode en then Inr (fixture_execution en tool)
     else if \<not> en_configured en tool
     then Inr (if tool = ''OSV''
       then failed_execution ''osv-scanner'' TOOL_UNAVAILABLE (Some ''OSV-Scanner is not configured in the cloud worker'')
       else failed_execution ''depscan'' TOOL_UNAVAILABLE (Some ''OWASP dep-scan is not configured in the cloud worker''))
     else en_adapter en tool content)"

text \<open>\<open>merge_vulnerabilities\<close> has a result for every list: the fuel of its union-find suffices (\<open>groups_exact\<close>).\<close>

definition merged :: "engine \<Rightarrow> vulnerability list \<Rightarrow> py_error + vulnerability list" where
  "merged en vs = (case merge_vulnerabilities (en_order en) vs of None \<Rightarrow> Inl (RuntimeError []) | Some r \<Rightarrow> r)"

definition failure :: "tool_execution \<Rightarrow> string \<Rightarrow> tool_execution" where
  "failure x error = x\<lparr>te_status := TOOL_FAILED, te_payload := JNull, te_error := Some error, te_warnings := []\<rparr>"

definition py_error_text :: "py_error \<Rightarrow> string" where
  "py_error_text e = (case e of ValueError s \<Rightarrow> s | TypeError s \<Rightarrow> s | KeyError s \<Rightarrow> s | RuntimeError s \<Rightarrow> s
     | TimeoutError s \<Rightarrow> s | AttributeError s \<Rightarrow> s | AssertionError \<Rightarrow> [])"

text \<open>\<open>f"... {_tool_result_error(exc)}"\<close>.\<close>

definition error_text :: "engine \<Rightarrow> string \<Rightarrow> string" where
  "error_text en e = (case tool_result_error (en_runtime en) (en_redaction en) (JStr e) of None \<Rightarrow> ''None'' | Some t \<Rightarrow> t)"

text \<open>The execution after the checks of its payload, its warnings and its vulnerabilities.\<close>

definition normalize_execution ::
    "engine \<Rightarrow> string \<Rightarrow> scan_input \<Rightarrow> tool_execution \<Rightarrow> tool_execution \<times> string list \<times> vulnerability list" where
  "normalize_execution en tool scan x =
    (let warnings = map (redact_text (en_redaction en) 1024) (take 128 (te_warnings x)) in
     if \<not> execution_ok x then (x, warnings, [])
     else case te_payload x of
       JArr payload \<Rightarrow>
         if li_max_vulnerabilities_per_tool (en_limits en) < int (length payload)
         then (failure x ''tool vulnerability count exceeds the configured limit'', warnings, [])
         else (case en_normalize en tool payload (si_scan_id scan) (si_endpoint_id scan) of
             Inl e \<Rightarrow> (failure x (''tool normalization failed: '' @ error_text en e), warnings, [])
           | Inr (vs, ws) \<Rightarrow>
             let warnings = warnings @ take 128 ws in
             (case merged en vs of
                Inl e \<Rightarrow> (failure x (''tool normalization failed: '' @ error_text en (py_error_text e)), warnings, [])
              | Inr vs \<Rightarrow> (x, warnings, vs)))
     | _ \<Rightarrow> (failure x ''tool returned an invalid normalized payload'', warnings, []))"

definition text_field :: "string option \<Rightarrow> json" where
  "text_field v = (case v of None \<Rightarrow> JNull | Some s \<Rightarrow> JStr s)"

definition execution_mode :: "engine \<Rightarrow> string" where
  "execution_mode en = (if en_fixture_mode en then ''NON_PRODUCTION_DETERMINISTIC_FIXTURE'' else ''CLOUD_TOOL_EXECUTION'')"

definition tool_result ::
    "engine \<Rightarrow> scan_input \<Rightarrow> string \<Rightarrow> string \<Rightarrow> int \<Rightarrow> int \<Rightarrow> rat \<Rightarrow> string option \<Rightarrow> string option \<Rightarrow> string list \<Rightarrow>
     json list \<Rightarrow> validated_sbom option \<Rightarrow> string option \<Rightarrow> jobj" where
  "tool_result en scan tool status started finished duration version error warnings vulnerabilities sbom adapter =
    [(''schema_version'', JStr ''1.0''), (''analysis_version'', JStr analysis_version),
     (''tenant_id'', JStr (si_tenant_id scan)), (''endpoint_id'', JStr (si_endpoint_id scan)),
     (''scan_id'', JStr (si_scan_id scan)), (''tool'', JStr tool), (''status'', JStr status),
     (''fixture_mode'', JBool (en_fixture_mode en)), (''started_at'', JStr (en_iso en started)),
     (''finished_at'', JStr (en_iso en finished)), (''duration_seconds'', JFloat (Finite (max 0 duration))),
     (''tool_version'', text_field version), (''error'', text_field error), (''warnings'', JArr (map JStr warnings)),
     (''vulnerabilities'', JArr vulnerabilities),
     (''summary'', JObj [(''vulnerability_count'', JInt (int (length vulnerabilities))),
        (''normalization_warning_count'', JInt (int (length warnings)))]),
     (''provenance'', JObj [(''execution_mode'', JStr (execution_mode en)),
        (''sbom_sha256'', text_field (map_option vs_sha256 sbom)),
        (''sbom_spec_version'', text_field (map_option vs_spec_version sbom)),
        (''sbom_component_count'', (case sbom of None \<Rightarrow> JNull | Some v \<Rightarrow> JInt (vs_component_count v))),
        (''adapter'', text_field adapter), (''tool_version'', text_field version)])]"

definition bound_report_object :: "engine \<Rightarrow> string \<Rightarrow> jobj \<Rightarrow> analysis_error + jobj" where
  "bound_report_object en label value =
    ebind (or_raise (PermanentAnalysisError (label @ '' exceeds structural limits''))
        (bounded_json 20 (nat (li_max_report_nodes (en_limits en))) (JObj value))) (\<lambda>copied.
    case copied of
      JObj d \<Rightarrow> ebind (canonical_bytes (en_runtime en) d) (\<lambda>encoded.
        if li_max_report_bytes (en_limits en) < int (utf8_length encoded)
        then Inl (PermanentAnalysisError (label @ '' exceeds the configured byte limit''))
        else Inr d)
    | _ \<Rightarrow> Inl (PermanentAnalysisError (label @ '' must be an object'')))"

definition analyze_tool :: "engine \<Rightarrow> int \<Rightarrow> int \<Rightarrow> string \<Rightarrow> scan_input \<Rightarrow> analysis_error + jobj" where
  "analyze_tool en started finished tool scan =
    (let tool = py_upper tool; started = engine_now en started; finished = engine_now en finished in
     if tool \<notin> set (si_expected_tools scan) \<or> tool \<notin> set supported_tools
     then Inl (AnalysisInputError ''analysis task requests a tool outside the scan contract'')
     else if si_sbom scan = []
     then bound_report_object en ''tool analysis result''
       (tool_result en scan tool ''SKIPPED'' started finished 0 None
         (Some ''CycloneDX SBOM was not supplied by the endpoint'') [] [] None None)
     else ebind (validate_sbom (en_runtime en) scan (en_limits en)) (\<lambda>validated.
       let x = (case execute_tool en tool (vs_content validated) of
             Inl e \<Rightarrow> failed_execution (py_casefold tool) TOOL_FAILED (tool_result_error (en_runtime en) (en_redaction en) (JStr e))
           | Inr x \<Rightarrow> x) in
       case normalize_execution en tool scan x of (x, warnings, vulnerabilities) \<Rightarrow>
       let vulnerabilities = (if en_fixture_mode en then map (\<lambda>v. v\<lparr>vu_detected_at := fixture_time\<rparr>) vulnerabilities
             else vulnerabilities);
           status = (if te_status x = TOOL_SUCCESS \<and> warnings \<noteq> [] then ''PARTIAL'' else tool_state_value (te_status x)) in
       bound_report_object en ''tool analysis result''
         (tool_result en scan tool status started finished (te_duration_seconds x) (te_version x)
           (case te_error x of None \<Rightarrow> None | Some e \<Rightarrow> tool_result_error (en_runtime en) (en_redaction en) (JStr e)) warnings
           (map (en_dump en) vulnerabilities) (Some validated) (Some (te_tool x)))))"

section \<open>The final report\<close>

record tool_summary =
  ts_tool :: string
  ts_status :: string
  ts_fixture :: bool
  ts_version :: json
  ts_finished_at :: string
  ts_duration :: json
  ts_error :: "string option"
  ts_warnings :: "string list"
  ts_vulnerabilities :: "vulnerability list"
  ts_rejected :: nat
  ts_provenance :: jobj

definition optional_string :: "runtime \<Rightarrow> json \<Rightarrow> json" where
  "optional_string rt v = (let t = text_of rt v in if t = [] then JNull else JStr t)"

text \<open>What the loop over the expected tools keeps of a persisted result, and one turn of it.\<close>

definition make_summary :: "engine \<Rightarrow> string \<Rightarrow> jobj \<Rightarrow> json list \<Rightarrow> tool_summary" where
  "make_summary en tool raw items =
    (let rt = en_runtime en; status = normalized_status rt (jget ''status'' raw);
         accepted = (if status \<noteq> ''SUCCESS'' \<and> status \<noteq> ''PARTIAL'' then [] else List.map_filter (en_validate en) items)
     in \<lparr> ts_tool = tool, ts_status = status, ts_fixture = (jget ''fixture_mode'' raw = JBool True),
       ts_version = optional_string rt (jget ''tool_version'' raw), ts_finished_at = text_of rt (jget ''finished_at'' raw),
       ts_duration = jget ''duration_seconds'' raw,
       ts_error = tool_result_error rt (en_redaction en) (jget ''error'' raw),
       ts_warnings = (case jget_default (JArr []) ''warnings'' raw of
           JArr ws \<Rightarrow> map (\<lambda>w. redact_text (en_redaction en) 1024 (py_str rt w)) (take 128 ws) | _ \<Rightarrow> []),
       ts_vulnerabilities = accepted, ts_rejected = length items - length accepted,
       ts_provenance = redact_mapping (en_redaction en) (of_json (case jget_default (JObj []) ''provenance'' raw of
           JObj p \<Rightarrow> JObj p | _ \<Rightarrow> JObj [])) \<rparr>)"

definition summarize_tool :: "engine \<Rightarrow> scan_input \<Rightarrow> string \<Rightarrow> json \<Rightarrow> analysis_error + tool_summary" where
  "summarize_tool en scan tool raw_value =
    (let rt = en_runtime en; persisted = ''persisted '' @ tool in
     case raw_value of
       JObj raw \<Rightarrow>
       let synthetic_failure = (normalized_status rt (jget ''status'' raw) = ''FAILED'' \<and> \<not> dict_has ''scan_id'' raw) in
       if \<not> synthetic_failure \<and> text_of rt (jget ''scan_id'' raw) \<noteq> si_scan_id scan
       then Inl (PermanentAnalysisError (persisted @ '' result belongs to another scan''))
       else if \<not> synthetic_failure \<and> text_of rt (jget ''endpoint_id'' raw) \<noteq> si_endpoint_id scan
       then Inl (PermanentAnalysisError (persisted @ '' result belongs to another endpoint''))
       else (case jget_default (JArr []) ''vulnerabilities'' raw of
         JArr items \<Rightarrow>
           if li_max_vulnerabilities_per_tool (en_limits en) < int (length items)
           then Inl (PermanentAnalysisError (persisted @ '' result exceeds record limits''))
           else Inr (make_summary en tool raw items)
       | _ \<Rightarrow> Inl (PermanentAnalysisError (persisted @ '' vulnerabilities must be an array'')))
     | _ \<Rightarrow> Inl (PermanentAnalysisError (persisted @ '' result must be an object'')))"

fun summarize_tools :: "engine \<Rightarrow> scan_input \<Rightarrow> (string \<times> json) list \<Rightarrow> string list \<Rightarrow> analysis_error + tool_summary list" where
  "summarize_tools en scan results [] = Inr []"
| "summarize_tools en scan results (tool # tools) =
    ebind (summarize_tool en scan tool (jget tool results)) (\<lambda>s.
    ebind (summarize_tools en scan results tools) (\<lambda>ss. Inr (s # ss)))"

definition summary_json :: "tool_summary \<Rightarrow> json" where
  "summary_json s = JObj
    [(''status'', JStr (ts_status s)), (''fixture_mode'', JBool (ts_fixture s)), (''tool_version'', ts_version s),
     (''finished_at'', if ts_finished_at s = [] then JNull else JStr (ts_finished_at s)),
     (''duration_seconds'', ts_duration s), (''error'', text_field (ts_error s)), (''warnings'', JArr (map JStr (ts_warnings s))),
     (''records_accepted'', JInt (int (length (ts_vulnerabilities s)))), (''records_rejected'', JInt (int (ts_rejected s))),
     (''provenance'', JObj (ts_provenance s))]"

definition severity_value :: "severity \<Rightarrow> string" where
  "severity_value s = (case s of CRITICAL \<Rightarrow> ''CRITICAL'' | HIGH \<Rightarrow> ''HIGH'' | MEDIUM \<Rightarrow> ''MEDIUM'' | LOW \<Rightarrow> ''LOW'' | INFO \<Rightarrow> ''INFO'')"

definition severity_counts :: "vulnerability list \<Rightarrow> json" where
  "severity_counts vs = JObj (map (\<lambda>s. (severity_value s, JInt (int (length (filter (\<lambda>v. vu_severity v = s) vs)))))
     [CRITICAL, HIGH, MEDIUM, LOW, INFO])"

text \<open>What the report says of the tools as a whole.\<close>

record verdict =
  ve_successful :: "string list"
  ve_usable :: "string list"
  ve_degraded :: "string list"
  ve_fixture :: bool
  ve_complete :: bool
  ve_status :: string

definition judge :: "engine \<Rightarrow> bool \<Rightarrow> tool_summary list \<Rightarrow> verdict" where
  "judge en evidence ss =
    (let successful = sort (map ts_tool (filter (\<lambda>s. ts_status s = ''SUCCESS'') ss));
         usable = sort (map ts_tool (filter (\<lambda>s. ts_status s = ''SUCCESS'' \<or> ts_status s = ''PARTIAL'') ss));
         degraded = sort (filter (\<lambda>t. t \<notin> set successful) (map ts_tool ss));
         fixture = (en_fixture_mode en \<or> list_ex ts_fixture ss);
         complete = (\<not> fixture \<and> degraded = [] \<and> list_all (\<lambda>s. ts_rejected s = 0) ss)
     in \<lparr> ve_successful = successful, ve_usable = usable, ve_degraded = degraded, ve_fixture = fixture, ve_complete = complete,
       ve_status = (if fixture then ''FIXTURE'' else if complete then ''SUCCESS''
         else if usable \<noteq> [] \<or> evidence then ''PARTIAL'' else ''FAILED'') \<rparr>)"

definition report_gaps :: "verdict \<Rightarrow> tool_summary list \<Rightarrow> string list" where
  "report_gaps v ss =
    (if ve_fixture v then [''non-production deterministic fixture evidence''] else [])
    @ map (\<lambda>t. t @ '' analysis status is '' @ (case find (\<lambda>s. ts_tool s = t) ss of None \<Rightarrow> [] | Some s \<Rightarrow> ts_status s)) (ve_degraded v)
    @ map (\<lambda>s. ts_tool s @ '' rejected normalized records'') (filter (\<lambda>s. 0 < ts_rejected s) ss)"

definition full_inventory :: "jobj \<Rightarrow> jobj \<Rightarrow> bool" where
  "full_inventory inventory_sync endpoint_result \<longleftrightarrow>
     truthy (jget ''reconstructed_snapshot'' inventory_sync) \<or> jget ''mode'' inventory_sync = JStr ''full''
     \<or> truthy (jget ''snapshot'' inventory_sync)
     \<or> (case jget ''metadata'' endpoint_result of JObj m \<Rightarrow> truthy (jget ''inventory_complete'' m) | _ \<Rightarrow> False)"

definition strings :: "string list \<Rightarrow> json" where
  "strings ss = JArr (map JStr ss)"

definition final_report ::
    "engine \<Rightarrow> int \<Rightarrow> scan_input \<Rightarrow> validated_sbom option \<Rightarrow> jobj \<Rightarrow> jobj \<Rightarrow> tool_summary list \<Rightarrow> vulnerability list \<Rightarrow> jobj" where
  "final_report en t scan sbom endpoint_result inventory_sync ss vulnerabilities =
    (let v = judge en (endpoint_result \<noteq> []) ss;
         times = filter (\<lambda>s. s \<noteq> []) (map ts_finished_at ss);
         count = (case sbom of None \<Rightarrow> JNull | Some b \<Rightarrow> JInt (vs_component_count b));
         sha = text_field (map_option vs_sha256 sbom)
     in [(''schema_version'', JStr ''1.0''), (''report_type'', JStr ''CLOUD_ENDPOINT_SECURITY_REPORT''),
      (''report_id'', JStr (''cloud-report:'' @ si_scan_id scan)), (''analysis_version'', JStr analysis_version),
      (''tenant_id'', JStr (si_tenant_id scan)), (''endpoint_id'', JStr (si_endpoint_id scan)), (''scan_id'', JStr (si_scan_id scan)),
      (''status'', JStr (ve_status v)),
      (''analysis_completed_at'', JStr (if times \<noteq> [] then Max (set times) else en_iso en (engine_now en t))),
      (''endpoint_evidence'', JObj [(''result'', JObj endpoint_result), (''inventory_sync'', JObj inventory_sync),
         (''sbom'', JObj [(''bom_format'', JStr ''CycloneDX''), (''spec_version'', text_field (map_option vs_spec_version sbom)),
            (''sha256'', sha), (''component_count'', count)])]),
      (''cloud_analysis'', JObj [(''vulnerabilities'', JArr (map (en_dump en) vulnerabilities)),
         (''tools'', JObj (map (\<lambda>s. (ts_tool s, summary_json s)) ss))]),
      (''summary'', JObj [(''status'', JStr (ve_status v)), (''component_count'', count),
         (''vulnerability_count'', JInt (int (length vulnerabilities))),
         (''vulnerabilities_by_severity'', severity_counts vulnerabilities),
         (''successful_tools'', strings (ve_successful v)), (''usable_tools'', strings (ve_usable v)),
         (''degraded_tools'', strings (ve_degraded v))]),
      (''completeness'', JObj [(''complete'', JBool (ve_complete v)), (''fixture_mode'', JBool (ve_fixture v)),
         (''endpoint_result_received'', JBool (endpoint_result \<noteq> [])), (''inventory_sync_received'', JBool (inventory_sync \<noteq> [])),
         (''full_inventory_available'', JBool (full_inventory inventory_sync endpoint_result)),
         (''sbom_received'', JBool (sbom \<noteq> None)), (''expected_tools'', strings (si_expected_tools scan)),
         (''terminal_tools'', strings (sort (map ts_tool ss))), (''successful_tools'', strings (ve_successful v)),
         (''usable_tools'', strings (ve_usable v)), (''degraded_tools'', strings (ve_degraded v)),
         (''gaps'', strings (report_gaps v ss))]),
      (''provenance'', JObj [(''cloud_analysis_version'', JStr analysis_version),
         (''endpoint_schema_version'', jget ''schema_version'' endpoint_result),
         (''endpoint_scanner_version'', jget ''scanner_version'' endpoint_result),
         (''endpoint_policy_id'', jget ''policy_id'' endpoint_result),
         (''endpoint_policy_version'', jget ''policy_version'' endpoint_result), (''sbom_sha256'', sha),
         (''tool_versions'', JObj (map (\<lambda>s. (ts_tool s, ts_version s)) ss))])])"

definition upper_keys :: "(string \<times> json) list \<Rightarrow> (string \<times> json) list" where
  "upper_keys results = dict_update [] (map (\<lambda>(k, v). (py_upper k, v)) results)"

definition build_final_report :: "engine \<Rightarrow> int \<Rightarrow> scan_input \<Rightarrow> (string \<times> json) list \<Rightarrow> analysis_error + jobj" where
  "build_final_report en t scan tool_results =
    (let rt = en_runtime en; limits = en_limits en in
     ebind (if si_sbom scan = [] then Inr None else ebind (validate_sbom rt scan limits) (\<lambda>v. Inr (Some v))) (\<lambda>validated.
     ebind (analysis_evidence rt (en_redaction en) limits ''endpoint result evidence'' (si_result scan)) (\<lambda>endpoint_result.
     ebind (analysis_evidence rt (en_redaction en) limits ''inventory synchronization evidence'' (si_inventory_sync scan)) (\<lambda>inventory_sync.
     let results = upper_keys tool_results;
         missing = filter (\<lambda>tool. \<not> dict_has tool results) (si_expected_tools scan) in
     if missing \<noteq> []
     then Inl (RetryableAnalysisError (''analysis results are not terminal for: '' @ join_with '', '' (sort missing)))
     else ebind (summarize_tools en scan results (si_expected_tools scan)) (\<lambda>ss.
       let merged_input = concat (map ts_vulnerabilities ss) in
       if li_max_vulnerabilities_per_tool limits * int (length (si_expected_tools scan)) < int (length merged_input)
       then Inl (PermanentAnalysisError ''combined cloud vulnerability limit exceeded'')
       else ebind (lift_analysis (merged en merged_input)) (\<lambda>vulnerabilities.
         bound_report_object en ''final cloud report''
           (final_report en t scan validated endpoint_result inventory_sync ss vulnerabilities)))))))"

end
