(* ===== verification/Analysis_Worker.thy ===== *)
theory Analysis_Worker
  imports Analysis_Report Cloud_Steps
begin

text \<open>
  \<open>AnalysisWorker\<close> of \<^verbatim>\<open>cloud_service/worker.py\<close>: it claims a task from the repository, runs the engine and
  records the outcome, or finalises a scan whose tasks have ended. Several workers and the devices share
  the repository: \<open>ae_others n\<close> is what they do to it before call number \<open>n\<close> of this
  worker, \<open>ae_now n\<close> the reading of the worker's clock before that call and \<open>ae_clock n\<close> the repository's inside it. Publishing a
  notification has no effect on the state and its failures are suppressed, so it is left out.
\<close>

section \<open>Settings\<close>

record worker_settings =
  ws_worker_id :: string
  ws_kinds :: "string list"
  ws_lease_seconds :: int
  ws_max_attempts :: int
  ws_base_backoff_seconds :: rat
  ws_max_backoff_seconds :: rat
  ws_jitter_fraction :: rat
  ws_idle_poll_seconds :: rat

definition check_settings :: "worker_settings \<Rightarrow> py_error + worker_settings" where
  "check_settings w =
    (let kinds = map py_upper (ws_kinds w) in
     if ws_worker_id w = [] \<or> 128 < length (ws_worker_id w)
     then Inl (ValueError ''worker_id must contain 1 to 128 characters'')
     else if kinds = [] \<or> \<not> distinct kinds then Inl (ValueError ''worker kinds must be non-empty and unique'')
     else if list_ex (\<lambda>k. k \<notin> set supported_tools) kinds then Inl (ValueError ''worker kind is unsupported'')
     else if \<not> (10 \<le> ws_lease_seconds w \<and> ws_lease_seconds w \<le> 3600)
     then Inl (ValueError ''lease_seconds must be between 10 and 3600'')
     else if \<not> (1 \<le> ws_max_attempts w \<and> ws_max_attempts w \<le> 20)
     then Inl (ValueError ''max_attempts must be between 1 and 20'')
     else if \<not> (1 / 10 \<le> ws_base_backoff_seconds w \<and> ws_base_backoff_seconds w \<le> 3600)
     then Inl (ValueError ''base backoff must be between 0.1 and 3600 seconds'')
     else if \<not> (ws_base_backoff_seconds w \<le> ws_max_backoff_seconds w \<and> ws_max_backoff_seconds w \<le> 86400)
     then Inl (ValueError ''maximum backoff is invalid'')
     else if \<not> (0 \<le> ws_jitter_fraction w \<and> ws_jitter_fraction w \<le> 1)
     then Inl (ValueError ''jitter fraction must be between 0 and 1'')
     else if \<not> (1 / 20 \<le> ws_idle_poll_seconds w \<and> ws_idle_poll_seconds w \<le> 300)
     then Inl (ValueError ''idle poll must be between 0.05 and 300 seconds'')
     else Inr (w\<lparr>ws_kinds := kinds\<rparr>))"

record analysis_env =
  ae_engine :: engine
  ae_settings :: worker_settings
  ae_random :: "nat \<Rightarrow> rat"
  ae_now :: "nat \<Rightarrow> int"
  ae_clock :: "nat \<Rightarrow> int"
  ae_audit_clock :: "nat \<Rightarrow> int"
  ae_others :: "nat \<Rightarrow> cloud_state \<Rightarrow> cloud_state"

text \<open>The check of the constructor: the lease outlasts the longest tool.\<close>

definition check_worker :: "analysis_env \<Rightarrow> py_error + analysis_env" where
  "check_worker env =
    ebind (check_settings (ae_settings env)) (\<lambda>w.
      let limits = en_limits (ae_engine env) in
      if ws_lease_seconds w < \<lceil>max (li_osv_timeout_seconds limits) (li_depscan_timeout_seconds limits)\<rceil> + 30
      then Inl (ValueError ''worker lease must exceed the longest tool timeout by 30 seconds'')
      else Inr (env\<lparr>ae_settings := w\<rparr>))"

definition backoff :: "worker_settings \<Rightarrow> rat \<Rightarrow> nat \<Rightarrow> rat" where
  "backoff w random attempts =
    (let exponent = min (attempts - 1) 30;
         base = min (ws_max_backoff_seconds w) (ws_base_backoff_seconds w * 2 ^ exponent);
         spread = base * ws_jitter_fraction w;
         centered = min 1 (max 0 random) * 2 - 1
     in max 0 (base + centered * spread))"

text \<open>\<open>timedelta(seconds=x)\<close>, rounded to the even microsecond.\<close>

definition microseconds :: "rat \<Rightarrow> int" where
  "microseconds x =
    (let y = x * 1000000; f = \<lfloor>y\<rfloor>; d = y - of_int f in
     if d < 1 / 2 then f else if 1 / 2 < d then f + 1 else if even f then f else f + 1)"

section \<open>Calls\<close>

type_synonym 'a run = "nat \<times> cloud_state \<Rightarrow> (analysis_error + 'a) \<times> nat \<times> cloud_state"

definition run_return :: "'a \<Rightarrow> 'a run" where
  "run_return x st = (Inr x, st)"

definition run_case :: "'a run \<Rightarrow> (analysis_error \<Rightarrow> 'b run) \<Rightarrow> ('a \<Rightarrow> 'b run) \<Rightarrow> 'b run" where
  "run_case m h f st = (case m st of (Inl e, st') \<Rightarrow> h e st' | (Inr x, st') \<Rightarrow> f x st')"

definition run_fail :: "analysis_error \<Rightarrow> 'a run" where
  "run_fail e st = (Inl e, st)"

definition run_bind :: "'a run \<Rightarrow> ('a \<Rightarrow> 'b run) \<Rightarrow> 'b run" where
  "run_bind m f = run_case m run_fail f"

definition run_lift :: "analysis_error + 'a \<Rightarrow> 'a run" where
  "run_lift r st = (r, st)"

definition call :: "analysis_env \<Rightarrow> (nat \<Rightarrow> cloud_state \<Rightarrow> 'a outcome) \<Rightarrow> 'a run" where
  "call env operation st =
    (case st of (n, s) \<Rightarrow> case operation n (ae_others env n s) of (r, s') \<Rightarrow>
      (case r of Inl e \<Rightarrow> Inl (RepositoryError e) | Inr x \<Rightarrow> Inr x, Suc n, s'))"

lemma run_bind_Inr: "m st = (Inr x, st') \<Longrightarrow> run_bind m f st = f x st'"
  and run_bind_Inl: "m st = (Inl e, st') \<Longrightarrow> run_bind m f st = (Inl e, st')"
  by (simp_all add: run_bind_def run_case_def run_fail_def)

definition query :: "analysis_env \<Rightarrow> (cloud_state \<Rightarrow> 'a) \<Rightarrow> 'a run" where
  "query env f = call env (\<lambda>n s. (Inr (f s), s))"

section \<open>Errors\<close>

fun cloud_error_text :: "cloud_error \<Rightarrow> string" where
  "cloud_error_text (NotFound s) = s"
| "cloud_error_text (Ownership s) = s"
| "cloud_error_text (IdempotencyConflict s) = s"
| "cloud_error_text (StateConflict s) = s"
| "cloud_error_text (InventorySync s) = s"
| "cloud_error_text (InventoryResync s) = s"
| "cloud_error_text (PyError e) = py_error_text e"

fun cloud_error_type :: "cloud_error \<Rightarrow> string" where
  "cloud_error_type (NotFound s) = ''NotFoundError''"
| "cloud_error_type (Ownership s) = ''OwnershipError''"
| "cloud_error_type (IdempotencyConflict s) = ''IdempotencyConflict''"
| "cloud_error_type (StateConflict s) = ''StateConflict''"
| "cloud_error_type (InventorySync s) = ''InventorySyncError''"
| "cloud_error_type (InventoryResync s) = ''InventoryResyncRequired''"
| "cloud_error_type (PyError e) = (case e of ValueError _ \<Rightarrow> ''ValueError'' | TypeError _ \<Rightarrow> ''TypeError'' | KeyError _ \<Rightarrow> ''KeyError''
    | RuntimeError _ \<Rightarrow> ''RuntimeError'' | TimeoutError _ \<Rightarrow> ''TimeoutError'' | AttributeError _ \<Rightarrow> ''AttributeError''
    | AssertionError \<Rightarrow> ''AssertionError'')"

fun error_message :: "analysis_error \<Rightarrow> string" where
  "error_message (PermanentAnalysisError s) = s"
| "error_message (AnalysisInputError s) = s"
| "error_message (RetryableAnalysisError s) = s"
| "error_message (RepositoryError e) = cloud_error_text e"
| "error_message (OtherError e) = py_error_text e"

fun error_type :: "analysis_error \<Rightarrow> string" where
  "error_type (PermanentAnalysisError s) = ''PermanentAnalysisError''"
| "error_type (AnalysisInputError s) = ''AnalysisInputError''"
| "error_type (RetryableAnalysisError s) = ''RetryableAnalysisError''"
| "error_type (RepositoryError e) = cloud_error_type e"
| "error_type (OtherError e) = cloud_error_type (PyError e)"

fun permanent :: "analysis_error \<Rightarrow> bool" where
  "permanent (PermanentAnalysisError _) = True"
| "permanent (AnalysisInputError _) = True"
| "permanent _ = False"

text \<open>\<open>RetryableAnalysisError\<close>, \<open>RuntimeError\<close> and \<open>ValueError\<close>, with their subclasses.\<close>

fun tolerated :: "analysis_error \<Rightarrow> bool" where
  "tolerated (RepositoryError (PyError e)) = (case e of ValueError _ \<Rightarrow> True | RuntimeError _ \<Rightarrow> True | _ \<Rightarrow> False)"
| "tolerated (OtherError e) = (case e of ValueError _ \<Rightarrow> True | RuntimeError _ \<Rightarrow> True | _ \<Rightarrow> False)"
| "tolerated _ = True"

definition safe_text :: "analysis_env \<Rightarrow> string \<Rightarrow> string" where
  "safe_text env s = redact_text (en_redaction (ae_engine env)) 2048 s"

section \<open>Finalisation\<close>

definition results_json :: "(task_kind \<times> jobj) list \<Rightarrow> (string \<times> json) list" where
  "results_json results = map (\<lambda>(k, d). (task_kind_name k, JObj d)) results"

definition finalize_ready_scan :: "analysis_env \<Rightarrow> string \<Rightarrow> scan_input option \<Rightarrow> bool run" where
  "finalize_ready_scan env scan_id given_input =
    run_bind (case given_input of Some i \<Rightarrow> run_return i
      | None \<Rightarrow> run_bind (query env (get_scan_analysis_input scan_id)) (\<lambda>raw.
          run_lift (coerce_scan_input (en_runtime (ae_engine env)) raw None None (Some scan_id)))) (\<lambda>scan.
    run_bind (query env (\<lambda>s. results_json (list_scan_analysis_results scan_id s))) (\<lambda>results.
    if list_ex (\<lambda>kind. \<not> dict_has kind results) (si_expected_tools scan) then run_return False
    else run_bind (\<lambda>(n, s). run_lift (build_final_report (ae_engine env) (ae_now env n) scan results) (n, s)) (\<lambda>report.
      run_bind (call env (\<lambda>n. finalize_scan_report scan_id report (ae_clock env n) (ae_audit_clock env n))) (\<lambda>_.
        run_return True))))"

definition record_failure :: "analysis_env \<Rightarrow> string \<Rightarrow> string \<Rightarrow> unit run" where
  "record_failure env scan_id message =
    call env (\<lambda>n. finalize_scan_report_failure (en_runtime (ae_engine env)) scan_id message (ae_clock env n)
      (ae_clock env n) (ae_audit_clock env n))"

section \<open>One task\<close>

record worker_outcome =
  wo_processed :: bool
  wo_task_id :: "string option"
  wo_kind :: "string option"
  wo_task_status :: "string option"
  wo_finalized :: bool
  wo_error :: "string option"

definition dead_letter :: "analysis_env \<Rightarrow> analysis_task \<Rightarrow> analysis_error \<Rightarrow> bool" where
  "dead_letter env task e \<longleftrightarrow> permanent e \<or> ws_max_attempts (ae_settings env) \<le> int (at_attempts task)"

definition failure_message :: "analysis_env \<Rightarrow> analysis_error \<Rightarrow> string" where
  "failure_message env e =
    (let message = py_strip (safe_text env (error_message e)) in if message = [] then error_type e else message)"

text \<open>The call that records the failure, and what follows it: a dead letter may complete its scan.\<close>

definition fail_call :: "analysis_env \<Rightarrow> analysis_task \<Rightarrow> analysis_error \<Rightarrow> unit run" where
  "fail_call env task e =
    call env (\<lambda>n. fail_analysis_task (at_task_id task) (ws_worker_id (ae_settings env)) (failure_message env e)
      (ae_now env n + (if dead_letter env task e then 0
         else microseconds (backoff (ae_settings env) (ae_random env n) (at_attempts task))))
      (dead_letter env task e) (ae_clock env n))"

definition after_failure :: "analysis_env \<Rightarrow> analysis_task \<Rightarrow> analysis_error \<Rightarrow> worker_outcome run" where
  "after_failure env task e =
    run_bind (if dead_letter env task e
      then run_case (finalize_ready_scan env (at_scan_id task) None)
        (\<lambda>e. if tolerated e then run_return () else run_fail e) (\<lambda>_. run_return ())
      else run_return ()) (\<lambda>_.
    run_return \<lparr> wo_processed = True, wo_task_id = Some (at_task_id task), wo_kind = Some (task_kind_name (at_kind task)),
      wo_task_status = Some (if dead_letter env task e then ''FAILED'' else ''RETRY''), wo_finalized = False,
      wo_error = Some (failure_message env e) \<rparr>)"

definition fail_task :: "analysis_env \<Rightarrow> analysis_task \<Rightarrow> analysis_error \<Rightarrow> worker_outcome run" where
  "fail_task env task e = run_bind (fail_call env task e) (\<lambda>_. after_failure env task e)"

definition result_status :: "runtime \<Rightarrow> jobj \<Rightarrow> string" where
  "result_status rt result = py_upper (if truthy (jget ''status'' result) then py_str rt (jget ''status'' result) else ''FAILED'')"

text \<open>The body of the \<open>try\<close> statement of \<open>_process\<close>.\<close>

definition analyze_task :: "analysis_env \<Rightarrow> analysis_task \<Rightarrow> scan_input run" where
  "analyze_task env task =
    (let rt = en_runtime (ae_engine env); kind = task_kind_name (at_kind task) in
    run_bind (query env (get_scan_analysis_input (at_scan_id task))) (\<lambda>raw.
    run_bind (run_lift (coerce_scan_input rt raw (Some (at_tenant_id task)) (Some (at_endpoint_id task)) (Some (at_scan_id task)))) (\<lambda>scan.
    run_bind (\<lambda>(n, s). run_lift (analyze_tool (ae_engine env) (ae_now env n) (ae_now env (Suc n)) kind scan) (n, s)) (\<lambda>result.
    let tool_status = result_status rt result in
    if tool_status \<in> {''FAILED'', ''TIMEOUT'', ''UNAVAILABLE''}
    then run_fail (RetryableAnalysisError (kind @ '' analysis returned retryable status '' @ tool_status))
    else run_bind (call env (\<lambda>n. complete_analysis_task (at_task_id task) (ws_worker_id (ae_settings env)) result (ae_clock env n))) (\<lambda>_.
      run_return scan)))))"

definition finish_task :: "analysis_env \<Rightarrow> analysis_task \<Rightarrow> scan_input \<Rightarrow> worker_outcome run" where
  "finish_task env task scan =
    run_bind (run_case (finalize_ready_scan env (at_scan_id task) (Some scan))
      (\<lambda>e. if permanent e
        then run_bind (record_failure env (at_scan_id task) (error_message e)) (\<lambda>_.
          run_return (True, Some (safe_text env (error_message e))))
        else if tolerated e then run_return (False, Some (safe_text env (error_message e)))
        else run_fail e)
      (\<lambda>finalized. run_return (finalized, None))) (\<lambda>(finalized, error).
    run_return \<lparr> wo_processed = True, wo_task_id = Some (at_task_id task), wo_kind = Some (task_kind_name (at_kind task)),
      wo_task_status = Some ''SUCCEEDED'', wo_finalized = finalized, wo_error = error \<rparr>)"

definition process :: "analysis_env \<Rightarrow> analysis_task \<Rightarrow> worker_outcome run" where
  "process env task = run_case (analyze_task env task) (fail_task env task) (finish_task env task)"

section \<open>One round\<close>

definition kind_of :: "string \<Rightarrow> task_kind" where
  "kind_of name = (if name = ''OSV'' then OSV else DEPSCAN)"

primrec claim_kinds :: "analysis_env \<Rightarrow> nat list \<Rightarrow> (nat \<times> analysis_task) option run" where
  "claim_kinds env [] = run_return None"
| "claim_kinds env (index # indices) =
    run_bind (call env (\<lambda>n. claim_analysis_task (kind_of (ws_kinds (ae_settings env) ! index))
        (ws_worker_id (ae_settings env)) (ws_lease_seconds (ae_settings env)) (ae_clock env n))) (\<lambda>task.
    case task of Some task \<Rightarrow> run_return (Some (index, task)) | None \<Rightarrow> claim_kinds env indices)"

definition report_outcome :: "bool \<Rightarrow> string \<Rightarrow> bool \<Rightarrow> string option \<Rightarrow> worker_outcome" where
  "report_outcome processed status finalized error =
    \<lparr> wo_processed = processed, wo_task_id = None, wo_kind = Some ''REPORT'', wo_task_status = Some status,
      wo_finalized = finalized, wo_error = error \<rparr>"

definition reconcile :: "analysis_env \<Rightarrow> worker_outcome run" where
  "reconcile env =
    run_bind (query env next_scan_ready_for_finalization) (\<lambda>ready. case ready of
      None \<Rightarrow> run_return \<lparr> wo_processed = False, wo_task_id = None, wo_kind = None, wo_task_status = None,
        wo_finalized = False, wo_error = None \<rparr>
    | Some scan_id \<Rightarrow> run_case (finalize_ready_scan env scan_id None)
        (\<lambda>e. if permanent e
          then run_bind (record_failure env scan_id (error_message e)) (\<lambda>_.
            run_return (report_outcome True ''FAILED'' True (Some (safe_text env (error_message e)))))
          else if tolerated e then run_return (report_outcome False ''RETRY'' False (Some (safe_text env (error_message e))))
          else run_fail e)
        (\<lambda>finalized. run_return (report_outcome True ''SUCCEEDED'' finalized None)))"

text \<open>\<open>run_once\<close>, with \<open>_next_kind_index\<close> before and after.\<close>

definition run_analysis :: "analysis_env \<Rightarrow> nat \<Rightarrow> nat \<times> cloud_state \<Rightarrow>
    (analysis_error + worker_outcome) \<times> nat \<times> nat \<times> cloud_state" where
  "run_analysis env start st =
    (let count = length (ws_kinds (ae_settings env)) in
     case claim_kinds env (map (\<lambda>offset. (start + offset) mod count) [0 ..< count]) st of
       (Inl e, st) \<Rightarrow> (Inl e, start, st)
     | (Inr (Some (index, task)), st) \<Rightarrow>
         (case process env task st of (r, st) \<Rightarrow> (r, (index + 1) mod count, st))
     | (Inr None, st) \<Rightarrow> (case reconcile env st of (r, st) \<Rightarrow> (r, start, st)))"

end
