(* ===== verification/Analysis_Runs.thy ===== *)
theory Analysis_Runs
  imports Analysis_Worker
begin

text \<open>
  What a run of the analysis worker does to the repository. The locale carries a relation on states, kept
  by every call, over a whole run; it is used for the runs of the repository and for the rows of one task.
\<close>

section \<open>Relations kept by a run\<close>

definition related :: "(cloud_state \<Rightarrow> cloud_state \<Rightarrow> bool) \<Rightarrow> 'a run \<Rightarrow> bool" where
  "related R m \<longleftrightarrow> (\<forall>st. R (snd st) (snd (snd (m st))))"

definition others_related :: "(cloud_state \<Rightarrow> cloud_state \<Rightarrow> bool) \<Rightarrow> analysis_env \<Rightarrow> bool" where
  "others_related R env \<longleftrightarrow> (\<forall>n s. R s (ae_others env n s))"

lemma relatedD: "related R m \<Longrightarrow> m st = (r, st') \<Longrightarrow> R (snd st) (snd st')"
  unfolding related_def by (metis snd_conv)

locale run_relation =
  fixes R :: "cloud_state \<Rightarrow> cloud_state \<Rightarrow> bool"
  assumes refl: "R s s" and trans: "R s t \<Longrightarrow> R t u \<Longrightarrow> R s u"
begin

lemma related_return: "related R (run_return x)" "related R (run_fail e)" "related R (run_lift r)"
  by (simp_all add: related_def run_return_def run_fail_def run_lift_def refl)

lemma related_timed: "related R (\<lambda>(n, s). run_lift (f n) (n, s))"
  by (simp add: related_def run_lift_def refl)

lemma related_case:
  assumes "related R m" and "\<And>e. related R (h e)" and "\<And>x. related R (f x)"
  shows "related R (run_case m h f)"
  unfolding related_def
proof
  fix st
  obtain r st' where m: "m st = (r, st')" by (rule prod.exhaust)
  have "R (snd st') (snd (snd (run_case m h f st)))"
    using assms(2,3) by (cases r) (simp_all add: run_case_def m related_def del: split_paired_All)
  then show "R (snd st) (snd (snd (run_case m h f st)))" by (rule trans [OF relatedD [OF assms(1) m]])
qed

lemma related_bind: "related R m \<Longrightarrow> (\<And>x. related R (f x)) \<Longrightarrow> related R (run_bind m f)"
  unfolding run_bind_def by (intro related_case related_return)

lemma related_call:
  assumes "others_related R env" and "\<And>n s. R s (snd (operation n s))"
  shows "related R (call env operation)"
  unfolding related_def
proof
  fix st :: "nat \<times> cloud_state"
  obtain n s where st: "st = (n, s)" by (rule prod.exhaust)
  have "R s (snd (operation n (ae_others env n s)))"
    by (rule trans [of s "ae_others env n s"]) (use assms in \<open>auto simp: others_related_def\<close>)
  then show "R (snd st) (snd (snd (call env operation st)))"
    by (cases "operation n (ae_others env n s)") (simp add: st call_def)
qed

lemma related_query: "others_related R env \<Longrightarrow> related R (query env f)"
  unfolding query_def by (rule related_call) (simp_all add: refl)

lemma related_let: "related R (f x) \<Longrightarrow> related R (Let x f)"
  by simp

lemma related_if: "related R m \<Longrightarrow> related R m' \<Longrightarrow> related R (if b then m else m')"
  by simp

lemma related_option: "related R m \<Longrightarrow> (\<And>x. related R (f x)) \<Longrightarrow> related R (case v of None \<Rightarrow> m | Some x \<Rightarrow> f x)"
  by (simp split: option.splits)

lemma related_prod: "(\<And>x y. related R (f x y)) \<Longrightarrow> related R (case p of (x, y) \<Rightarrow> f x y)"
  by (simp split: prod.splits)

lemmas related_intros = related_return related_timed related_bind related_case related_query related_let
  related_if related_option related_prod

lemma related_finalize:
  "others_related R env \<Longrightarrow> (\<And>s k rep now aud. R s (snd (finalize_scan_report k rep now aud s))) \<Longrightarrow>
    related R (finalize_ready_scan env k i)"
  unfolding finalize_ready_scan_def by (intro related_intros related_call)

lemma related_finish:
  assumes "others_related R env" and "\<And>s k rep now aud. R s (snd (finalize_scan_report k rep now aud s))"
    and "\<And>s k err t now aud. R s (snd (finalize_scan_report_failure (en_runtime (ae_engine env)) k err t now aud s))"
  shows "related R (finish_task env t i)" "related R (reconcile env)"
  unfolding finish_task_def reconcile_def record_failure_def
  by (intro related_intros related_finalize related_call assms)+

end

section \<open>Runs of the repository\<close>

interpretation repository: run_relation "(any_step rt)\<^sup>*\<^sup>*" for rt
  by unfold_locales (auto intro: rtranclp_trans)

text \<open>Each operation the worker calls is a step of the repository.\<close>

lemma any_stepI: "cloud_step rt t s s' \<Longrightarrow> any_step rt s s'"
  by (auto simp: any_step_def)

lemma worker_steps:
  "(any_step rt)\<^sup>*\<^sup>* s (snd (finalize_scan_report k rep now aud s))"
  "(any_step rt)\<^sup>*\<^sup>* s (snd (finalize_scan_report_failure rt k err t now aud s))"
  "(any_step rt)\<^sup>*\<^sup>* s (snd (claim_analysis_task kind w secs now s))"
  "(any_step rt)\<^sup>*\<^sup>* s (snd (complete_analysis_task k w res now s))"
  "(any_step rt)\<^sup>*\<^sup>* s (snd (fail_analysis_task k w err retry dead now s))"
  by (rule r_into_rtranclp, rule any_stepI,
      rule cloud_step.finalize cloud_step.finalize_failure cloud_step.claim_task cloud_step.complete_task cloud_step.fail_task)+

lemma process_runs:
  assumes "others_related (any_step rt)\<^sup>*\<^sup>* env" and "en_runtime (ae_engine env) = rt"
  shows "related (any_step rt)\<^sup>*\<^sup>* (process env t)" "related (any_step rt)\<^sup>*\<^sup>* (reconcile env)"
proof -
  show "related (any_step rt)\<^sup>*\<^sup>* (reconcile env)"
    by (rule repository.related_finish) (use assms in \<open>simp_all add: worker_steps\<close>)
  have finish: "related (any_step rt)\<^sup>*\<^sup>* (finish_task env t i)" for i
    by (rule repository.related_finish) (use assms in \<open>simp_all add: worker_steps\<close>)
  show "related (any_step rt)\<^sup>*\<^sup>* (process env t)"
    unfolding process_def analyze_task_def fail_task_def fail_call_def after_failure_def
    by (intro repository.related_intros repository.related_call repository.related_finalize finish assms(1) worker_steps)
qed

lemma claim_kinds_runs: "others_related (any_step rt)\<^sup>*\<^sup>* env \<Longrightarrow> related (any_step rt)\<^sup>*\<^sup>* (claim_kinds env ixs)"
proof (induction ixs)
  case Nil
  show ?case by (simp only: claim_kinds.simps repository.related_return)
next
  case (Cons i ixs)
  then show ?case
    by (simp only: claim_kinds.simps) (intro repository.related_intros repository.related_call worker_steps Cons.IH Cons.prems)
qed

lemma run_analysis_runs:
  assumes "others_related (any_step rt)\<^sup>*\<^sup>* env" and "en_runtime (ae_engine env) = rt"
  shows "(any_step rt)\<^sup>*\<^sup>* s (snd (snd (snd (run_analysis env start (n, s)))))"
proof -
  let ?k = "length (ws_kinds (ae_settings env))"
  let ?m = "claim_kinds env (map (\<lambda>offset. (start + offset) mod ?k) [0 ..< ?k])"
  obtain r st where m: "?m (n, s) = (r, st)" by (rule prod.exhaust)
  have claimed: "(any_step rt)\<^sup>*\<^sup>* s (snd st)" using relatedD [OF claim_kinds_runs [OF assms(1)] m] by simp
  have "(any_step rt)\<^sup>*\<^sup>* (snd st) (snd (snd (snd (run_analysis env start (n, s)))))"
    using relatedD [OF process_runs(1) [OF assms]] relatedD [OF process_runs(2) [OF assms]]
    by (auto simp: run_analysis_def Let_def m split: sum.splits option.splits prod.splits simp del: split_paired_All)
  then show ?thesis by (rule rtranclp_trans [OF claimed])
qed

section \<open>The row of a task\<close>

definition same_task :: "string \<Rightarrow> cloud_state \<Rightarrow> cloud_state \<Rightarrow> bool" where
  "same_task k s s' \<longleftrightarrow> dict_get (cs_tasks s') k = dict_get (cs_tasks s) k"

interpretation task_row: run_relation "same_task k" for k
  by unfold_locales (auto simp: same_task_def)

lemma finalize_tasks: "cs_tasks (snd (finalize_scan_report k rep now aud s)) = cs_tasks s"
  "cs_tasks (snd (finalize_scan_report_failure rt k err t now aud s)) = cs_tasks s"
  by (auto simp: finalize_scan_report_def finalize_scan_report_failure_def raise_def audit_def Let_def split: option.splits)


text \<open>A tool status that is retried is no result.\<close>

definition usable_result :: "runtime \<Rightarrow> jobj \<Rightarrow> bool" where
  "usable_result rt r \<longleftrightarrow> result_status rt r \<notin> {''FAILED'', ''TIMEOUT'', ''UNAVAILABLE''}"

text \<open>How the row of a task is left; it may be a dead letter only if \<open>dead\<close>.\<close>

definition settled :: "analysis_env \<Rightarrow> analysis_task \<Rightarrow> bool \<Rightarrow> analysis_task \<Rightarrow> bool" where
  "settled env task dead t \<longleftrightarrow> at_leased_by t = None \<and> at_attempts t = at_attempts task \<and>
     (at_state t = SUCCEEDED \<and> (\<exists>r. at_result t = Some r \<and> usable_result (en_runtime (ae_engine env)) r)
      \<or> at_state t = RETRY \<and> int (at_attempts t) < ws_max_attempts (ae_settings env)
          \<and> (\<exists>n. at_available_at t \<le> max (ae_clock env n) (ae_now env n + seconds 172800))
      \<or> at_state t = FAILED \<and> dead)"

lemma settled_mono: "settled env task dead t \<Longrightarrow> (dead \<Longrightarrow> dead') \<Longrightarrow> settled env task dead' t"
  by (auto simp: settled_def)

lemma microseconds_le: "x \<le> of_int k \<Longrightarrow> microseconds x \<le> k * 1000000"
proof -
  assume x: "x \<le> of_int k"
  let ?y = "x * 1000000" let ?f = "\<lfloor>?y\<rfloor>"
  have y: "?y \<le> of_int (k * 1000000)" using x by simp
  show ?thesis
  proof (cases "?f = k * 1000000")
    case True
    then have "?y - of_int ?f = 0" using y by linarith
    then have "microseconds x = ?f" by (simp only: microseconds_def Let_def) simp
    with True show ?thesis by simp
  next
    case False
    then have "?f + 1 \<le> k * 1000000" using y by linarith
    moreover have "microseconds x \<le> ?f + 1" by (simp add: microseconds_def Let_def)
    ultimately show ?thesis by linarith
  qed
qed

text \<open>The bounds the settings set on a delay.\<close>

lemma backoff_le:
  assumes "check_settings w0 = Inr w"
  shows "backoff w u attempts \<le> 172800" "0 \<le> backoff w u attempts"
proof -
  have b: "1 / 10 \<le> ws_base_backoff_seconds w" "ws_max_backoff_seconds w \<le> 86400" "0 \<le> ws_jitter_fraction w"
      "ws_jitter_fraction w \<le> 1" "ws_base_backoff_seconds w \<le> ws_max_backoff_seconds w"
    using assms by (auto simp: check_settings_def Let_def split: if_splits)
  let ?base = "min (ws_max_backoff_seconds w) (ws_base_backoff_seconds w * 2 ^ min (attempts - 1) 30)"
  let ?c = "min 1 (max 0 u) * 2 - 1" let ?spread = "?base * ws_jitter_fraction w"
  have base: "0 \<le> ?base" "?base \<le> 86400" using b by auto
  have spread: "0 \<le> ?spread" "?spread \<le> 86400"
    using base b(3,4) mult_mono [of ?base 86400 "ws_jitter_fraction w" 1] by auto
  have "?c * ?spread \<le> 1 * ?spread" by (rule mult_right_mono) (use spread in auto)
  then have "?base + ?c * ?spread \<le> 172800" using base spread by linarith
  then show "backoff w u attempts \<le> 172800" by (simp add: backoff_def Let_def)
  show "0 \<le> backoff w u attempts" by (simp add: backoff_def Let_def)
qed

lemma others_leased:
  assumes "others_related (same_task k) env" and "leased_task k w s = Inr task"
  shows "leased_task k w (ae_others env n s) = Inr task"
proof -
  have "dict_get (cs_tasks (ae_others env n s)) k = dict_get (cs_tasks s) k"
    using assms(1) by (auto simp: others_related_def same_task_def)
  then show ?thesis using assms(2) by (simp add: leased_task_Inr)
qed

lemma fail_task_settles:
  assumes settings: "check_settings w0 = Inr (ae_settings env)" and others: "others_related (same_task (at_task_id task)) env"
    and leased: "leased_task (at_task_id task) (ws_worker_id (ae_settings env)) s = Inr task"
    and run: "fail_task env task e (n, s) = (r, st)"
  shows "\<exists>t. dict_get (cs_tasks (snd st)) (at_task_id task) = Some t \<and> settled env task (dead_letter env task e) t"
proof -
  let ?k = "at_task_id task" and ?dead = "dead_letter env task e" and ?s = "ae_others env n s"
  let ?delay = "microseconds (backoff (ae_settings env) (ae_random env n) (at_attempts task))"
  let ?retry = "ae_now env n + (if ?dead then 0 else ?delay)"
  define t where "t = task\<lparr>at_state := (if ?dead then FAILED else RETRY), at_available_at := max (ae_clock env n) ?retry,
    at_lease_expires_at := None, at_leased_by := None, at_last_error := Some (sanitize_error (failure_message env e)),
    at_updated_at := ae_clock env n\<rparr>"
  have "fail_call env task e (n, s) = (Inr (), Suc n, ?s\<lparr>cs_tasks := dict_set ?k t (cs_tasks ?s)\<rparr>)"
    using others_leased [OF others leased, of n] by (simp add: fail_call_def call_def fail_analysis_task_def t_def)
  then have "after_failure env task e (Suc n, ?s\<lparr>cs_tasks := dict_set ?k t (cs_tasks ?s)\<rparr>) = (r, st)"
    using run by (simp add: fail_task_def run_bind_Inr)
  moreover have "related (same_task ?k) (after_failure env task e)"
    unfolding after_failure_def
    by (intro task_row.related_intros task_row.related_finalize others) (simp add: same_task_def finalize_tasks)
  ultimately have "dict_get (cs_tasks (snd st)) ?k = Some t" using relatedD by (fastforce simp: same_task_def)
  moreover have "?delay \<le> 172800 * 1000000" by (rule microseconds_le) (simp add: backoff_le [OF settings])
  then have "settled env task (dead_letter env task e) t"
    by (auto simp: settled_def t_def dead_letter_def not_le intro!: exI [of _ n])
  ultimately show ?thesis by blast
qed

text \<open>The task is analysed: its row is that of a success, or still the leased one.\<close>

lemma analyze_task_row:
  assumes others: "others_related (same_task (at_task_id task)) env"
    and leased: "leased_task (at_task_id task) (ws_worker_id (ae_settings env)) s = Inr task"
    and run: "analyze_task env task (n, s) = (r, st)"
  shows "case r of Inl e \<Rightarrow> leased_task (at_task_id task) (ws_worker_id (ae_settings env)) (snd st) = Inr task
    | Inr scan \<Rightarrow> (\<exists>t. dict_get (cs_tasks (snd st)) (at_task_id task) = Some t \<and> settled env task False t)"
proof -
  let ?k = "at_task_id task" and ?s = "ae_others env n s"
  have "leased_task ?k (ws_worker_id (ae_settings env)) (ae_others env m (ae_others env n s)) = Inr task" for m
    using others_leased [OF others] leased by blast
  with run others_leased [OF others leased, of n] show ?thesis
    by (auto simp: analyze_task_def run_bind_def run_case_def query_def call_def run_lift_def run_return_def run_fail_def
        Let_def complete_analysis_task_def settled_def usable_result_def split: sum.splits if_splits)
qed

lemma finish_task_row: "others_related (same_task k) env \<Longrightarrow> related (same_task k) (finish_task env t i)"
  by (rule task_row.related_finish) (simp_all add: same_task_def finalize_tasks)

lemma process_settles:
  assumes settings: "check_settings w0 = Inr (ae_settings env)" and others: "others_related (same_task (at_task_id task)) env"
    and leased: "leased_task (at_task_id task) (ws_worker_id (ae_settings env)) s = Inr task"
    and run: "process env task (n, s) = (r, st)"
  shows "\<exists>t. dict_get (cs_tasks (snd st)) (at_task_id task) = Some t
    \<and> settled env task (\<exists>e. fst (analyze_task env task (n, s)) = Inl e \<and> dead_letter env task e) t"
proof -
  obtain a n1 s1 where a: "analyze_task env task (n, s) = (a, n1, s1)" by (metis prod.exhaust)
  note row = analyze_task_row [OF others leased a]
  show ?thesis
  proof (cases a)
    case (Inl e)
    then have "\<exists>t. dict_get (cs_tasks (snd st)) (at_task_id task) = Some t \<and> settled env task (dead_letter env task e) t"
      using row run by (intro fail_task_settles [OF settings others]) (auto simp: process_def run_case_def a)
    then show ?thesis using settled_mono by (auto simp: a Inl)
  next
    case (Inr scan)
    then have "finish_task env task scan (n1, s1) = (r, st)" using run by (simp add: process_def run_case_def a)
    then have "same_task (at_task_id task) s1 (snd st)" using relatedD [OF finish_task_row [OF others]] by fastforce
    with row Inr settled_mono show ?thesis by (fastforce simp: same_task_def)
  qed
qed

text \<open>When another worker has taken the lease, the failure cannot be recorded either.\<close>

lemma process_lost_lease:
  assumes lost: "\<And>n s. leased_task (at_task_id task) (ws_worker_id (ae_settings env)) (ae_others env n s) = Inl e"
  shows "fst (process env task st) = Inl (RepositoryError e)"
proof -
  have failed: "fst (fail_task env task err st) = Inl (RepositoryError e)" for err st
    by (cases st) (simp add: fail_task_def run_bind_def run_case_def fail_call_def call_def fail_analysis_task_def lost run_fail_def)
  have "\<exists>err. fst (analyze_task env task st) = Inl err"
    by (cases st) (auto simp: analyze_task_def run_bind_def run_case_def query_def call_def run_lift_def run_return_def
        run_fail_def Let_def complete_analysis_task_def lost split: sum.splits)
  then show ?thesis using failed by (cases "analyze_task env task st") (auto simp: process_def run_case_def)
qed

end
