(* ===== verification/Analysis_Results.thy ===== *)
theory Analysis_Results
  imports Analysis_Worker Merge_Properties
begin

text \<open>
  What the engine returns: its checks fail with permanent errors only, counting components is counting the
  nodes of their tree, and a report says of the tools what their persisted results say.
\<close>

section \<open>Permanent errors\<close>

definition permanently :: "analysis_error + 'a \<Rightarrow> bool" where
  "permanently r \<longleftrightarrow> (\<forall>e. r = Inl e \<longrightarrow> permanent e)"

lemma permanently_simps [simp]: "permanently (Inr x)" "permanently (Inl e) \<longleftrightarrow> permanent e"
  by (simp_all add: permanently_def)

lemma permanently_bind: "permanently r \<Longrightarrow> (\<And>x. r = Inr x \<Longrightarrow> permanently (f x)) \<Longrightarrow> permanently (ebind r f)"
  by (cases r) (simp_all add: permanently_def)

lemma permanently_if: "(b \<Longrightarrow> permanently r) \<Longrightarrow> (\<not> b \<Longrightarrow> permanently q) \<Longrightarrow> permanently (if b then r else q)"
  by simp

lemma permanently_let: "permanently (f x) \<Longrightarrow> permanently (Let x f)"
  by simp

lemma permanently_option:
  "(v = None \<Longrightarrow> permanently r) \<Longrightarrow> (\<And>x. v = Some x \<Longrightarrow> permanently (f x)) \<Longrightarrow>
    permanently (case v of None \<Rightarrow> r | Some x \<Rightarrow> f x)"
  by (simp split: option.splits)

lemma permanently_raise: "permanent e \<Longrightarrow> permanently (or_raise e r)"
  by (simp add: or_raise_def split: sum.splits)

lemma permanently_field: "permanently (object_field m v)"
  by (simp add: object_field_def split: json.splits)

lemma permanently_bytes: "permanently (canonical_bytes rt d)"
  by (simp add: canonical_bytes_def permanently_raise)

lemma permanently_nested: "permanently (nested_components m d)"
  by (simp add: nested_components_def split: json.splits)

lemmas permanently_intros = permanently_bind permanently_if permanently_let permanently_option permanently_raise
  permanently_field permanently_bytes permanently_nested

lemma permanently_count: "permanently (count_loop m stack n)"
proof (induction m stack n rule: count_loop.induct)
  case (2 maximum raw stack seen)
  show ?case
  proof (cases raw)
    case (JObj d)
    then show ?thesis
      using 2 [OF JObj] by (cases "nested_components ''nested CycloneDX components must be an array'' d")
        (use permanently_nested [of "''nested CycloneDX components must be an array''" d] in \<open>auto simp: permanently_def\<close>)
  qed simp_all
qed simp

lemma permanently_sbom: "permanently (validate_sbom rt scan limits)"
  unfolding validate_sbom_def count_components_def by (intro permanently_intros permanently_count) simp_all

lemma permanently_evidence: "permanently (analysis_evidence rt env limits label v)"
  unfolding analysis_evidence_def by (intro permanently_intros) simp_all

lemma permanently_check: "permanently (check_scan_input i)"
  unfolding check_scan_input_def check_text_def by (intro permanently_intros) simp_all

lemma permanently_coerce: "permanently (coerce_scan_input rt (Some v) t e k)"
  unfolding coerce_scan_input_def option.case by (intro permanently_intros permanently_check)

lemma permanently_summary: "permanently (summarize_tool en scan tool v)"
  by (auto simp: summarize_tool_def Let_def split: json.splits)

lemma permanently_summaries: "permanently (summarize_tools en scan results tools)"
  by (induction tools) (auto intro!: permanently_bind permanently_summary)

lemma permanently_bound: "permanently (bound_report_object en label v)"
  unfolding bound_report_object_def
  by (intro permanently_intros) (auto split: json.splits intro!: permanently_intros)

section \<open>The report\<close>

text \<open>What the parameters of an engine promise: sets keep their elements, an identifier is never blank, and a dumped
  model is JSON.\<close>

definition engine_ok :: "engine \<Rightarrow> bool" where
  "engine_ok en \<longleftrightarrow> (\<forall>xs. set (en_order en xs) = set xs)
     \<and> (\<forall>v x. en_validate en v = Some x \<longrightarrow> nonblank (vu_vulnerability_id x))
     \<and> (\<exists>l. check_limits l = Inr (en_limits en)) \<and> (\<forall>v. json_wf (en_dump en v))"

definition owned_result :: "engine \<Rightarrow> scan_input \<Rightarrow> jobj \<Rightarrow> bool" where
  "owned_result en scan raw \<longleftrightarrow> normalized_status (en_runtime en) (jget ''status'' raw) = ''FAILED'' \<and> \<not> dict_has ''scan_id'' raw
     \<or> text_of (en_runtime en) (jget ''scan_id'' raw) = si_scan_id scan
       \<and> text_of (en_runtime en) (jget ''endpoint_id'' raw) = si_endpoint_id scan"

lemma summarize_tool_iff: "summarize_tool en scan tool v = Inr s \<longleftrightarrow>
  (\<exists>raw items. v = JObj raw \<and> jget_default (JArr []) ''vulnerabilities'' raw = JArr items
     \<and> int (length items) \<le> li_max_vulnerabilities_per_tool (en_limits en) \<and> owned_result en scan raw
     \<and> s = make_summary en tool raw items)"
  unfolding summarize_tool_def Let_def owned_result_def by (auto split: json.splits if_splits)

lemma make_summary_facts [simp]:
  "ts_tool (make_summary en tool raw items) = tool"
  "ts_status (make_summary en tool raw items) = normalized_status (en_runtime en) (jget ''status'' raw)"
  "ts_fixture (make_summary en tool raw items) \<longleftrightarrow> jget ''fixture_mode'' raw = JBool True"
  "ts_vulnerabilities (make_summary en tool raw items) = (let status = normalized_status (en_runtime en) (jget ''status'' raw) in
     if status \<noteq> ''SUCCESS'' \<and> status \<noteq> ''PARTIAL'' then [] else List.map_filter (en_validate en) items)"
  by (simp_all add: make_summary_def Let_def)

lemma make_summary_rejected:
  "ts_rejected (make_summary en tool raw items) = length items - length (ts_vulnerabilities (make_summary en tool raw items))"
  by (simp add: make_summary_def Let_def)

lemma summaries_list:
  "summarize_tools en scan results tools = Inr ss \<longleftrightarrow>
    list_all2 (\<lambda>tool s. summarize_tool en scan tool (jget tool results) = Inr s) tools ss"
  by (induction tools arbitrary: ss) (auto simp: ebind_Inr_iff list_all2_Cons1)

lemma summary_of:
  "summarize_tools en scan results tools = Inr ss \<Longrightarrow> s \<in> set ss \<Longrightarrow>
    \<exists>tool \<in> set tools. summarize_tool en scan tool (jget tool results) = Inr s"
  by (induction tools arbitrary: ss) (auto simp: ebind_Inr_iff)

lemma summaries_tools: "summarize_tools en scan results tools = Inr ss \<Longrightarrow> map ts_tool ss = tools"
  by (induction tools arbitrary: ss) (auto simp: ebind_Inr_iff summarize_tool_iff)

lemma length_map_filter_le: "length (List.map_filter f xs) \<le> length xs"
  by (induction xs) (auto simp: List.map_filter_simps split: option.splits)

lemma all_accepted: "length (List.map_filter f xs) = length xs \<longleftrightarrow> (\<forall>x \<in> set xs. f x \<noteq> None)"
proof (induction xs)
  case (Cons x xs)
  have "length (List.map_filter f xs) \<noteq> Suc (length xs)" using length_map_filter_le [of f xs] by simp
  with Cons show ?case by (cases "f x") (auto simp: List.map_filter_simps)
qed (simp add: List.map_filter_simps)

text \<open>The records of all summaries can be merged.\<close>

lemma merged_summaries:
  assumes ok: "engine_ok en" and ss: "summarize_tools en scan results tools = Inr ss" and two: "length tools \<le> 2"
  obtains vs where "merged en (concat (map ts_vulnerabilities ss)) = Inr vs"
    "\<And>item. item \<in> set (concat (map ts_vulnerabilities ss)) \<Longrightarrow> \<exists>m \<in> set vs. keeps m item"
proof -
  let ?items = "concat (map ts_vulnerabilities ss)"
  obtain l where "check_limits l = Inr (en_limits en)" using ok by (auto simp: engine_ok_def)
  then have limit: "li_max_vulnerabilities_per_tool (en_limits en) \<le> 50000" by (auto simp: check_limits_def split: if_splits)
  have each: "length (ts_vulnerabilities s) \<le> 50000 \<and> (\<forall>x \<in> set (ts_vulnerabilities s). nonblank (vu_vulnerability_id x))"
    if mem: "s \<in> set ss" for s
  proof -
    obtain tool raw items where s: "s = make_summary en tool raw items"
        and len: "int (length items) \<le> li_max_vulnerabilities_per_tool (en_limits en)"
      using summary_of [OF ss mem] by (auto simp: summarize_tool_iff)
    have "nonblank (vu_vulnerability_id x)" if "x \<in> set (ts_vulnerabilities s)" for x
      using ok that by (auto simp: s engine_ok_def set_map_filter Let_def split: if_splits)
    moreover have "length (ts_vulnerabilities s) \<le> length items" by (simp add: s Let_def length_map_filter_le)
    ultimately show ?thesis using len limit by auto
  qed
  then have "\<forall>n \<in> set (map (\<lambda>s. length (ts_vulnerabilities s)) ss). n \<le> 50000" by simp
  then have "length ?items \<le> length ss * 50000"
    using sum_list_mono [of ss "\<lambda>s. length (ts_vulnerabilities s)" "\<lambda>_. 50000"]
    by (simp add: length_concat comp_def sum_list_triv)
  moreover have "length ss = length tools" using summaries_tools [OF ss] by auto
  ultimately have size: "length ?items \<le> 100000" using two by simp
  have "\<exists>merged. merge_vulnerabilities (en_order en) ?items = Some (Inr merged) \<and> distinct (map record_keys merged)
      \<and> pairwise disjnt (record_keys ` set merged) \<and> \<Union> (record_keys ` set merged) = \<Union> (record_keys ` set ?items)
      \<and> (\<forall>item \<in> set ?items. \<exists>m \<in> set merged. keeps m item) \<and> sorted (map report_order merged)"
    using ok each size by (intro merge_report) (auto simp: engine_ok_def)
  then obtain vs where "merge_vulnerabilities (en_order en) ?items = Some (Inr vs)" "\<forall>item \<in> set ?items. \<exists>m \<in> set vs. keeps m item"
    by blast
  then show thesis by (intro that [of vs]) (auto simp: merged_def)
qed


lemma permanently_build:
  assumes ok: "engine_ok en" and two: "length (si_expected_tools scan) \<le> 2"
    and all: "\<And>tool. tool \<in> set (si_expected_tools scan) \<Longrightarrow> dict_has tool (upper_keys results)"
  shows "permanently (build_final_report en t scan results)"
proof -
  have none: "filter (\<lambda>tool. \<not> dict_has tool (upper_keys results)) (si_expected_tools scan) = []"
    using all by (simp add: filter_empty_conv)
  have "permanently (lift_analysis (merged en (concat (map ts_vulnerabilities ss))))"
    if ss: "summarize_tools en scan (upper_keys results) (si_expected_tools scan) = Inr ss" for ss
  proof -
    obtain vs where "merged en (concat (map ts_vulnerabilities ss)) = Inr vs" using merged_summaries [OF ok ss two] .
    then show ?thesis by (simp add: lift_analysis_def)
  qed
  then show ?thesis
    unfolding build_final_report_def Let_def none
    by (intro permanently_intros permanently_sbom permanently_evidence permanently_summaries permanently_bound) simp_all
qed

text \<open>The redacted copy of a value is a value again.\<close>

lemma redact_wf:
  "json_wf v \<Longrightarrow> json_wf (fst (redact_walk env md mn (of_json v) depth sensitive nodes))"
proof (induction v arbitrary: depth sensitive nodes rule: json_induct)
  case (JArr xs)
  have items: "\<forall>y \<in> set (fst (redact_items env md mn (map of_json ys) depth nodes)). json_wf y"
    if "set ys \<subseteq> set xs" for ys depth nodes
    using that
  proof (induction ys arbitrary: nodes)
    case (Cons y ys)
    have "json_wf (fst (redact_walk env md mn (of_json y) depth False nodes))"
      using JArr.IH [of y] Cons.prems JArr.prems by simp
    then show ?case using Cons.IH Cons.prems by (simp split: prod.splits) (metis fst_conv)
  qed simp
  show ?case
    using items [of xs "depth + 1" "nodes + 1"] by (auto simp: redact_walk.simps Let_def split: prod.splits)
next
  case (JObj d)
  have fields: "map fst (fst (redact_fields env md mn (map (\<lambda>kv. (fst kv, of_json (snd kv))) e) depth nodes)) = map fst e
      \<and> (\<forall>kv \<in> set (fst (redact_fields env md mn (map (\<lambda>kv. (fst kv, of_json (snd kv))) e) depth nodes)). json_wf (snd kv))"
    if "set e \<subseteq> set d" for e depth nodes
    using that
  proof (induction e arbitrary: nodes)
    case (Cons kv e)
    have "json_wf (snd kv)" using Cons.prems JObj.prems by auto
    then have w: "json_wf (fst (redact_walk env md mn (of_json (snd kv)) depth b nodes))" for b
      using JObj.IH [of "fst kv" "snd kv"] Cons.prems by simp
    show ?case
      using Cons.IH Cons.prems w by (simp split: prod.splits) (metis fst_conv)
  qed simp
  show ?case
    using fields [of d "depth + 1" "nodes + 1"] JObj.prems
    by (auto simp: redact_walk.simps Let_def dict_ok_def split: prod.splits)
qed (auto simp: redact_walk.simps Let_def)

lemma evidence_wf:
  assumes "analysis_evidence rt env limits label v = Inr d" and "json_wf (JObj v)"
  shows "json_wf (JObj d)"
proof -
  obtain c where "bounded_json 20 (nat (li_max_endpoint_evidence_nodes limits)) (JObj v) = Inr (JObj c)"
    and d: "fst (redact_walk env 20 (nat (li_max_endpoint_evidence_nodes limits)) (of_json (JObj c)) 0 False 0) = JObj d"
    using assms(1)
    by (auto simp: analysis_evidence_def Let_def ebind_Inr_iff split: if_splits)
  then have "c = v" using assms(2) by (simp add: bounded_json_iff)
  then show ?thesis using redact_wf [OF assms(2), of env 20 _ 0 False 0] d by metis
qed

end
