(* ===== verification/Analysis_Properties.thy ===== *)
theory Analysis_Properties
  imports Analysis_Runs Analysis_Results Cloud_Demo
begin

text \<open>
  The properties of the cloud analysis: what a final report says, what a worker leaves behind, and that
  every scan whose tasks have ended gets its report.
\<close>

section \<open>A worker at concrete values\<close>

definition analysis_record :: "string \<Rightarrow> vulnerability" where
  "analysis_record i = \<lparr> vu_schema_version = ''1.0'', vu_scanner_version = ''1.0.0'', vu_scan_id = ''s1'',
     vu_endpoint_id = Some ''e1'', vu_vulnerability_id = i, vu_package_name = ''xz'', vu_package_ecosystem = None,
     vu_installed_version = None, vu_affected_versions = [], vu_fixed_versions = [], vu_aliases = [], vu_severity = HIGH,
     vu_cvss_score = None, vu_exploitability = None, vu_known_exploited = False, vu_summary = None, vu_references = [],
     vu_evidence = [], vu_detected_at = 5 \<rparr>"

definition analysis_engine :: engine where
  "analysis_engine = \<lparr> en_runtime = demo_rt, en_limits = default_limits, en_fixture_mode = False, en_fixture_records = [],
     en_configured = (\<lambda>_. True), en_adapter = (\<lambda>tool _. Inr \<lparr> te_tool = tool, te_status = TOOL_SUCCESS,
       te_payload = JArr [JStr ''CVE-1''], te_version = None, te_duration_seconds = 1, te_error = None, te_warnings = [] \<rparr>),
     en_normalize = (\<lambda>_ _ _ _. Inr ([analysis_record ''CVE-1''], [])),
     en_validate = (\<lambda>v. if v = JStr ''CVE-1'' then Some (analysis_record ''CVE-1'') else None),
     en_dump = (\<lambda>v. JStr (vu_vulnerability_id v)), en_order = remdups,
     en_redaction = \<lparr> re_substitute = (\<lambda>s. s), re_str = (\<lambda>_. []) \<rparr>, en_iso = (\<lambda>_. ''2026-01-01T00:00:00+00:00'') \<rparr>"

lemma analysis_engine_simps [simp]:
  "en_runtime analysis_engine = demo_rt" "en_limits analysis_engine = default_limits" "\<not> en_fixture_mode analysis_engine"
  "en_validate analysis_engine (JStr ''CVE-1'') = Some (analysis_record ''CVE-1'')"
  "li_max_report_bytes default_limits = 104857600" "li_max_report_nodes default_limits = 1000000"
  "li_max_vulnerabilities_per_tool default_limits = 50000"
  by (simp_all add: analysis_engine_def default_limits_def)





lemma analysis_engine_ok: "engine_ok analysis_engine"
proof -
  have "nonblank ''CVE-1''" by (simp add: nonblank_def py_strip_def is_space_def code_point_def)
  moreover have "check_limits default_limits = Inr default_limits" by (simp add: check_limits_def default_limits_def)
  ultimately show ?thesis by (auto simp: engine_ok_def analysis_engine_def analysis_record_def)
qed

text \<open>The results of both tools for a scan without SBOM, as the worker stores them.\<close>

definition analysis_input :: scan_input where
  "analysis_input = \<lparr> si_tenant_id = ''t1'', si_endpoint_id = ''e1'', si_scan_id = ''s1'', si_result = [(''status'', JStr ''SUCCESS'')],
     si_inventory_sync = [], si_sbom = [], si_sbom_sha256 = None, si_expected_tools = supported_tools \<rparr>"

definition analysis_fields :: "string \<Rightarrow> jobj" where
  "analysis_fields tool = [(''scan_id'', JStr ''s1''), (''endpoint_id'', JStr ''e1''), (''tool'', JStr tool),
     (''status'', JStr ''SUCCESS''), (''vulnerabilities'', JArr [JStr ''CVE-1''])]"

definition demo_tool_results :: "(string \<times> json) list" where
  "demo_tool_results = map (\<lambda>tool. (tool, JObj (analysis_fields tool))) supported_tools"

definition input_wf :: "scan_input \<Rightarrow> bool" where
  "input_wf i \<longleftrightarrow> json_wf (JObj (si_result i)) \<and> json_wf (JObj (si_inventory_sync i)) \<and> distinct (si_expected_tools i)
     \<and> length (si_expected_tools i) \<le> 2"

lemma analysis_input_wf: "input_wf analysis_input"
  by (simp add: input_wf_def analysis_input_def supported_tools_def dict_ok_def)

text \<open>The report of these results, evaluated in parts.\<close>

definition analysis_summaries :: "tool_summary list" where
  "analysis_summaries = map (\<lambda>tool. make_summary analysis_engine tool (analysis_fields tool) [JStr ''CVE-1'']) supported_tools"

definition analysis_merged :: "vulnerability list" where
  "analysis_merged = (case merged analysis_engine [analysis_record ''CVE-1'', analysis_record ''CVE-1''] of Inr vs \<Rightarrow> vs | Inl _ \<Rightarrow> [])"

definition analysis_report :: jobj where
  "analysis_report = final_report analysis_engine 0 analysis_input None [(''status'', JStr ''SUCCESS'')] [] analysis_summaries analysis_merged"

lemma analysis_report_parts:
  "analysis_evidence demo_rt (en_redaction analysis_engine) default_limits ''endpoint result evidence'' [(''status'', JStr ''SUCCESS'')] = Inr [(''status'', JStr ''SUCCESS'')]"
  "analysis_evidence demo_rt (en_redaction analysis_engine) default_limits ''inventory synchronization evidence'' [] = Inr []"
  "upper_keys demo_tool_results = demo_tool_results"
  "concat (map ts_vulnerabilities analysis_summaries) = [analysis_record ''CVE-1'', analysis_record ''CVE-1'']"
  "\<not> isl (merged analysis_engine [analysis_record ''CVE-1'', analysis_record ''CVE-1''])"
  "bounded_json 20 (nat 1000000) (JObj analysis_report) = Inr (JObj analysis_report)"
  "case canonical_json demo_rt (JObj analysis_report) of Inr encoded \<Rightarrow> length encoded < 5000 | Inl _ \<Rightarrow> False"
  by code_simp+

lemma utf8_length_le: "utf8_length s \<le> 2 * length s"
  by (induction s) (auto simp: utf8_length_def)

lemma analysis_report_built: "build_final_report analysis_engine 0 analysis_input demo_tool_results = Inr analysis_report"
proof -
  obtain encoded where encoded: "canonical_json demo_rt (JObj analysis_report) = Inr encoded" "length encoded < 5000"
    using analysis_report_parts(7) by (auto split: sum.splits)
  then have "utf8_length encoded < 10000" using utf8_length_le [of encoded] by linarith
  then have bound: "bound_report_object analysis_engine ''final cloud report'' analysis_report = Inr analysis_report"
    using encoded by (simp add: bound_report_object_def or_raise_def canonical_bytes_def analysis_report_parts(6)
        analysis_report_parts(6) [simplified])
  have "summarize_tool analysis_engine analysis_input tool (JObj (analysis_fields tool))
      = Inr (make_summary analysis_engine tool (analysis_fields tool) [JStr ''CVE-1''])" for tool
    unfolding summarize_tool_iff
    by (rule exI [of _ "analysis_fields tool"], rule exI [of _ "[JStr ''CVE-1'']"])
      (simp add: analysis_fields_def jget_def dict_get_def jget_default_def owned_result_def analysis_input_def text_of_def py_str_def)
  then have ss: "summarize_tools analysis_engine analysis_input demo_tool_results supported_tools = Inr analysis_summaries"
    by (simp add: supported_tools_def analysis_summaries_def demo_tool_results_def jget_def dict_get_def)
  have "merged analysis_engine [analysis_record ''CVE-1'', analysis_record ''CVE-1''] = Inr analysis_merged"
    using analysis_report_parts(5) unfolding analysis_merged_def by (auto split: sum.splits)
  moreover have "filter (\<lambda>tool. \<not> dict_has tool demo_tool_results) supported_tools = []"
    by (simp add: supported_tools_def demo_tool_results_def dict_has_def)
  ultimately show ?thesis
    using ss bound analysis_report_parts(1-4) unfolding build_final_report_def analysis_report_def
    by (simp add: Let_def lift_analysis_def analysis_input_def supported_tools_def)
qed

section \<open>Final reports\<close>

lemma json_wf_literals [simp]:
  "json_wf (text_field t)" "json_wf (strings ss)" "json_wf (severity_counts vs)" "json_wf (optional_string rt v)"
  by (auto simp: text_field_def strings_def severity_counts_def severity_value_def optional_string_def dict_ok_def Let_def
      split: option.splits)

lemma json_wf_provenance:
  assumes "json_wf (JObj p)" shows "json_wf (JObj (redact_mapping env (of_json (JObj p))))"
proof -
  have w: "json_wf (redact_value env (of_json (JObj p)))" unfolding redact_value_def by (rule redact_wf [OF assms])
  then show ?thesis
    unfolding redact_mapping_def by (cases "redact_value env (of_json (JObj p))") (simp_all add: dict_ok_def del: of_json.simps)
qed

lemma json_wf_or_empty: "json_wf v \<Longrightarrow> json_wf (JObj (case v of JObj p \<Rightarrow> p | _ \<Rightarrow> []))"
  by (cases v) (simp_all add: dict_ok_def)

lemma json_wf_default: "json_wf (JObj d) \<Longrightarrow> json_wf v \<Longrightarrow> json_wf (jget_default v k d)"
  using json_wf_get [of d k] by (simp add: jget_default_def split: option.splits)

lemma summary_wf:
  assumes "json_wf (JObj raw)" shows "json_wf (summary_json (make_summary en tool raw items))"
proof -
  let ?p = "case jget_default (JObj []) ''provenance'' raw of JObj p \<Rightarrow> p | _ \<Rightarrow> []"
  have p: "json_wf (JObj ?p)" by (intro json_wf_or_empty json_wf_default assms) (simp add: dict_ok_def)
  have "(case jget_default (JObj []) ''provenance'' raw of JObj p \<Rightarrow> JObj p | _ \<Rightarrow> JObj []) = JObj ?p"
    by (simp split: json.splits)
  then have "ts_provenance (make_summary en tool raw items) = redact_mapping (en_redaction en) (of_json (JObj ?p))"
    by (simp add: make_summary_def Let_def del: of_json.simps)
  then have "json_wf (JObj (ts_provenance (make_summary en tool raw items)))" using json_wf_provenance [OF p] by metis
  moreover have "json_wf (ts_duration (make_summary en tool raw items))"
    using json_wf_get [OF assms, of "''duration_seconds''"] by (simp add: make_summary_def Let_def jget_def split: option.splits)
  moreover have "json_wf (ts_version (make_summary en tool raw items))" by (simp add: make_summary_def Let_def)
  ultimately show ?thesis by (simp add: summary_json_def dict_ok_def)
qed

lemma report_wf:
  assumes ok: "engine_ok en" and i: "input_wf scan" and ss: "summarize_tools en scan results (si_expected_tools scan) = Inr ss"
    and results: "\<And>tool. json_wf (jget tool results)" and e: "json_wf (JObj e)" and v: "json_wf (JObj ivs)"
  shows "json_wf (JObj (final_report en t scan sbom e ivs ss vs))"
proof -
  have tools: "map ts_tool ss = si_expected_tools scan" by (rule summaries_tools [OF ss])
  have each: "json_wf (summary_json s) \<and> json_wf (ts_version s)" if mem: "s \<in> set ss" for s
  proof -
    obtain tool raw items where "jget tool results = JObj raw" "s = make_summary en tool raw items"
      using summary_of [OF ss mem] by (auto simp: summarize_tool_iff)
    then show ?thesis using results [of tool] summary_wf by (auto simp: make_summary_def Let_def)
  qed
  have "distinct (map fst (map (\<lambda>s. (ts_tool s, g s)) ss))" for g :: "tool_summary \<Rightarrow> json"
    using i tools by (simp add: comp_def input_wf_def)
  then have "json_wf (JObj (map (\<lambda>s. (ts_tool s, summary_json s)) ss))" "json_wf (JObj (map (\<lambda>s. (ts_tool s, ts_version s)) ss))"
    using each by (auto simp: dict_ok_def)
  moreover have "json_wf (jget k e)" for k using json_wf_get [OF e, of k] by (simp add: jget_def split: option.splits)
  moreover have "json_wf (JArr (map (en_dump en) vs))" using ok by (simp add: engine_ok_def)
  moreover have "json_wf (case sbom of None \<Rightarrow> JNull | Some b \<Rightarrow> JInt (vs_component_count b))" by (simp split: option.splits)
  ultimately show ?thesis using e v
    by (simp add: final_report_def Let_def dict_ok_def del: json_wf.simps(1)) 
qed

lemma build_fields:
  assumes ok: "engine_ok en" and i: "input_wf scan" and results: "\<And>tool. json_wf (jget tool (upper_keys results))"
    and build: "build_final_report en t scan results = Inr report"
  obtains sbom e ivs ss vs where "report = final_report en t scan sbom e ivs ss vs"
    "summarize_tools en scan (upper_keys results) (si_expected_tools scan) = Inr ss"
    "merged en (concat (map ts_vulnerabilities ss)) = Inr vs"
proof -
  obtain sbom e ivs ss vs where parts: "analysis_evidence (en_runtime en) (en_redaction en) (en_limits en) ''endpoint result evidence'' (si_result scan) = Inr e"
      "analysis_evidence (en_runtime en) (en_redaction en) (en_limits en) ''inventory synchronization evidence'' (si_inventory_sync scan) = Inr ivs"
      "summarize_tools en scan (upper_keys results) (si_expected_tools scan) = Inr ss"
      "merged en (concat (map ts_vulnerabilities ss)) = Inr vs"
      "bound_report_object en ''final cloud report'' (final_report en t scan sbom e ivs ss vs) = Inr report"
    using build by (auto simp: build_final_report_def Let_def ebind_Inr_iff lift_analysis_def split: if_split_asm sum.splits)
  have "json_wf (JObj e)" "json_wf (JObj ivs)"
    using i evidence_wf [OF parts(1)] evidence_wf [OF parts(2)] unfolding input_wf_def by blast+
  then have "json_wf (JObj (final_report en t scan sbom e ivs ss vs))"
    by (rule report_wf [OF ok i parts(3) results])
  then have "report = final_report en t scan sbom e ivs ss vs"
    using parts(5) by (auto simp: bound_report_object_def ebind_Inr_iff bounded_json_iff split: if_split_asm)
  then show thesis using that parts by blast
qed


lemma sort_Nil: "sort xs = [] \<longleftrightarrow> xs = []" for xs :: "string list"
  by (metis set_empty set_sort)

lemma judge_success:
  assumes "distinct (map ts_tool ss)"
  shows "ve_status (judge en e ss) = ''SUCCESS'' \<longleftrightarrow>
    \<not> en_fixture_mode en \<and> (\<forall>s \<in> set ss. ts_status s = ''SUCCESS'' \<and> \<not> ts_fixture s \<and> ts_rejected s = 0)"
proof -
  let ?good = "ts_tool ` {s \<in> set ss. ts_status s = ''SUCCESS''}"
  have "ts_tool s \<in> ?good \<longleftrightarrow> ts_status s = ''SUCCESS''" if mem: "s \<in> set ss" for s
    using assms mem by (auto simp: distinct_map inj_on_def)
  then have "sort (filter (\<lambda>t. t \<notin> set (sort (map ts_tool (filter (\<lambda>s. ts_status s = ''SUCCESS'') ss)))) (map ts_tool ss)) = []
      \<longleftrightarrow> (\<forall>s \<in> set ss. ts_status s = ''SUCCESS'')"
    by (auto simp: sort_Nil filter_empty_conv)
  then show ?thesis by (auto simp: judge_def Let_def list_ex_iff list_all_iff)
qed

text \<open>A summary counts as a success exactly when its result is one and all its records are valid.\<close>

definition tool_success :: "engine \<Rightarrow> json \<Rightarrow> bool" where
  "tool_success en v \<longleftrightarrow> (\<exists>raw items. v = JObj raw \<and> normalized_status (en_runtime en) (jget ''status'' raw) = ''SUCCESS''
     \<and> jget ''fixture_mode'' raw \<noteq> JBool True \<and> jget_default (JArr []) ''vulnerabilities'' raw = JArr items
     \<and> (\<forall>item \<in> set items. en_validate en item \<noteq> None))"

lemma make_summary_success:
  assumes "jget_default (JArr []) ''vulnerabilities'' raw = JArr items" and "s = make_summary en tool raw items"
  shows "ts_status s = ''SUCCESS'' \<and> \<not> ts_fixture s \<and> ts_rejected s = 0 \<longleftrightarrow> tool_success en (JObj raw)"
proof -
  have "length items - length (List.map_filter (en_validate en) items) = 0 \<longleftrightarrow> (\<forall>item \<in> set items. en_validate en item \<noteq> None)"
    using length_map_filter_le [of "en_validate en" items] unfolding all_accepted [symmetric] by linarith
  then show ?thesis using assms by (auto simp: make_summary_rejected tool_success_def Let_def)
qed

text \<open>The usable results a report is built from, and their valid records.\<close>

definition usable_records :: "engine \<Rightarrow> json \<Rightarrow> vulnerability set" where
  "usable_records en v = {x. \<exists>raw items item. v = JObj raw
     \<and> normalized_status (en_runtime en) (jget ''status'' raw) \<in> {''SUCCESS'', ''PARTIAL''}
     \<and> jget_default (JArr []) ''vulnerabilities'' raw = JArr items \<and> item \<in> set items \<and> en_validate en item = Some x}"

lemma make_summary_records:
  "jget_default (JArr []) ''vulnerabilities'' raw = JArr items \<Longrightarrow>
    set (ts_vulnerabilities (make_summary en tool raw items)) = usable_records en (JObj raw)"
  by (auto simp: usable_records_def set_map_filter Let_def)

text \<open>C36: A final report is what the persisted tool results say: it belongs to the scan, every result used is its
  own, it has the status SUCCESS exactly when no fixture is involved and every expected tool ended with SUCCESS
  and only valid records, and each valid record of a usable result is kept by a merged vulnerability.\<close>

theorem report_truthful:
  assumes ok: "engine_ok en" and i: "input_wf scan" and results: "\<And>tool. json_wf (jget tool (upper_keys results))"
    and build: "build_final_report en t scan results = Inr report"
  shows "\<exists>vs c. jget ''scan_id'' report = JStr (si_scan_id scan) \<and> jget ''tenant_id'' report = JStr (si_tenant_id scan)
    \<and> jget ''cloud_analysis'' report = JObj c \<and> jget ''vulnerabilities'' c = JArr (map (en_dump en) vs)
    \<and> (jget ''status'' report = JStr ''SUCCESS'' \<longleftrightarrow> \<not> en_fixture_mode en
        \<and> (\<forall>tool \<in> set (si_expected_tools scan). tool_success en (jget tool (upper_keys results))))
    \<and> (\<forall>tool \<in> set (si_expected_tools scan). (\<exists>raw. jget tool (upper_keys results) = JObj raw \<and> owned_result en scan raw)
        \<and> (\<forall>x \<in> usable_records en (jget tool (upper_keys results)). \<exists>m \<in> set vs. keeps m x))"
proof -
  let ?result = "\<lambda>tool. jget tool (upper_keys results)"
  obtain sbom e sync ss vs where report: "report = final_report en t scan sbom e sync ss vs"
      and ss: "summarize_tools en scan (upper_keys results) (si_expected_tools scan) = Inr ss"
      and vs: "merged en (concat (map ts_vulnerabilities ss)) = Inr vs"
    using build_fields [OF ok i results build] .
  have tools: "map ts_tool ss = si_expected_tools scan" by (rule summaries_tools [OF ss])
  have each: "\<exists>raw. ?result (ts_tool s) = JObj raw \<and> owned_result en scan raw
      \<and> (ts_status s = ''SUCCESS'' \<and> \<not> ts_fixture s \<and> ts_rejected s = 0 \<longleftrightarrow> tool_success en (JObj raw))
      \<and> set (ts_vulnerabilities s) = usable_records en (JObj raw)" if mem: "s \<in> set ss" for s
    using summary_of [OF ss mem] make_summary_success make_summary_records
    by (fastforce simp: summarize_tool_iff)
  have "\<exists>m \<in> set vs. keeps m x" if "s \<in> set ss" "x \<in> set (ts_vulnerabilities s)" for s x
    using merged_summaries [OF ok ss] i vs that by (auto simp: input_wf_def)
  then have kept: "\<forall>s \<in> set ss. (\<exists>raw. ?result (ts_tool s) = JObj raw \<and> owned_result en scan raw)
      \<and> (\<forall>x \<in> usable_records en (?result (ts_tool s)). \<exists>m \<in> set vs. keeps m x)"
    using each by metis
  have expected: "set (si_expected_tools scan) = ts_tool ` set ss" using tools by (metis list.set_map)
  have "distinct (map ts_tool ss)" using i tools by (simp add: input_wf_def)
  then have "ve_status (judge en (e \<noteq> []) ss) = ''SUCCESS'' \<longleftrightarrow>
      \<not> en_fixture_mode en \<and> (\<forall>s \<in> set ss. tool_success en (?result (ts_tool s)))"
    using each by (fastforce simp: judge_success)
  moreover have "jget ''status'' report = JStr (ve_status (judge en (e \<noteq> []) ss))"
      "jget ''scan_id'' report = JStr (si_scan_id scan)" "jget ''tenant_id'' report = JStr (si_tenant_id scan)"
    by (simp_all add: report final_report_def Let_def jget_def dict_get_def)
  moreover have "\<exists>c. jget ''cloud_analysis'' report = JObj c \<and> jget ''vulnerabilities'' c = JArr (map (en_dump en) vs)"
    by (simp add: report final_report_def Let_def jget_def dict_get_def)
  ultimately show ?thesis using kept by (simp add: expected) blast
qed

theorem report_truthful_witness:
  "build_final_report analysis_engine 0 analysis_input demo_tool_results = Inr analysis_report
    \<and> jget ''scan_id'' analysis_report = JStr ''s1'' \<and> jget ''status'' analysis_report = JStr ''SUCCESS''"
proof -
  have wf: "json_wf (jget tool (upper_keys demo_tool_results))" for tool
    unfolding analysis_report_parts(3)
    by (simp add: jget_def dict_get_def demo_tool_results_def analysis_fields_def supported_tools_def dict_ok_def)
  have "normalized_status demo_rt (JStr ''SUCCESS'') = ''SUCCESS''" by code_simp
  then have "tool_success analysis_engine (jget tool (upper_keys demo_tool_results))" if "tool \<in> set supported_tools" for tool
    using that unfolding analysis_report_parts(3)
    by (auto simp: supported_tools_def tool_success_def demo_tool_results_def analysis_fields_def jget_def dict_get_def
        jget_default_def analysis_engine_def)
  then show ?thesis
    using report_truthful [OF analysis_engine_ok analysis_input_wf wf analysis_report_built] analysis_report_built
    by (auto simp: analysis_input_def analysis_engine_def)
qed

section \<open>A claimed task\<close>



section \<open>Scans whose tasks have ended\<close>










lemma query_run [simp]: "query env f (n, s) = (Inr (f (ae_others env n s)), Suc n, ae_others env n s)"
  by (simp add: query_def call_def)






end
