(* ===== verification/Spec2Isabelle.thy ===== *)
theory Spec2Isabelle
  imports Cloud_Properties Upload_Properties Worker_Properties Policy_Properties Merge_Properties Sync_Properties
    Local_Properties Policy_Storage Analysis_Properties
begin

text \<open>
  A verification library of the endpoint scanner \<^verbatim>\<open>app\<close> and of its cloud control plane \<^verbatim>\<open>cloud_service\<close>.

  The program. A scanner on an endpoint collects telemetry, evaluates policies on it, merges the
  vulnerabilities its tools report and queues the results in a local outbox, from which a worker sends
  them to the cloud. The cloud keeps the endpoints, their credentials, jobs, scans, inventories and the
  analysis tasks of each scan. The library follows the data: what is said about it on the endpoint
  (policies, merging, redaction), how it leaves the endpoint (outbox, worker, HTTP client, paths), what
  the cloud does with it (repository, inventory reconstruction), and the texts that bind both sides
  (canonical JSON, snapshots, audit chain).

  Theories and code.
    \<^item> \<open>Prelude\<close>: Python's dictionaries, stable sorts, text and exceptions; transition systems as locales.
    \<^item> \<open>Json\<close> (\<^verbatim>\<open>app/models/base.py\<close>, \<^verbatim>\<open>cloud_service/models.py\<close>): JSON values, Python's equality on them, and
      the two bounded validators with what they accept.
    \<^item> \<open>Serialization\<close>, \<open>Canonical_Text\<close> (\<^verbatim>\<open>app/storage/serialization.py\<close>): \<open>canonical_json\<close> and
      \<open>clean_identifier\<close>; the text determines the value up to the order of keys.
    \<^item> \<open>Snapshots\<close> (\<^verbatim>\<open>app/storage/snapshots.py\<close>): normalisation, digests and comparison of inventories.
    \<^item> \<open>Cloud_State\<close>, \<open>Cloud_Inventory\<close>, \<open>Cloud_Dispatch\<close>, \<open>Cloud_Repository\<close>
      (\<^verbatim>\<open>cloud_service/repository.py\<close>): the records and maps of \<open>InMemoryRepository\<close>, one definition for each
      method, as a function from the state to a result or exception and the state it leaves.
    \<^item> \<open>Cloud_Effects\<close>, \<open>Cloud_Invariants\<close>, \<open>Cloud_Steps\<close>, \<open>Cloud_Demo\<close>, \<open>Cloud_Properties\<close>: what each method
      changes, the invariant of the state, the step relation of all methods, and C1 to C11.
    \<^item> \<open>Audit_Log\<close>, \<open>Retry\<close>, \<open>Upload_Queue\<close> (\<^verbatim>\<open>app/storage/audit.py\<close>, \<^verbatim>\<open>retry.py\<close>, \<^verbatim>\<open>upload_queue.py\<close>, the tables
      of \<^verbatim>\<open>migrations.py\<close>): the hash chain, the delays, and every transaction of the outbox on its rows.
    \<^item> \<open>Upload_Invariants\<close>, \<open>Upload_Steps\<close>, \<open>Upload_Demo\<close>, \<open>Upload_Properties\<close>: the invariant of the queue, its
      step relation, the abstract queue it refines, and C13 to C22.
    \<^item> \<open>Url_Paths\<close>, \<open>Transport_Client\<close>, \<open>Upload_Worker\<close>, \<open>Worker_Demo\<close>, \<open>Worker_Properties\<close>
      (\<^verbatim>\<open>app/security/url_paths.py\<close>, \<^verbatim>\<open>app/transport/client.py\<close>, \<^verbatim>\<open>worker.py\<close>): the checks of paths, the request
      loop, the worker over queue and client, C24 to C28 and C30.
    \<^item> \<open>Redaction\<close>, \<open>Policy_Engine\<close>, \<open>Policy_Semantics\<close>, \<open>Policy_Properties\<close> (\<^verbatim>\<open>app/security/redaction.py\<close>,
      \<^verbatim>\<open>app/policies/engine.py\<close>, \<^verbatim>\<open>models.py\<close>): the walk that hides secrets, the budgeted evaluator, the meaning
      of conditions it computes, and C32, C33, C35 and C37.
    \<^item> \<open>Inventory_Storage\<close>, \<open>Job_Storage\<close>, \<open>Scan_Results\<close> (\<^verbatim>\<open>app/storage/results.py\<close>, \<^verbatim>\<open>jobs.py\<close>, \<^verbatim>\<open>base.py\<close>): the
      local tables of endpoints, jobs, history, findings, collector states, snapshots and results, each
      operation on them with its retention, and the transaction that saves a whole result.
    \<^item> \<open>Inventory_Invariants\<close>, \<open>Local_Schema\<close>, \<open>Local_Steps\<close>, \<open>Local_Properties\<close>, \<open>Sync_Properties\<close>: the invariant of
      the snapshots, the constraints the migrations declare, the step relation of all operations, C23, C31
      and C38, and C34, the round trip of an inventory from these tables to the cloud.
    \<^item> \<open>Policy_Storage\<close> (\<^verbatim>\<open>app/storage/results.py\<close>): the tables of policy versions, policy documents and schema
      versions, their operations and the invariant they keep.
    \<^item> \<open>Disjoint_Groups\<close>, \<open>Vulnerability_Merge\<close>, \<open>Merge_Properties\<close>
      (\<^verbatim>\<open>app/normalization/vulnerability_merge.py\<close>): the union-find structure, the merge, and C39 and C40.
    \<^item> \<open>Analysis_Engine\<close>, \<open>Analysis_Report\<close> (\<^verbatim>\<open>cloud_service/analysis.py\<close>, \<^verbatim>\<open>app/tools/base.py\<close>): the checks of stored
      evidence and of an SBOM, one tool run, and the report that merges the persisted results.
    \<^item> \<open>Analysis_Worker\<close> (\<^verbatim>\<open>cloud_service/worker.py\<close>): one round of the analysis worker over the repository, as a
      function of the number of calls made and the state, with what other clients do before each call.
    \<^item> \<open>Analysis_Runs\<close>, \<open>Analysis_Results\<close>, \<open>Analysis_Properties\<close>: relations on the state that every call keeps, the
      errors of the engine, what a report contains, and C12, C29 and C36.

  What the lemmas show. For the repository: identity, evidence and reports of a scan never change once
  set, tenants do not affect each other, uploads are idempotent and atomic, grants and leases are
  exclusive, jobs run within their authorization. For the outbox: causal order as long as no full
  resynchronisation intervenes, and that it is lost after one; refinement of an abstract queue; exclusive
  leases; a tamper-evident audit log. For the worker: a run is a run of the queue that leaves no lease
  and no due upload behind, and one way it does; requests stay within the lease and within the configured
  origin. For the policies: the evaluator is its declarative semantics; the evidence bound and how it
  fails; secrets do not influence the redacted copy. For the local tables: every reachable state conforms to the declared
  constraints, retention removes nothing that is still needed, a partial scan keeps what it did not observe.
  For the analysis: a task ends settled whatever other clients do, a scan whose tasks have ended gets its
  report in the next round that finds it, and a report says what the persisted results say; a worker that
  lost its lease ends with an exception (\<open>process_lost_lease\<close>).
  For the merge: the groups are the classes of an
  equivalence whatever the order of the sets, and the report loses and repeats nothing.

  Interfaces. The locales of \<open>Prelude\<close> give reachability, invariants and monotone relations; the
  repository, the queue and the abstract queue interpret them on their step relations. \<open>disjoint_groups\<close>
  is the contract of the union-find structure, interpreted on the parent table. \<open>run_relation\<close> carries a
  relation over a run of the analysis worker; it is interpreted on the runs of the repository and on the row of one task.

  Bounds and fuel. Loops that end by structure or by a measure are total functions: the percent decoding
  has one round more than the text has characters, the retry loop counts its attempts, \<open>read_bounded\<close> the bytes left, the drain
  of the worker its limit. The only fuel is that of \<open>uf_find\<close>, one step for each record; C39 shows that it
  suffices because a parent is never larger than its child. The budget of the policy engine is the
  program's own.

  What is a parameter. SHA-256, the texts of floats, ISO times, \<open>Decimal\<close> and \<open>uuid5\<close>, the UTF-8 decoder,
  zlib, the socket, the tool adapters with the normalisers of their output and pydantic's model of a
  vulnerability (\<open>engine\<close>), what other clients do between two calls of the analysis worker, the random draws and clocks, the regular substitutions of \<open>redact_text\<close>, and the
  iteration order of sets. Hypotheses on them say what their documentation says, and each has a witness.
  Characters are the code points below 256; floats outside \<open>Json\<close> are exact rationals.

  Not modelled. The PostgreSQL repository and the FastAPI routes (SQL and framework code around the same
  operations), pydantic's field declarations, collectors, tool adapters and the orchestrator (subprocesses
  and threads), reports (layout), installers, and the SQLite mechanics below the transactions.
\<close>

end
